(* ===== verification/Prelude.thy ===== *)
theory Prelude
  imports Complex_Main "HOL-Library.Multiset"
begin

text \<open>
  Shared vocabulary of the development: the named collections the component
  theories feed, the Python list operations the sources use (slices, sums,
  counts) and the generic lemmas on lists and sums that the component proofs
  share.  Nothing here models a particular source file.
\<close>

named_theorems model_defs \<open>definitions of the model unfolded by component proofs\<close>
named_theorems table_simps \<open>rewrite rules for column lookup and update\<close>
named_theorems stats_simps \<open>rewrite rules for the statistics helpers\<close>

section \<open>Types of the model\<close>

text \<open>
  Pandas timestamps are \<open>datetime64[ns]\<close>: an integer count of nanoseconds
  since 1970-01-01.  Calendar days are integers counted from the same epoch.
  Python floats are modelled as reals (exact arithmetic, no rounding).
\<close>

type_synonym timestamp = int
type_synonym day = int

definition day_ns :: int where
  "day_ns = 86400 * 1000000000"

definition second_ns :: int where
  "second_ns = 1000000000"

text \<open>
  \<open>xs[:k]\<close> in Python: a negative bound counts from the end, a bound past
  the end takes everything.
\<close>

definition py_take :: "int \<Rightarrow> 'a list \<Rightarrow> 'a list" where
  "py_take k xs = take (nat (if k < 0 then int (length xs) + k else k)) xs"

section \<open>Lemmas on the constants\<close>

lemma day_ns_pos [simp]: "0 < day_ns"
  by (simp add: day_ns_def)

lemma second_ns_pos [simp]: "0 < second_ns"
  by (simp add: second_ns_def)

section \<open>Python slices\<close>


lemma py_take_nonneg [simp]: "0 \<le> k \<Longrightarrow> py_take k xs = take (nat k) xs"
  by (simp add: py_take_def)

lemma length_py_take_nonneg: "0 \<le> k \<Longrightarrow> length (py_take k xs) \<le> nat k"
  by simp

lemma py_take_neg: "k < 0 \<Longrightarrow> py_take k xs = take (length xs - nat (- k)) xs"
proof -
  assume "k < 0"
  then have "nat (int (length xs) + k) = length xs - nat (- k)" by arith
  with \<open>k < 0\<close> show ?thesis by (simp add: py_take_def)
qed

lemma set_py_take: "set (py_take k xs) \<subseteq> set xs"
  by (simp add: py_take_def set_take_subset)

lemma py_take_is_take: "\<exists>n. py_take k xs = take n xs"
  by (auto simp: py_take_def)

section \<open>Sums and counts over lists\<close>

lemma sum_list_map_add [stats_simps]:
  "(\<Sum>x\<leftarrow>xs. f x + g x) = (\<Sum>x\<leftarrow>xs. f x) + (\<Sum>x\<leftarrow>xs. (g x :: real))"
  by (induction xs) simp_all

lemma sum_list_map_diff [stats_simps]:
  "(\<Sum>x\<leftarrow>xs. f x - g x) = (\<Sum>x\<leftarrow>xs. f x) - (\<Sum>x\<leftarrow>xs. (g x :: real))"
  by (induction xs) simp_all

lemma sum_list_map_cmult [stats_simps]:
  "(\<Sum>x\<leftarrow>xs. c * f x) = c * (\<Sum>x\<leftarrow>xs. (f x :: real))"
  by (induction xs) (simp_all add: algebra_simps)

lemma sum_list_map_multc [stats_simps]:
  "(\<Sum>x\<leftarrow>xs. f x * c) = (\<Sum>x\<leftarrow>xs. (f x :: real)) * c"
  by (induction xs) (simp_all add: algebra_simps)

lemma sum_list_map_const [stats_simps]:
  "(\<Sum>x\<leftarrow>xs. (c :: real)) = real (length xs) * c"
  by (induction xs) (simp_all add: algebra_simps)

lemma sum_list_nonneg_map: "(\<And>x. x \<in> set xs \<Longrightarrow> 0 \<le> f x) \<Longrightarrow> 0 \<le> (\<Sum>x\<leftarrow>xs. (f x :: real))"
  by (induction xs) (auto intro: add_nonneg_nonneg)

lemma sum_list_map_mset:
  "mset xs = mset ys \<Longrightarrow> (\<Sum>x\<leftarrow>xs. f x) = (\<Sum>x\<leftarrow>ys. (f x :: 'b::comm_monoid_add))"
  by (metis mset_map sum_mset_sum_list)

lemma sum_list_zip_mset:
  assumes "mset (zip xs ys) = mset (zip xs' ys')"
  shows "(\<Sum>(x, y)\<leftarrow>zip xs ys. f x y) = (\<Sum>(x, y)\<leftarrow>zip xs' ys'. (f x y :: real))"
  using sum_list_map_mset [OF assms, of "\<lambda>(x, y). f x y"] by simp

lemma count_list_distinct:
  "distinct xs \<Longrightarrow> count_list xs x = (if x \<in> set xs then 1 else 0)"
  by (induction xs) auto

lemma count_filter_le_length: "length (filter P xs) \<le> length xs"
  by (rule length_filter_le)

section \<open>Floor division on integers\<close>

lemma div_bounds_int: "0 < (b::int) \<Longrightarrow> b * (a div b) \<le> a \<and> a < b * (a div b) + b"
proof -
  assume b: "0 < b"
  have "a = b * (a div b) + a mod b" by simp
  moreover have "0 \<le> a mod b" "a mod b < b" using b by simp_all
  ultimately show ?thesis by linarith
qed
lemma div_eq_by_bounds: "0 < (b::int) \<Longrightarrow> b * q \<le> a \<Longrightarrow> a < b * q + b \<Longrightarrow> a div b = q"
proof -
  assume b: "0 < b" and lo: "b * q \<le> a" and hi: "a < b * q + b"
  have "(a - b * q) div b = 0" using lo hi by (simp add: div_pos_pos_trivial)
  moreover have "(a - b * q) div b = a div b - q"
    using b by (metis add_diff_cancel_left' diff_add_cancel div_mult_self1 less_irrefl mult.commute add.commute)
  ultimately show ?thesis by simp
qed
lemma div_step: "0 < (b::int) \<Longrightarrow> y div b - (y - 1) div b = (if b dvd y then 1 else 0)"
proof -
  assume b: "0 < b"
  let ?q = "y div b"
  have bd: "b * ?q \<le> y" "y < b * ?q + b" using div_bounds_int [OF b] by auto
  show ?thesis
  proof (cases "b dvd y")
    case True
    then have "y = b * ?q" by simp
    then have "(y - 1) div b = ?q - 1" using b by (intro div_eq_by_bounds) (simp_all add: algebra_simps)
    with True show ?thesis by simp
  next
    case False
    then have "b * ?q \<noteq> y" by (metis dvd_triv_left)
    then have "(y - 1) div b = ?q" using b bd by (intro div_eq_by_bounds) simp_all
    with False show ?thesis by simp
  qed
qed
end
