(* ===== verification/Table.thy ===== *)
theory Table
  imports Prelude
begin

text \<open>
  The pandas DataFrame the backend passes between its functions
  (\<open>src/backend/data_processing.py\<close>, \<open>insights.py\<close>, \<open>forecasting.py\<close>):
  an ordered list of named columns, each with a storage dtype and its cells.
  A cell is one Python value as pandas stores it; \<open>NA\<close> stands for every
  missing marker (NaN, None, NaT), which \<open>dropna\<close>, \<open>notna\<close> and
  \<open>value_counts\<close> all treat alike.
\<close>

datatype cell = Num real | Str string | Flag bool | Stamp timestamp | NA

datatype dtype = Number | Boolean | Datetime | Object

record column =
  col_dtype :: dtype
  col_cells :: "cell list"

type_synonym table = "(string \<times> column) list"

text \<open>The Python exceptions the modelled code can raise, as values.\<close>

datatype py_error = KeyError string | ValueError string | TypeError string

section \<open>Shape and lookup\<close>

definition columns :: "table \<Rightarrow> string list" where
  "columns t = map fst t"

definition nrows :: "table \<Rightarrow> nat" where
  "nrows t = (case t of [] \<Rightarrow> 0 | (_, c) # _ \<Rightarrow> length (col_cells c))"

text \<open>\<open>DataFrame.empty\<close>: no columns or no rows.\<close>

definition df_empty :: "table \<Rightarrow> bool" where
  "df_empty t \<longleftrightarrow> t = [] \<or> nrows t = 0"

text \<open>
  \<open>df[name]\<close>: the column of that name.  A name that is missing, or that
  labels several columns (then pandas returns a DataFrame, not a Series),
  gives no column.
\<close>

definition df_get :: "table \<Rightarrow> string \<Rightarrow> column option" where
  "df_get t n = (if count_list (columns t) n = 1 then map_of t n else None)"

text \<open>\<open>df[name] = c\<close> for a name that is present: the column is replaced in place.\<close>

definition set_col :: "string \<Rightarrow> column \<Rightarrow> table \<Rightarrow> table" where
  "set_col n c t = map (\<lambda>(m, c'). if m = n then (m, c) else (m, c')) t"

definition notna :: "cell \<Rightarrow> bool" where
  "notna c \<longleftrightarrow> c \<noteq> NA"

section \<open>Well-formed tables\<close>

text \<open>What pandas guarantees of a DataFrame built by the loaders.\<close>

fun cell_fits :: "dtype \<Rightarrow> cell \<Rightarrow> bool" where
  "cell_fits Number c = (case c of Num _ \<Rightarrow> True | NA \<Rightarrow> True | _ \<Rightarrow> False)"
| "cell_fits Boolean c = (case c of Flag _ \<Rightarrow> True | _ \<Rightarrow> False)"
| "cell_fits Datetime c = (case c of Stamp _ \<Rightarrow> True | NA \<Rightarrow> True | _ \<Rightarrow> False)"
| "cell_fits Object c = True"

definition wf_column :: "column \<Rightarrow> bool" where
  "wf_column c \<longleftrightarrow> (\<forall>x \<in> set (col_cells c). cell_fits (col_dtype c) x)"

definition wf_table :: "table \<Rightarrow> bool" where
  "wf_table t \<longleftrightarrow> distinct (columns t)
     \<and> (\<forall>(n, c) \<in> set t. wf_column c \<and> length (col_cells c) = nrows t)"

section \<open>Lemmas on lookup and update\<close>

lemma columns_set_col [simp, table_simps]: "columns (set_col n c t) = columns t"
  by (induction t) (auto simp: columns_def set_col_def)

lemma df_get_distinct [table_simps]:
  "distinct (columns t) \<Longrightarrow> df_get t n = map_of t n"
  by (simp add: df_get_def count_list_distinct columns_def) (metis map_of_eq_None_iff)

lemma map_of_set_col [table_simps]:
  "map_of (set_col n c t) m = (if m = n \<and> m \<in> set (columns t) then Some c else map_of t m)"
  by (induction t) (force simp: set_col_def columns_def)+

lemma in_set_set_col: "(m, d) \<in> set (set_col n c t) \<Longrightarrow> (m, d) \<in> set t \<or> d = c"
  by (auto simp: set_col_def split: if_splits)

lemma df_get_set_col [table_simps]:
  "distinct (columns t) \<Longrightarrow>
   df_get (set_col n c t) m = (if m = n \<and> m \<in> set (columns t) then Some c else df_get t m)"
proof -
  assume d: "distinct (columns t)"
  then have d': "distinct (columns (set_col n c t))" by simp
  show ?thesis
    by (simp only: df_get_distinct [OF d'] df_get_distinct [OF d] map_of_set_col)
qed

lemma df_get_Some_in: "df_get t n = Some c \<Longrightarrow> (n, c) \<in> set t"
  by (auto simp: df_get_def dest: map_of_SomeD split: if_splits)

lemma nrows_set_col:
  "length (col_cells c) = nrows t \<Longrightarrow> nrows (set_col n c t) = nrows t"
  by (cases t) (auto simp: nrows_def set_col_def)

lemma wf_table_set_col:
  assumes "wf_table t" "wf_column c" "length (col_cells c) = nrows t"
  shows "wf_table (set_col n c t)"
proof -
  have rows: "nrows (set_col n c t) = nrows t"
    using assms(3) by (rule nrows_set_col)
  have old: "\<forall>(m, d) \<in> set t. wf_column d \<and> length (col_cells d) = nrows t"
    using assms(1) by (simp add: wf_table_def)
  have "wf_column d \<and> length (col_cells d) = nrows t"
    if "(m, d) \<in> set (set_col n c t)" for m d
    using in_set_set_col [OF that] old assms(2,3) by auto
  then have "\<forall>(m, d) \<in> set (set_col n c t). wf_column d \<and> length (col_cells d) = nrows t"
    by auto
  with rows assms(1) show ?thesis
    by (simp add: wf_table_def)
qed

end
