(* ===== verification/Classifier.thy ===== *)
theory Classifier
  imports Table
begin

text \<open>
  The type classifier, \<open>detect_column_types\<close> in
  \<open>src/backend/data_processing.py\<close> (lines 35--55).  \<open>pd.to_datetime\<close> with
  \<open>errors="coerce"\<close> is an external library call; it is a parameter of the
  model, a \<open>parser\<close> saying for each cell whether it parses to a timestamp,
  is coerced to NaT, or makes the whole call raise (pandas raises on some
  dtypes even with \<open>errors="coerce"\<close>).  The loop of the source, which
  rewrites the DataFrame copy column by column, is \<open>detect_loop\<close>; the
  per-column specification it implements is \<open>classify_column\<close>.
\<close>

datatype parse = Parsed timestamp | Coerced | Raises

type_synonym parser = "cell \<Rightarrow> parse"

section \<open>Operations\<close>

text \<open>\<open>pd.to_datetime(series, errors="coerce")\<close>: \<open>None\<close> when it raises.\<close>

definition to_datetime :: "parser \<Rightarrow> cell list \<Rightarrow> timestamp option list option" where
  "to_datetime conv cs =
     (if (\<exists>c \<in> set cs. conv c = Raises) then None
      else Some (map (\<lambda>c. case conv c of Parsed t \<Rightarrow> Some t | _ \<Rightarrow> None) cs))"

text \<open>\<open>parsed.notna().sum() >= max(2, 0.5 * len(parsed))\<close>, a comparison of
  an int with a float.\<close>

definition dt_threshold :: "timestamp option list \<Rightarrow> bool" where
  "dt_threshold ps =
     (let k = length (filter (\<lambda>p. p \<noteq> None) ps)
      in max 2 (0.5 * real (length ps)) \<le> real k)"

text \<open>\<open>df[col] = parsed\<close>: the column becomes a datetime64 column.\<close>

definition stamp_column :: "timestamp option list \<Rightarrow> column" where
  "stamp_column ps =
     \<lparr>col_dtype = Datetime,
      col_cells = map (\<lambda>p. case p of Some t \<Rightarrow> Stamp t | None \<Rightarrow> NA) ps\<rparr>"

text \<open>\<open>df.select_dtypes(include=["number"]).columns.tolist()\<close>: booleans and
  datetimes are not numbers.\<close>

definition numeric_cols :: "table \<Rightarrow> string list" where
  "numeric_cols t = map fst (filter (\<lambda>(n, c). col_dtype c = Number) t)"

text \<open>
  The \<open>for col in df.columns\<close> loop.  Inside the \<open>try\<close>, a failing
  \<open>df[col]\<close> or a raising \<open>to_datetime\<close> both lead to \<open>continue\<close>.
  The state is the list of datetime columns found so far and the DataFrame copy.
\<close>

fun detect_loop ::
  "parser \<Rightarrow> string list \<Rightarrow> string list \<Rightarrow> table \<Rightarrow> string list \<Rightarrow> string list \<times> table" where
  "detect_loop conv numeric [] df dts = (dts, df)"
| "detect_loop conv numeric (col # cols) df dts =
     (if col \<in> set numeric then detect_loop conv numeric cols df dts
      else (case df_get df col of
              None \<Rightarrow> detect_loop conv numeric cols df dts
            | Some c \<Rightarrow>
                (case to_datetime conv (col_cells c) of
                   None \<Rightarrow> detect_loop conv numeric cols df dts
                 | Some ps \<Rightarrow>
                     if dt_threshold ps
                     then detect_loop conv numeric cols (set_col col (stamp_column ps) df) (dts @ [col])
                     else detect_loop conv numeric cols df dts)))"

text \<open>The whole function: \<open>(numeric_cols, categorical_cols, datetime_cols, df)\<close>.\<close>

definition detect_column_types ::
  "parser \<Rightarrow> table \<Rightarrow> string list \<times> string list \<times> string list \<times> table" where
  "detect_column_types conv df0 =
     (let numeric = numeric_cols df0;
          (dts, df) = detect_loop conv numeric (columns df0) df0 [];
          categorical = filter (\<lambda>c. c \<notin> set (numeric @ dts)) (columns df)
      in (numeric, categorical, dts, df))"

section \<open>The per-column specification\<close>

datatype col_class = NumericCol | DatetimeCol | CategoricalCol

text \<open>What the spec says of one column, independent of every other column.\<close>

definition classify_column :: "parser \<Rightarrow> column \<Rightarrow> col_class" where
  "classify_column conv c =
     (if col_dtype c = Number then NumericCol
      else (case to_datetime conv (col_cells c) of
              Some ps \<Rightarrow> if dt_threshold ps then DatetimeCol else CategoricalCol
            | None \<Rightarrow> CategoricalCol))"

definition normalize_column :: "parser \<Rightarrow> column \<Rightarrow> column" where
  "normalize_column conv c =
     (if classify_column conv c = DatetimeCol
      then stamp_column (the (to_datetime conv (col_cells c))) else c)"

definition names_of_class :: "parser \<Rightarrow> col_class \<Rightarrow> table \<Rightarrow> string list" where
  "names_of_class conv k t = map fst (filter (\<lambda>(n, c). classify_column conv c = k) t)"

definition classify_spec ::
  "parser \<Rightarrow> table \<Rightarrow> string list \<times> string list \<times> string list \<times> table" where
  "classify_spec conv t =
     (names_of_class conv NumericCol t, names_of_class conv CategoricalCol t,
      names_of_class conv DatetimeCol t, map (\<lambda>(n, c). (n, normalize_column conv c)) t)"

text \<open>The DataFrame copy after the loop has visited the columns in \<open>S\<close>.\<close>

definition norm_on :: "parser \<Rightarrow> string set \<Rightarrow> table \<Rightarrow> table" where
  "norm_on conv S t = map (\<lambda>(n, c). (n, if n \<in> S then normalize_column conv c else c)) t"

text \<open>
  \<open>pd.to_datetime\<close> on cells that are already timestamps, booleans or
  unparsable strings: timestamps are kept, a boolean makes the call raise,
  everything else is coerced to NaT.  Used for the concrete examples.
\<close>

definition stamp_parser :: parser where
  "stamp_parser c = (case c of Stamp t \<Rightarrow> Parsed t | Flag _ \<Rightarrow> Raises | _ \<Rightarrow> Coerced)"

section \<open>The loop implements the specification\<close>

lemma map_of_map_keys:
  "map_of (map (\<lambda>(k, v). (k, f k v)) xs) k = map_option (f k) (map_of xs k)"
  by (induction xs) auto

lemma columns_norm_on [simp]: "columns (norm_on conv S t) = columns t"
  by (induction t) (auto simp: columns_def norm_on_def)

lemma df_get_norm_on:
  assumes "distinct (columns t)" "(n, c) \<in> set t" "n \<notin> S"
  shows "df_get (norm_on conv S t) n = Some c"
proof -
  have "map_of t n = Some c"
    using assms(1,2) by (simp add: columns_def)
  moreover have "df_get (norm_on conv S t) n = map_of (norm_on conv S t) n"
    using assms(1) by (simp add: df_get_distinct)
  ultimately show ?thesis
    using assms(3) by (simp add: norm_on_def map_of_map_keys)
qed

lemma norm_on_insert_same:
  assumes "distinct (columns t)" "(n, c) \<in> set t" "normalize_column conv c = c"
  shows "norm_on conv (insert n S) t = norm_on conv S t"
  unfolding norm_on_def
proof (rule map_cong [OF refl])
  fix x assume x: "x \<in> set t"
  obtain m d where md: "x = (m, d)" by (cases x)
  have "m = n \<Longrightarrow> d = c"
    using assms(1,2) x md by (auto simp: columns_def intro: eq_key_imp_eq_value)
  with md assms(3) show "(case x of (m, c) \<Rightarrow> (m, if m \<in> insert n S then normalize_column conv c else c)) =
        (case x of (m, c) \<Rightarrow> (m, if m \<in> S then normalize_column conv c else c))"
    by auto
qed

lemma set_col_norm_on:
  assumes "distinct (columns t)" "(n, c) \<in> set t"
  shows "set_col n (normalize_column conv c) (norm_on conv S t) = norm_on conv (insert n S) t"
  unfolding norm_on_def set_col_def map_map
proof (rule map_cong [OF refl])
  fix x assume x: "x \<in> set t"
  obtain m d where md: "x = (m, d)" by (cases x)
  have "m = n \<Longrightarrow> d = c"
    using assms(1,2) x md by (auto simp: columns_def intro: eq_key_imp_eq_value)
  with md show "((\<lambda>(m, c'). if m = n then (m, normalize_column conv c) else (m, c')) \<circ>
          (\<lambda>(n, c). (n, if n \<in> S then normalize_column conv c else c))) x =
        (case x of (m, c) \<Rightarrow> (m, if m \<in> insert n S then normalize_column conv c else c))"
    by auto
qed

lemma numeric_cols_member:
  assumes "distinct (columns t)" "(n, c) \<in> set t"
  shows "n \<in> set (numeric_cols t) \<longleftrightarrow> col_dtype c = Number"
proof
  assume "n \<in> set (numeric_cols t)"
  then obtain d where "(n, d) \<in> set t" "col_dtype d = Number"
    by (auto simp: numeric_cols_def)
  with assms show "col_dtype c = Number"
    using eq_key_imp_eq_value [of t n c d] by (simp add: columns_def)
next
  assume "col_dtype c = Number"
  with assms(2) show "n \<in> set (numeric_cols t)"
    by (force simp: numeric_cols_def)
qed

lemma classify_column_cases:
  "classify_column conv c = NumericCol \<longleftrightarrow> col_dtype c = Number"
  "classify_column conv c = DatetimeCol \<longleftrightarrow>
     col_dtype c \<noteq> Number \<and> (\<exists>ps. to_datetime conv (col_cells c) = Some ps \<and> dt_threshold ps)"
  by (auto simp: classify_column_def split: option.splits)

lemma normalize_column_same:
  "classify_column conv c \<noteq> DatetimeCol \<Longrightarrow> normalize_column conv c = c"
  by (simp add: normalize_column_def)

lemma detect_loop_norm_on:
  assumes "distinct (columns t)" "t = pre @ rest"
  shows "detect_loop conv (numeric_cols t) (map fst rest) (norm_on conv (set (map fst pre)) t) dts
         = (dts @ names_of_class conv DatetimeCol rest, norm_on conv (set (columns t)) t)"
  using assms
proof (induction rest arbitrary: pre dts)
  case Nil
  then show ?case by (simp add: names_of_class_def columns_def)
next
  case (Cons x rest)
  obtain n c where x: "x = (n, c)" by (cases x)
  let ?S = "set (map fst pre)"
  let ?T = "norm_on conv ?S t"
  have t: "t = (pre @ [(n, c)]) @ rest"
    using Cons.prems x by simp
  have nc: "(n, c) \<in> set t"
    using t by simp
  have nS: "n \<notin> ?S"
    using Cons.prems(1) t by (simp add: columns_def)
  have get: "df_get ?T n = Some c"
    by (rule df_get_norm_on [OF Cons.prems(1) nc nS])
  have num: "n \<in> set (numeric_cols t) \<longleftrightarrow> col_dtype c = Number"
    by (rule numeric_cols_member [OF Cons.prems(1) nc])
  have IH: "detect_loop conv (numeric_cols t) (map fst rest) (norm_on conv (insert n ?S) t) dts'
      = (dts' @ names_of_class conv DatetimeCol rest, norm_on conv (set (columns t)) t)" for dts'
    using Cons.IH [OF Cons.prems(1) t] by simp
  show ?case
  proof (cases "classify_column conv c = DatetimeCol")
    case True
    then obtain ps where ps: "col_dtype c \<noteq> Number" "to_datetime conv (col_cells c) = Some ps"
        "dt_threshold ps"
      by (auto simp: classify_column_cases)
    have "set_col n (stamp_column ps) ?T = norm_on conv (insert n ?S) t"
      using set_col_norm_on [OF Cons.prems(1) nc, of conv ?S] True ps(2)
      by (simp add: normalize_column_def)
    then show ?thesis
      using x num get ps True IH [of "dts @ [n]"] by (simp add: names_of_class_def)
  next
    case False
    have same: "norm_on conv (insert n ?S) t = ?T"
      by (rule norm_on_insert_same [OF Cons.prems(1) nc normalize_column_same [OF False]])
    have "detect_loop conv (numeric_cols t) (map fst (x # rest)) ?T dts
        = detect_loop conv (numeric_cols t) (map fst rest) ?T dts"
      using x num get False by (auto simp: classify_column_cases split: option.splits)
    then show ?thesis
      using x False IH [of dts] same by (simp add: names_of_class_def)
  qed
qed

lemma norm_on_empty [simp]: "norm_on conv {} t = t"
  by (induction t) (auto simp: norm_on_def)

lemma norm_on_all: "norm_on conv (set (columns t)) t = map (\<lambda>(n, c). (n, normalize_column conv c)) t"
  unfolding norm_on_def columns_def by (rule map_cong [OF refl]) force

lemma names_of_class_member:
  assumes "distinct (columns t)" "(n, c) \<in> set t"
  shows "n \<in> set (names_of_class conv k t) \<longleftrightarrow> classify_column conv c = k"
proof
  assume "n \<in> set (names_of_class conv k t)"
  then obtain d where "(n, d) \<in> set t" "classify_column conv d = k"
    by (auto simp: names_of_class_def)
  with assms show "classify_column conv c = k"
    using eq_key_imp_eq_value [of t n c d] by (simp add: columns_def)
next
  assume "classify_column conv c = k"
  with assms(2) show "n \<in> set (names_of_class conv k t)"
    by (force simp: names_of_class_def)
qed

lemma numeric_cols_spec: "numeric_cols t = names_of_class conv NumericCol t"
  by (simp add: numeric_cols_def names_of_class_def classify_column_cases(1) case_prod_beta)

lemma categorical_spec:
  assumes "distinct (columns t)"
  shows "filter (\<lambda>n. n \<notin> set (names_of_class conv NumericCol t)
                    \<and> n \<notin> set (names_of_class conv DatetimeCol t))
           (columns t) = names_of_class conv CategoricalCol t"
proof -
  let ?P = "\<lambda>n. n \<notin> set (names_of_class conv NumericCol t) \<and> n \<notin> set (names_of_class conv DatetimeCol t)"
  have key: "?P n = (classify_column conv c = CategoricalCol)" if "(n, c) \<in> set t" for n c
  proof -
    have "n \<in> set (names_of_class conv NumericCol t) \<longleftrightarrow> classify_column conv c = NumericCol"
      and "n \<in> set (names_of_class conv DatetimeCol t) \<longleftrightarrow> classify_column conv c = DatetimeCol"
      using names_of_class_member [OF assms that] by blast+
    then show ?thesis by (cases "classify_column conv c") simp_all
  qed
  have "filter (\<lambda>x. ?P (fst x)) t = filter (\<lambda>x. classify_column conv (snd x) = CategoricalCol) t"
  proof (rule filter_cong [OF refl])
    fix x assume "x \<in> set t"
    then show "?P (fst x) = (classify_column conv (snd x) = CategoricalCol)"
      using key [of "fst x" "snd x"] by simp
  qed
  then show ?thesis
    by (simp add: columns_def names_of_class_def filter_map comp_def split_def)
qed

lemma mset_names_of_class:
  "mset (names_of_class conv NumericCol t) + mset (names_of_class conv CategoricalCol t)
     + mset (names_of_class conv DatetimeCol t) = mset (columns t)"
proof (induction t)
  case Nil
  then show ?case by (simp add: names_of_class_def columns_def)
next
  case (Cons x t)
  then show ?case
    by (cases x, cases "classify_column conv (snd x)") (auto simp: names_of_class_def columns_def)
qed

lemma parsed_count:
  "to_datetime conv cs = Some ps \<Longrightarrow>
   length (filter (\<lambda>p. p \<noteq> None) ps) = length (filter (\<lambda>c. \<exists>t. conv c = Parsed t) cs)"
  by (induction cs arbitrary: ps) (auto simp: to_datetime_def split: parse.splits if_splits)

lemma dt_threshold_iff:
  "dt_threshold ps \<longleftrightarrow>
     2 \<le> length (filter (\<lambda>p. p \<noteq> None) ps) \<and> length ps \<le> 2 * length (filter (\<lambda>p. p \<noteq> None) ps)"
  by (simp add: dt_threshold_def Let_def) linarith

lemma length_to_datetime: "to_datetime conv cs = Some ps \<Longrightarrow> length ps = length cs"
  by (auto simp: to_datetime_def split: if_splits)

lemma wf_normalize_column:
  "wf_column c \<Longrightarrow> wf_column (normalize_column conv c)
     \<and> length (col_cells (normalize_column conv c)) = length (col_cells c)"
  by (auto simp: normalize_column_def classify_column_cases wf_column_def stamp_column_def
      length_to_datetime split: option.splits)

lemma detect_loop_result:
  "distinct (columns t) \<Longrightarrow>
   detect_loop conv (numeric_cols t) (columns t) t [] =
     (names_of_class conv DatetimeCol t, map (\<lambda>(n, c). (n, normalize_column conv c)) t)"
proof -
  assume d: "distinct (columns t)"
  have "detect_loop conv (numeric_cols t) (map fst t) (norm_on conv (set (map fst [])) t) []
      = ([] @ names_of_class conv DatetimeCol t, norm_on conv (set (columns t)) t)"
    using detect_loop_norm_on [of t "[]" t conv "[]"] d by simp
  then have "detect_loop conv (numeric_cols t) (map fst t) t []
      = (names_of_class conv DatetimeCol t, map (\<lambda>(n, c). (n, normalize_column conv c)) t)"
    by (simp only: norm_on_all list.map list.set(1) norm_on_empty append_Nil)
  then show ?thesis
    by (simp only: columns_def)
qed

lemma columns_map_normalize [simp]:
  "columns (map (\<lambda>(n, c). (n, normalize_column conv c)) t) = columns t"
  by (induction t) (auto simp: columns_def)

lemma detect_column_types_spec:
  assumes "distinct (columns t)"
  shows "detect_column_types conv t = classify_spec conv t"
proof -
  have loop: "detect_loop conv (numeric_cols t) (columns t) t [] =
     (names_of_class conv DatetimeCol t, map (\<lambda>(n, c). (n, normalize_column conv c)) t)"
    by (rule detect_loop_result [OF assms])
  show ?thesis
    unfolding detect_column_types_def Let_def loop
    by (simp add: numeric_cols_spec [of _ conv] categorical_spec [OF assms] classify_spec_def)
qed

text \<open>C2: the loop of \<open>detect_column_types\<close>, which rewrites the DataFrame copy
  as it goes, computes exactly the per-column classification: each column's
  class depends on that column alone, whatever the order of the columns.\<close>

theorem detect_column_types_refines_spec:
  assumes "distinct (columns t)"
  shows "detect_column_types conv t = classify_spec conv t"
  by (rule detect_column_types_spec [OF assms])

theorem detect_column_types_refines_spec_witness:
  "distinct (columns
     [(''sales'', \<lparr>col_dtype = Number, col_cells = [Num 10, Num 20, NA]\<rparr>),
      (''day'', \<lparr>col_dtype = Object, col_cells = [Stamp 0, Stamp 86400000000000, NA]\<rparr>),
      (''region'', \<lparr>col_dtype = Object, col_cells = [Str ''north'', Str ''south'', Str ''north'']\<rparr>)])
   \<and> detect_column_types stamp_parser
     [(''sales'', \<lparr>col_dtype = Number, col_cells = [Num 10, Num 20, NA]\<rparr>),
      (''day'', \<lparr>col_dtype = Object, col_cells = [Stamp 0, Stamp 86400000000000, NA]\<rparr>),
      (''region'', \<lparr>col_dtype = Object, col_cells = [Str ''north'', Str ''south'', Str ''north'']\<rparr>)]
   = classify_spec stamp_parser
     [(''sales'', \<lparr>col_dtype = Number, col_cells = [Num 10, Num 20, NA]\<rparr>),
      (''day'', \<lparr>col_dtype = Object, col_cells = [Stamp 0, Stamp 86400000000000, NA]\<rparr>),
      (''region'', \<lparr>col_dtype = Object, col_cells = [Str ''north'', Str ''south'', Str ''north'']\<rparr>)]"
  using detect_column_types_refines_spec [of "[(''sales'', \<lparr>col_dtype = Number, col_cells = [Num 10, Num 20, NA]\<rparr>),
      (''day'', \<lparr>col_dtype = Object, col_cells = [Stamp 0, Stamp 86400000000000, NA]\<rparr>),
      (''region'', \<lparr>col_dtype = Object, col_cells = [Str ''north'', Str ''south'', Str ''north'']\<rparr>)]" stamp_parser]
  by (simp add: columns_def)

text \<open>C1: the three lists returned by \<open>detect_column_types\<close> partition the
  columns: every column name is in exactly one of them, exactly once, and the
  normalized DataFrame has the same columns in the same order.\<close>

theorem detect_column_types_partition:
  assumes "distinct (columns t)" "detect_column_types conv t = (num, cat, dts, t')"
  shows "mset (num @ cat @ dts) = mset (columns t) \<and> columns t' = columns t"
proof -
  have "(num, cat, dts, t') = classify_spec conv t"
    using assms detect_column_types_spec by metis
  then show ?thesis
    using mset_names_of_class [of conv t] by (auto simp: classify_spec_def ac_simps)
qed

lemma detect_column_types_example:
  "detect_column_types stamp_parser
     [(''sales'', \<lparr>col_dtype = Number, col_cells = [Num 10, Num 20, NA]\<rparr>),
      (''day'', \<lparr>col_dtype = Object, col_cells = [Stamp 0, Stamp 86400000000000, NA]\<rparr>),
      (''region'', \<lparr>col_dtype = Object, col_cells = [Str ''north'', Str ''south'', Str ''north'']\<rparr>)]
   = ([''sales''], [''region''], [''day''],
     [(''sales'', \<lparr>col_dtype = Number, col_cells = [Num 10, Num 20, NA]\<rparr>),
      (''day'', \<lparr>col_dtype = Datetime, col_cells = [Stamp 0, Stamp 86400000000000, NA]\<rparr>),
      (''region'', \<lparr>col_dtype = Object, col_cells = [Str ''north'', Str ''south'', Str ''north'']\<rparr>)])"
  by (simp add: detect_column_types_def numeric_cols_def columns_def df_get_def to_datetime_def
      stamp_parser_def dt_threshold_def stamp_column_def set_col_def)

theorem detect_column_types_partition_witness:
  "distinct (columns
     [(''sales'', \<lparr>col_dtype = Number, col_cells = [Num 10, Num 20, NA]\<rparr>),
      (''day'', \<lparr>col_dtype = Object, col_cells = [Stamp 0, Stamp 86400000000000, NA]\<rparr>),
      (''region'', \<lparr>col_dtype = Object, col_cells = [Str ''north'', Str ''south'', Str ''north'']\<rparr>)])
   \<and> mset ([''sales''] @ [''region''] @ [''day'']) = mset (columns
     [(''sales'', \<lparr>col_dtype = Number, col_cells = [Num 10, Num 20, NA]\<rparr>),
      (''day'', \<lparr>col_dtype = Object, col_cells = [Stamp 0, Stamp 86400000000000, NA]\<rparr>),
      (''region'', \<lparr>col_dtype = Object, col_cells = [Str ''north'', Str ''south'', Str ''north'']\<rparr>)])"
proof -
  have d: "distinct (columns
     [(''sales'', \<lparr>col_dtype = Number, col_cells = [Num 10, Num 20, NA]\<rparr>),
      (''day'', \<lparr>col_dtype = Object, col_cells = [Stamp 0, Stamp 86400000000000, NA]\<rparr>),
      (''region'', \<lparr>col_dtype = Object, col_cells = [Str ''north'', Str ''south'', Str ''north'']\<rparr>)])"
    by (simp add: columns_def)
  from detect_column_types_partition [OF d detect_column_types_example] d show ?thesis
    by simp
qed

text \<open>C3: a non-numeric column becomes a datetime column exactly when
  \<open>to_datetime\<close> does not raise on it and at least \<open>max(2, 0.5 * rows)\<close> of
  its cells parse; the half-of-the-rows boundary is inclusive.\<close>

theorem detect_datetime_iff:
  assumes "distinct (columns t)" "(n, c) \<in> set t"
  shows "n \<in> set (fst (snd (snd (detect_column_types conv t)))) \<longleftrightarrow>
     col_dtype c \<noteq> Number \<and> (\<forall>x \<in> set (col_cells c). conv x \<noteq> Raises)
     \<and> 2 \<le> length (filter (\<lambda>x. \<exists>s. conv x = Parsed s) (col_cells c))
     \<and> length (col_cells c) \<le> 2 * length (filter (\<lambda>x. \<exists>s. conv x = Parsed s) (col_cells c))"
proof -
  have "n \<in> set (fst (snd (snd (detect_column_types conv t))))
        \<longleftrightarrow> classify_column conv c = DatetimeCol"
    using detect_column_types_spec [OF assms(1)] names_of_class_member [OF assms]
    by (simp add: classify_spec_def)
  also have "\<dots> \<longleftrightarrow> col_dtype c \<noteq> Number \<and> (\<forall>x \<in> set (col_cells c). conv x \<noteq> Raises)
     \<and> 2 \<le> length (filter (\<lambda>x. \<exists>s. conv x = Parsed s) (col_cells c))
     \<and> length (col_cells c) \<le> 2 * length (filter (\<lambda>x. \<exists>s. conv x = Parsed s) (col_cells c))"
    by (auto simp: classify_column_cases dt_threshold_iff to_datetime_def parsed_count [symmetric]
        split: if_splits)
  finally show ?thesis .
qed

text \<open>At the boundary: four rows, two of which parse.\<close>

theorem detect_datetime_iff_witness:
  "distinct (columns [(''when'', \<lparr>col_dtype = Object, col_cells = [Stamp 0, Stamp 86400000000000, NA, Str ''n/a'']\<rparr>)])
   \<and> (''when'', \<lparr>col_dtype = Object, col_cells = [Stamp 0, Stamp 86400000000000, NA, Str ''n/a'']\<rparr>) \<in> set [(''when'', \<lparr>col_dtype = Object, col_cells = [Stamp 0, Stamp 86400000000000, NA, Str ''n/a'']\<rparr>)]
   \<and> ''when'' \<in> set (fst (snd (snd (detect_column_types stamp_parser [(''when'', \<lparr>col_dtype = Object, col_cells = [Stamp 0, Stamp 86400000000000, NA, Str ''n/a'']\<rparr>)]))))"
  using detect_datetime_iff [of "[(''when'', \<lparr>col_dtype = Object, col_cells = [Stamp 0, Stamp 86400000000000, NA, Str ''n/a'']\<rparr>)]" "''when''" "\<lparr>col_dtype = Object, col_cells = [Stamp 0, Stamp 86400000000000, NA, Str ''n/a'']\<rparr>" stamp_parser]
  by (simp add: columns_def stamp_parser_def)

lemma length_normalize_column: "length (col_cells (normalize_column conv c)) = length (col_cells c)"
  by (auto simp: normalize_column_def classify_column_def stamp_column_def length_to_datetime
      split: option.splits if_splits)

lemma nrows_map_normalize:
  "nrows (map (\<lambda>(n, c). (n, normalize_column conv c)) t) = nrows t"
  by (cases t) (auto simp: nrows_def length_normalize_column)

lemma dtype_normalize_datetime:
  "classify_column conv c = DatetimeCol \<Longrightarrow> col_dtype (normalize_column conv c) = Datetime"
  by (simp add: normalize_column_def stamp_column_def)

text \<open>C28: on a well-formed frame the classifier returns a well-formed
  frame with the same rows, in which every column it lists as datetime has
  dtype \<open>datetime64\<close>: the normalized table agrees with the classification.\<close>

theorem detect_column_types_typed:
  assumes "wf_table t" "detect_column_types conv t = (num, cat, dts, t')"
  shows "wf_table t' \<and> nrows t' = nrows t
    \<and> (\<forall>n \<in> set dts. \<exists>c. map_of t' n = Some c \<and> col_dtype c = Datetime)"
proof -
  have d: "distinct (columns t)" using assms(1) by (simp add: wf_table_def)
  have spec: "(num, cat, dts, t') = classify_spec conv t"
    using detect_column_types_spec [OF d] assms(2) by simp
  then have t': "t' = map (\<lambda>(n, c). (n, normalize_column conv c)) t"
    and dts: "dts = names_of_class conv DatetimeCol t"
    by (simp_all add: classify_spec_def)
  have rows: "nrows t' = nrows t" by (simp add: t' nrows_map_normalize)
  have cols: "wf_column c' \<and> length (col_cells c') = nrows t'" if mem: "(n, c') \<in> set t'" for n c'
  proof -
    obtain c where c: "(n, c) \<in> set t" "c' = normalize_column conv c" using mem unfolding t' by force
    have "wf_column c \<and> length (col_cells c) = nrows t" using assms(1) c(1) by (auto simp: wf_table_def)
    then show ?thesis using wf_normalize_column [of c conv] c(2) rows by simp
  qed
  have "distinct (columns t')" using d by (simp add: t')
  then have wf: "wf_table t'"
    using cols by (auto simp: wf_table_def)
  have "\<exists>c. map_of t' n = Some c \<and> col_dtype c = Datetime" if n: "n \<in> set dts" for n
  proof -
    obtain c where c: "(n, c) \<in> set t" "classify_column conv c = DatetimeCol"
      using n by (auto simp: dts names_of_class_def)
    have "map_of t n = Some c" using d c(1) by (simp add: columns_def)
    then have "map_of t' n = Some (normalize_column conv c)"
      by (simp add: t' map_of_map case_prod_beta)
    then show ?thesis using dtype_normalize_datetime [OF c(2)] by blast
  qed
  then show ?thesis using wf rows by blast
qed

theorem detect_column_types_typed_witness:
  "wf_table
     [(''sales'', \<lparr>col_dtype = Number, col_cells = [Num 10, Num 20, NA]\<rparr>),
      (''day'', \<lparr>col_dtype = Object, col_cells = [Stamp 0, Stamp 86400000000000, NA]\<rparr>),
      (''region'', \<lparr>col_dtype = Object, col_cells = [Str ''north'', Str ''south'', Str ''north'']\<rparr>)]
   \<and> map_of
     [(''sales'', \<lparr>col_dtype = Number, col_cells = [Num 10, Num 20, NA]\<rparr>),
      (''day'', \<lparr>col_dtype = Datetime, col_cells = [Stamp 0, Stamp 86400000000000, NA]\<rparr>),
      (''region'', \<lparr>col_dtype = Object, col_cells = [Str ''north'', Str ''south'', Str ''north'']\<rparr>)] ''day''
     = Some \<lparr>col_dtype = Datetime, col_cells = [Stamp 0, Stamp 86400000000000, NA]\<rparr>"
proof -
  have w: "wf_table
     [(''sales'', \<lparr>col_dtype = Number, col_cells = [Num 10, Num 20, NA]\<rparr>),
      (''day'', \<lparr>col_dtype = Object, col_cells = [Stamp 0, Stamp 86400000000000, NA]\<rparr>),
      (''region'', \<lparr>col_dtype = Object, col_cells = [Str ''north'', Str ''south'', Str ''north'']\<rparr>)]"
    by (simp add: wf_table_def wf_column_def columns_def nrows_def)
  show ?thesis
    using detect_column_types_typed [OF w detect_column_types_example] w by simp
qed

end
