(* ===== verification/Stats.thy ===== *)
theory Stats
  imports Prelude
begin

text \<open>
  The numeric library calls the backend relies on, as reals: pandas'
  \<open>Series.mean/median/min/max\<close> on a non-empty series with the missing values
  dropped (\<open>src/backend/insights.py\<close>, line 18), and scikit-learn's
  \<open>LinearRegression().fit(X, y)\<close> with a single feature (\<open>insights.py\<close>
  lines 31--34, \<open>forecasting.py\<close> lines 50--57).  The fit is stated on the
  rows \<open>(x, y)\<close> the code builds \<open>X\<close> and \<open>y\<close> from.  Its closed form is the
  one scikit-learn computes (centre both columns, least squares on the
  centred data); where all \<open>x\<close> are equal the minimum-norm solution gives
  slope 0.  The abstract specification of the fit is \<open>sse\<close>, the sum of
  squared residuals: the closed form minimises it.
\<close>

section \<open>Summary statistics\<close>

definition mean :: "real list \<Rightarrow> real" where
  "mean xs = sum_list xs / real (length xs)"

text \<open>Median: middle element of the sorted values, or the mean of the two middle ones.\<close>

definition median :: "real list \<Rightarrow> real" where
  "median xs =
     (let s = sort xs; n = length s
      in if odd n then s ! (n div 2) else (s ! (n div 2 - 1) + s ! (n div 2)) / 2)"

fun series_min :: "real list \<Rightarrow> real" where
  "series_min [x] = x"
| "series_min (x # y # ys) = min x (series_min (y # ys))"

fun series_max :: "real list \<Rightarrow> real" where
  "series_max [x] = x"
| "series_max (x # y # ys) = max x (series_max (y # ys))"

section \<open>Least squares with one feature\<close>

definition mean_x :: "(real \<times> real) list \<Rightarrow> real" where
  "mean_x ps = mean (map fst ps)"

definition mean_y :: "(real \<times> real) list \<Rightarrow> real" where
  "mean_y ps = mean (map snd ps)"

definition sxx :: "(real \<times> real) list \<Rightarrow> real" where
  "sxx ps = (\<Sum>p\<leftarrow>ps. (fst p - mean_x ps)\<^sup>2)"

definition sxy :: "(real \<times> real) list \<Rightarrow> real" where
  "sxy ps = (\<Sum>p\<leftarrow>ps. (fst p - mean_x ps) * (snd p - mean_y ps))"

text \<open>\<open>lr.coef_[0]\<close>.\<close>

definition lr_slope :: "(real \<times> real) list \<Rightarrow> real" where
  "lr_slope ps = (if sxx ps = 0 then 0 else sxy ps / sxx ps)"

text \<open>\<open>lr.intercept_\<close>.\<close>

definition lr_intercept :: "(real \<times> real) list \<Rightarrow> real" where
  "lr_intercept ps = mean_y ps - lr_slope ps * mean_x ps"

text \<open>\<open>model.predict([[x]])\<close>.\<close>

definition lr_predict :: "(real \<times> real) list \<Rightarrow> real \<Rightarrow> real" where
  "lr_predict ps x = lr_intercept ps + lr_slope ps * x"

text \<open>The specification: the sum of squared residuals of the line \<open>a + b x\<close>.\<close>

definition sse :: "(real \<times> real) list \<Rightarrow> real \<Rightarrow> real \<Rightarrow> real" where
  "sse ps a b = (\<Sum>p\<leftarrow>ps. (snd p - (a + b * fst p))\<^sup>2)"

section \<open>Lemmas on the summary statistics\<close>

lemma series_min_le: "x \<in> set xs \<Longrightarrow> series_min xs \<le> x"
  by (induction xs rule: series_min.induct) auto

lemma series_max_ge: "x \<in> set xs \<Longrightarrow> x \<le> series_max xs"
  by (induction xs rule: series_max.induct) auto

lemma series_min_in: "xs \<noteq> [] \<Longrightarrow> series_min xs \<in> set xs"
  by (induction xs rule: series_min.induct) (auto simp: min_def)

lemma series_max_in: "xs \<noteq> [] \<Longrightarrow> series_max xs \<in> set xs"
  by (induction xs rule: series_max.induct) (auto simp: max_def)

lemma sum_list_bounds:
  "(\<And>x. x \<in> set xs \<Longrightarrow> lo \<le> x \<and> x \<le> hi) \<Longrightarrow>
   real (length xs) * lo \<le> sum_list xs \<and> sum_list xs \<le> real (length xs) * hi"
proof (induction xs)
  case Nil
  then show ?case by simp
next
  case (Cons a xs)
  have a: "lo \<le> a" "a \<le> hi"
    using Cons.prems by auto
  have "real (length xs) * lo \<le> sum_list xs \<and> sum_list xs \<le> real (length xs) * hi"
    using Cons.IH Cons.prems by auto
  with a show ?case
    by (simp add: algebra_simps)
qed

lemma median_mem_bounds:
  assumes "xs \<noteq> []"
  shows "series_min xs \<le> median xs \<and> median xs \<le> series_max xs"
proof -
  let ?s = "sort xs" let ?n = "length ?s"
  have n: "0 < ?n" using assms by simp
  have mem: "?s ! i \<in> set xs" if "i < ?n" for i
    using that nth_mem [of i ?s] by simp
  have lo: "series_min xs \<le> ?s ! i" and hi: "?s ! i \<le> series_max xs" if "i < ?n" for i
    using mem [OF that] series_min_le series_max_ge by blast+
  have i1: "?n div 2 < ?n" using n by simp
  have i2: "?n div 2 - 1 < ?n" using n div_le_dividend [of ?n 2] by linarith
  show ?thesis
    using lo [OF i1] hi [OF i1] lo [OF i2] hi [OF i2]
    by (auto simp: median_def Let_def)
qed

section \<open>Lemmas on the least-squares fit\<close>

lemma sum_dev_zero: "(\<Sum>p\<leftarrow>ps. f p - mean (map f ps)) = 0"
  by (cases "ps = []") (simp_all add: stats_simps mean_def sum_list_map_diff)

lemma sxx_nonneg: "0 \<le> sxx ps"
  unfolding sxx_def by (rule sum_list_nonneg_map) simp

lemma sxx_zero_const:
  assumes "sxx ps = 0" "p \<in> set ps"
  shows "fst p = mean_x ps"
proof -
  have "\<forall>x \<in> set (map (\<lambda>p. (fst p - mean_x ps)\<^sup>2) ps). x = 0"
    using assms(1) by (subst sum_list_nonneg_eq_0_iff [symmetric]) (auto simp: sxx_def)
  with assms(2) show ?thesis by auto
qed

lemma sxy_zero_if_sxx_zero: "sxx ps = 0 \<Longrightarrow> sxy ps = 0"
proof -
  assume z: "sxx ps = 0"
  have "(\<Sum>p\<leftarrow>ps. (fst p - mean_x ps) * (snd p - mean_y ps)) = (\<Sum>p\<leftarrow>ps. 0)"
    by (rule arg_cong [where f = sum_list], rule map_cong) (simp_all add: sxx_zero_const [OF z])
  then show ?thesis by (simp add: sxy_def)
qed

lemma slope_sxx: "lr_slope ps * sxx ps = sxy ps"
  by (simp add: lr_slope_def sxy_zero_if_sxx_zero)

text \<open>The residual of a row against the fitted line.\<close>

lemma residual_centered:
  "snd p - (lr_intercept ps + lr_slope ps * fst p)
     = (snd p - mean_y ps) - lr_slope ps * (fst p - mean_x ps)"
  by (simp add: lr_intercept_def algebra_simps)

lemma normal_eq_1: "(\<Sum>p\<leftarrow>ps. snd p - (lr_intercept ps + lr_slope ps * fst p)) = 0"
proof -
  have "(\<Sum>p\<leftarrow>ps. snd p - (lr_intercept ps + lr_slope ps * fst p))
      = (\<Sum>p\<leftarrow>ps. snd p - mean_y ps) - lr_slope ps * (\<Sum>p\<leftarrow>ps. fst p - mean_x ps)"
    by (simp only: residual_centered sum_list_map_diff sum_list_map_cmult)
  then show ?thesis
    using sum_dev_zero [of snd ps] sum_dev_zero [of fst ps]
    by (simp add: mean_x_def mean_y_def)
qed

lemma normal_eq_2: "(\<Sum>p\<leftarrow>ps. fst p * (snd p - (lr_intercept ps + lr_slope ps * fst p))) = 0"
proof -
  let ?r = "\<lambda>p. snd p - (lr_intercept ps + lr_slope ps * fst p)"
  let ?A = "\<lambda>p. (fst p - mean_x ps) * (snd p - mean_y ps)"
  let ?B = "\<lambda>p. (fst p - mean_x ps)\<^sup>2"
  have eq: "(\<lambda>p. fst p * ?r p) = (\<lambda>p. (?A p - lr_slope ps * ?B p) + mean_x ps * ?r p)"
    by (rule ext) (simp add: lr_intercept_def power2_eq_square algebra_simps)
  have "(\<Sum>p\<leftarrow>ps. fst p * ?r p) = (\<Sum>p\<leftarrow>ps. (?A p - lr_slope ps * ?B p) + mean_x ps * ?r p)"
    by (simp only: eq)
  also have "\<dots> = (\<Sum>p\<leftarrow>ps. ?A p) - lr_slope ps * (\<Sum>p\<leftarrow>ps. ?B p) + mean_x ps * (\<Sum>p\<leftarrow>ps. ?r p)"
    by (simp only: sum_list_map_add sum_list_map_diff sum_list_map_cmult)
  also have "\<dots> = sxy ps - lr_slope ps * sxx ps"
    by (simp add: normal_eq_1 sxy_def sxx_def)
  also have "\<dots> = 0"
    by (simp add: slope_sxx)
  finally show ?thesis .
qed

lemma sse_decompose:
  "sse ps a b = sse ps (lr_intercept ps) (lr_slope ps)
     + (\<Sum>p\<leftarrow>ps. ((lr_intercept ps - a) + (lr_slope ps - b) * fst p)\<^sup>2)"
proof -
  let ?r = "\<lambda>p. snd p - (lr_intercept ps + lr_slope ps * fst p)"
  let ?d = "\<lambda>p. (lr_intercept ps - a) + (lr_slope ps - b) * fst p"
  have eq: "(\<lambda>p. (snd p - (a + b * fst p))\<^sup>2)
      = (\<lambda>p. ((?r p)\<^sup>2 + (?d p)\<^sup>2) + (2 * (lr_intercept ps - a) * ?r p
             + 2 * (lr_slope ps - b) * (fst p * ?r p)))"
    by (rule ext) (simp add: power2_eq_square algebra_simps)
  have "sse ps a b = (\<Sum>p\<leftarrow>ps. ((?r p)\<^sup>2 + (?d p)\<^sup>2) + (2 * (lr_intercept ps - a) * ?r p
             + 2 * (lr_slope ps - b) * (fst p * ?r p)))"
    by (simp only: sse_def eq)
  also have "\<dots> = (\<Sum>p\<leftarrow>ps. (?r p)\<^sup>2) + (\<Sum>p\<leftarrow>ps. (?d p)\<^sup>2)
      + (2 * (lr_intercept ps - a) * (\<Sum>p\<leftarrow>ps. ?r p)
         + 2 * (lr_slope ps - b) * (\<Sum>p\<leftarrow>ps. fst p * ?r p))"
    by (simp only: sum_list_map_add sum_list_map_cmult)
  also have "\<dots> = sse ps (lr_intercept ps) (lr_slope ps) + (\<Sum>p\<leftarrow>ps. (?d p)\<^sup>2)"
    by (simp add: normal_eq_1 normal_eq_2 sse_def)
  finally show ?thesis .
qed

lemma lr_fit_optimal: "sse ps (lr_intercept ps) (lr_slope ps) \<le> sse ps a b"
  using sse_decompose [of ps a b] sum_list_nonneg_map [of ps "\<lambda>p. ((lr_intercept ps - a) + (lr_slope ps - b) * fst p)\<^sup>2"]
  by simp

lemma mean_map_affine:
  "ps \<noteq> [] \<Longrightarrow> mean (map (\<lambda>p. a + b * f p) ps) = a + b * mean (map f ps)"
  by (simp add: mean_def sum_list_map_add sum_list_map_const sum_list_map_cmult field_simps)

lemma lr_fit_exact:
  assumes "\<forall>p \<in> set ps. snd p = a + b * fst p" "sxx ps \<noteq> 0"
  shows "lr_slope ps = b \<and> lr_intercept ps = a"
proof -
  have ne: "ps \<noteq> []" using assms(2) by (auto simp: sxx_def)
  have my: "mean_y ps = a + b * mean_x ps"
  proof -
    have "map snd ps = map (\<lambda>p. a + b * fst p) ps"
      using assms(1) by simp
    then have "mean_y ps = mean (map (\<lambda>p. a + b * fst p) ps)"
      by (simp only: mean_y_def)
    then show ?thesis
      using mean_map_affine [OF ne, of a b fst] by (simp only: mean_x_def)
  qed
  have "sxy ps = (\<Sum>p\<leftarrow>ps. b * (fst p - mean_x ps)\<^sup>2)"
    unfolding sxy_def
    by (rule arg_cong [where f = sum_list], rule map_cong)
      (simp_all add: assms(1) my power2_eq_square algebra_simps)
  then have "sxy ps = b * sxx ps"
    by (simp add: sum_list_map_cmult sxx_def)
  with assms(2) have "lr_slope ps = b"
    by (simp add: lr_slope_def)
  with my show ?thesis
    by (simp add: lr_intercept_def)
qed

lemma lr_slope_mset: "mset ps = mset qs \<Longrightarrow> lr_slope ps = lr_slope qs"
proof -
  assume m: "mset ps = mset qs"
  have len: "length ps = length qs"
    using m by (metis size_mset)
  have mx: "mean_x ps = mean_x qs" and my: "mean_y ps = mean_y qs"
    using m len by (simp_all add: mean_x_def mean_y_def mean_def sum_list_map_mset [OF m])
  have "sxx ps = sxx qs" "sxy ps = sxy qs"
    by (simp_all add: sxx_def sxy_def mx my sum_list_map_mset [OF m])
  then show ?thesis
    by (simp add: lr_slope_def)
qed

lemma sgn_lr_slope: "sgn (lr_slope ps) = sgn (sxy ps)"
proof (cases "sxx ps = 0")
  case True
  then show ?thesis by (simp add: lr_slope_def sxy_zero_if_sxx_zero)
next
  case False
  then have "0 < sxx ps" using sxx_nonneg [of ps] by simp
  then show ?thesis by (simp add: lr_slope_def sgn_divide)
qed

lemma mean_bounds:
  assumes "xs \<noteq> []"
  shows "series_min xs \<le> mean xs \<and> mean xs \<le> series_max xs"
proof -
  have n: "0 < real (length xs)" using assms by simp
  have "real (length xs) * series_min xs \<le> sum_list xs \<and> sum_list xs \<le> real (length xs) * series_max xs"
    by (rule sum_list_bounds) (simp add: series_min_le series_max_ge)
  with n show ?thesis
    by (simp add: mean_def field_simps)
qed

end
