(* ===== verification/Insights.thy ===== *)
theory Insights
  imports Classifier Stats
begin

text \<open>
  The rule-based insight generator, \<open>generate_rule_based_insights\<close> in
  \<open>src/backend/insights.py\<close> (lines 6--41).  An insight is kept as the
  structured value the f-string is built from: the float formatting
  (\<open>:.2f\<close>) and the Markdown decoration are presentation and are not part of
  the model.  \<open>df[col]\<close> on a missing name raises \<open>KeyError\<close>, an error
  value of the model.  Ties in \<open>value_counts\<close> are broken by first
  appearance, the order pandas' stable counting produces.
\<close>

datatype direction = Upward | Downward | NoTrend

datatype insight =
    NumericSummary string real real real real
  | TopValues string "(cell \<times> nat) list"
  | TrendNote string string direction

section \<open>Numeric summaries (lines 13--18)\<close>

text \<open>\<open>df[col].dropna()\<close> of a numeric column.\<close>

definition numeric_values :: "cell list \<Rightarrow> real list" where
  "numeric_values cs = concat (map (\<lambda>x. case x of Num r \<Rightarrow> [r] | _ \<Rightarrow> []) cs)"

definition numeric_summary :: "string \<Rightarrow> column \<Rightarrow> insight option" where
  "numeric_summary col c =
     (let s = numeric_values (col_cells c)
      in if s = [] then None
         else Some (NumericSummary col (mean s) (median s) (series_min s) (series_max s)))"

fun numeric_insights :: "table \<Rightarrow> string list \<Rightarrow> py_error + insight list" where
  "numeric_insights df [] = Inr []"
| "numeric_insights df (col # cols) =
     (case df_get df col of
        None \<Rightarrow> Inl (KeyError col)
      | Some c \<Rightarrow>
          (case numeric_insights df cols of
             Inl e \<Rightarrow> Inl e
           | Inr rest \<Rightarrow> Inr (case numeric_summary col c of None \<Rightarrow> rest | Some i \<Rightarrow> i # rest)))"

section \<open>Top categories (lines 19--23)\<close>

text \<open>\<open>Series.value_counts()\<close>: the non-missing distinct values with their
  counts, most frequent first, ties in order of first appearance.\<close>

definition value_counts :: "cell list \<Rightarrow> (cell \<times> nat) list" where
  "value_counts cs =
     sort_key (\<lambda>p. - int (snd p)) (map (\<lambda>v. (v, count_list cs v)) (remdups (filter notna cs)))"

text \<open>\<open>.nlargest(3)\<close> of the counts, which are already sorted.\<close>

definition top_values :: "cell list \<Rightarrow> (cell \<times> nat) list" where
  "top_values cs = take 3 (value_counts cs)"

fun categorical_insights :: "table \<Rightarrow> string list \<Rightarrow> py_error + insight list" where
  "categorical_insights df [] = Inr []"
| "categorical_insights df (col # cols) =
     (case df_get df col of
        None \<Rightarrow> Inl (KeyError col)
      | Some c \<Rightarrow>
          (case categorical_insights df cols of
             Inl e \<Rightarrow> Inl e
           | Inr rest \<Rightarrow> Inr (TopValues col (top_values (col_cells c)) # rest)))"

section \<open>Trend (lines 24--40)\<close>

text \<open>\<open>df.dropna(subset=[date_col, num_col])\<close> on a datetime and a numeric
  column: the rows where both cells are present.\<close>

definition paired_rows :: "cell list \<Rightarrow> cell list \<Rightarrow> (timestamp \<times> real) list" where
  "paired_rows ds vs =
     concat (map (\<lambda>(d, v). case (d, v) of (Stamp t, Num r) \<Rightarrow> [(t, r)] | _ \<Rightarrow> []) (zip ds vs))"

text \<open>\<open>X = series[date_col].astype("int64") // 10**9\<close>: seconds, floor division.\<close>

definition trend_points :: "(timestamp \<times> real) list \<Rightarrow> (real \<times> real) list" where
  "trend_points rows = map (\<lambda>(t, r). (real_of_int (t div second_ns), r)) rows"

definition slope_direction :: "real \<Rightarrow> direction" where
  "slope_direction s = (if s > 0 then Upward else if s < 0 then Downward else NoTrend)"

definition trend_insight ::
  "table \<Rightarrow> string list \<Rightarrow> string list \<Rightarrow> py_error + insight option" where
  "trend_insight df numeric dts =
     (if dts = [] \<or> numeric = [] then Inr None
      else (let date_col = hd dts; num_col = hd numeric in
        case (df_get df date_col, df_get df num_col) of
          (None, _) \<Rightarrow> Inl (KeyError date_col)
        | (_, None) \<Rightarrow> Inl (KeyError num_col)
        | (Some dc, Some nc) \<Rightarrow>
            (let series = sort_key fst (paired_rows (col_cells dc) (col_cells nc)) in
             if length series \<ge> 3
             then Inr (Some (TrendNote num_col date_col
                       (slope_direction (lr_slope (trend_points series)))))
             else Inr None)))"

section \<open>The whole generator\<close>

definition generate_rule_based_insights ::
  "table \<Rightarrow> string list \<Rightarrow> string list \<Rightarrow> string list \<Rightarrow> int \<Rightarrow> py_error + insight list" where
  "generate_rule_based_insights df numeric cat dts max_items =
     (if df_empty df then Inr []
      else (case numeric_insights df (py_take max_items numeric) of
              Inl e \<Rightarrow> Inl e
            | Inr ns \<Rightarrow>
                (case categorical_insights df (py_take max_items cat) of
                   Inl e \<Rightarrow> Inl e
                 | Inr cs \<Rightarrow>
                     (case trend_insight df numeric dts of
                        Inl e \<Rightarrow> Inl e
                      | Inr tr \<Rightarrow> Inr (ns @ cs @ (case tr of None \<Rightarrow> [] | Some i \<Rightarrow> [i]))))))"

text \<open>Counting the insights of each section.\<close>

fun is_numeric_summary :: "insight \<Rightarrow> bool" where
  "is_numeric_summary (NumericSummary _ _ _ _ _) = True"
| "is_numeric_summary _ = False"

fun is_top_values :: "insight \<Rightarrow> bool" where
  "is_top_values (TopValues _ _) = True"
| "is_top_values _ = False"

fun is_trend :: "insight \<Rightarrow> bool" where
  "is_trend (TrendNote _ _ _) = True"
| "is_trend _ = False"

section \<open>Lemmas on the sections\<close>

lemma numeric_insights_Inr:
  "numeric_insights df cols = Inr ns \<Longrightarrow>
   length ns \<le> length cols \<and> (\<forall>i \<in> set ns. is_numeric_summary i)"
proof (induction cols arbitrary: ns)
  case Nil
  then show ?case by simp
next
  case (Cons col cols)
  then show ?case
    by (auto simp: numeric_summary_def Let_def split: option.splits sum.splits if_splits)
qed

lemma categorical_insights_Inr:
  "categorical_insights df cols = Inr cs \<Longrightarrow>
   length cs = length cols \<and> (\<forall>i \<in> set cs. is_top_values i)"
proof (induction cols arbitrary: cs)
  case Nil
  then show ?case by simp
next
  case (Cons col cols)
  then show ?case
    by (auto split: option.splits sum.splits)
qed

lemma trend_insight_Some:
  "trend_insight df numeric dts = Inr (Some i) \<Longrightarrow> is_trend i"
  by (auto simp: trend_insight_def Let_def split: if_splits option.splits prod.splits)

lemma generate_Inr_cases:
  assumes "generate_rule_based_insights df numeric cat dts k = Inr ins" "\<not> df_empty df"
  obtains ns cs tr where
    "numeric_insights df (py_take k numeric) = Inr ns"
    "categorical_insights df (py_take k cat) = Inr cs"
    "trend_insight df numeric dts = Inr tr"
    "ins = ns @ cs @ (case tr of None \<Rightarrow> [] | Some i \<Rightarrow> [i])"
  using assms by (auto simp: generate_rule_based_insights_def split: sum.splits)

lemma filter_section_lengths:
  assumes "\<forall>i \<in> set ns. is_numeric_summary i" "\<forall>i \<in> set cs. is_top_values i"
    "\<forall>i \<in> set ts. is_trend i"
  shows "filter is_numeric_summary (ns @ cs @ ts) = ns"
    and "filter is_top_values (ns @ cs @ ts) = cs"
    and "filter is_trend (ns @ cs @ ts) = ts"
proof -
  have a: "is_numeric_summary i \<Longrightarrow> \<not> is_top_values i \<and> \<not> is_trend i" for i
    by (cases i) auto
  have b: "is_top_values i \<Longrightarrow> \<not> is_numeric_summary i \<and> \<not> is_trend i" for i
    by (cases i) auto
  have c: "is_trend i \<Longrightarrow> \<not> is_numeric_summary i \<and> \<not> is_top_values i" for i
    by (cases i) auto
  show "filter is_numeric_summary (ns @ cs @ ts) = ns"
    using assms b c by (simp add: filter_id_conv)
  show "filter is_top_values (ns @ cs @ ts) = cs"
    using assms a c by (simp add: filter_id_conv)
  show "filter is_trend (ns @ cs @ ts) = ts"
    using assms a b by (simp add: filter_id_conv)
qed

section \<open>Lemmas on value counts\<close>

lemma value_counts_sorted: "sorted (map (\<lambda>p. - int (snd p)) (value_counts cs))"
  by (simp add: value_counts_def)

lemma value_counts_member:
  "(v, n) \<in> set (value_counts cs) \<longleftrightarrow> v \<noteq> NA \<and> v \<in> set cs \<and> n = count_list cs v"
  by (auto simp: value_counts_def notna_def)

lemma value_counts_distinct: "distinct (map fst (value_counts cs))"
proof -
  have "distinct (map fst (map (\<lambda>v. (v, count_list cs v)) (remdups (filter notna cs))))"
    by (simp add: comp_def)
  then have "distinct (map (\<lambda>v. (v, count_list cs v)) (remdups (filter notna cs)))
      \<and> inj_on fst (set (map (\<lambda>v. (v, count_list cs v)) (remdups (filter notna cs))))"
    by (simp only: distinct_map)
  then show ?thesis
    by (simp add: value_counts_def distinct_map)
qed

lemma numeric_insights_mem:
  "numeric_insights df cols = Inr ns \<Longrightarrow> i \<in> set ns \<Longrightarrow>
   \<exists>col c. df_get df col = Some c \<and> numeric_summary col c = Some i"
proof (induction cols arbitrary: ns)
  case Nil
  then show ?case by simp
next
  case (Cons col cols)
  then show ?case
    by (fastforce split: option.splits sum.splits)
qed

lemma numeric_summary_bounds:
  assumes "numeric_summary col c = Some (NumericSummary n mn md lo hi)"
  shows "lo \<le> md \<and> md \<le> hi \<and> lo \<le> mn \<and> mn \<le> hi
    \<and> lo \<in> set (numeric_values (col_cells c)) \<and> hi \<in> set (numeric_values (col_cells c))
    \<and> (\<forall>x \<in> set (numeric_values (col_cells c)). lo \<le> x \<and> x \<le> hi)"
proof -
  let ?s = "numeric_values (col_cells c)"
  have ne: "?s \<noteq> []" and eq: "mn = mean ?s" "md = median ?s" "lo = series_min ?s" "hi = series_max ?s"
    using assms by (auto simp: numeric_summary_def Let_def split: if_splits)
  show ?thesis
    using median_mem_bounds [OF ne] mean_bounds [OF ne] series_min_in [OF ne] series_max_in [OF ne]
      series_min_le [of _ ?s] series_max_ge [of _ ?s] eq
    by auto
qed

lemma top_values_counts_ge:
  assumes "v \<in> set cs" "v \<noteq> NA" "v \<notin> fst ` set (top_values cs)" "(w, n) \<in> set (top_values cs)"
  shows "count_list cs v \<le> n"
proof -
  let ?f = "\<lambda>p. - int (snd p)"
  have "(v, count_list cs v) \<in> set (value_counts cs)"
    using assms(1,2) by (simp add: value_counts_member)
  with assms(3) have rest: "(v, count_list cs v) \<in> set (drop 3 (value_counts cs))"
    by (metis append_take_drop_id image_eqI fst_conv Un_iff set_append top_values_def)
  have "sorted (map ?f (take 3 (value_counts cs)) @ map ?f (drop 3 (value_counts cs)))"
    using value_counts_sorted [of cs] by (metis append_take_drop_id map_append)
  then have H: "\<forall>x \<in> set (take 3 (value_counts cs)). \<forall>y \<in> set (drop 3 (value_counts cs)). ?f x \<le> ?f y"
    by (simp only: sorted_append set_map ball_simps) blast
  show ?thesis
    using H rest assms(4) unfolding top_values_def by force
qed

text \<open>C4: the insight generator never emits more than \<open>max_items\<close> numeric
  summaries, more than \<open>max_items\<close> top-value lists, or more than one trend
  statement, whatever the number of columns (for \<open>max_items \<ge> 0\<close>).\<close>

theorem generate_insights_caps:
  assumes "generate_rule_based_insights df numeric cat dts k = Inr ins" "0 \<le> k"
  shows "length (filter is_numeric_summary ins) \<le> nat k
     \<and> length (filter is_top_values ins) \<le> nat k \<and> length (filter is_trend ins) \<le> 1"
proof (cases "df_empty df")
  case True
  with assms show ?thesis by (simp add: generate_rule_based_insights_def)
next
  case False
  obtain ns cs tr where ns: "numeric_insights df (py_take k numeric) = Inr ns"
    and cs: "categorical_insights df (py_take k cat) = Inr cs"
    and tr: "trend_insight df numeric dts = Inr tr"
    and ins: "ins = ns @ cs @ (case tr of None \<Rightarrow> [] | Some i \<Rightarrow> [i])"
    using generate_Inr_cases [OF assms(1) False] by blast
  have n: "length ns \<le> nat k" "\<forall>i \<in> set ns. is_numeric_summary i"
    using numeric_insights_Inr [OF ns] assms(2) by auto
  have c: "length cs \<le> nat k" "\<forall>i \<in> set cs. is_top_values i"
    using categorical_insights_Inr [OF cs] assms(2) by auto
  have t: "\<forall>i \<in> set (case tr of None \<Rightarrow> [] | Some i \<Rightarrow> [i]). is_trend i"
    "length (case tr of None \<Rightarrow> [] | Some i \<Rightarrow> [i]) \<le> 1"
    using trend_insight_Some tr by (auto split: option.splits)
  show ?thesis
    using filter_section_lengths [OF n(2) c(2) t(1)] n(1) c(1) t(2) ins by simp
qed

lemma generate_insights_example:
  "generate_rule_based_insights
     [(''x'', \<lparr>col_dtype = Number, col_cells = [Num 1, NA, Num 3]\<rparr>),
      (''g'', \<lparr>col_dtype = Object, col_cells = [Str ''a'', Str ''b'', Str ''a'']\<rparr>)]
     [''x''] [''g''] [] 4 = Inr [NumericSummary ''x'' 2 2 1 3, TopValues ''g'' [(Str ''a'', 2), (Str ''b'', 1)]]"
  by (simp add: generate_rule_based_insights_def df_empty_def nrows_def df_get_def columns_def
      numeric_summary_def numeric_values_def mean_def median_def top_values_def value_counts_def
      notna_def trend_insight_def)

theorem generate_insights_caps_witness:
  "generate_rule_based_insights
     [(''x'', \<lparr>col_dtype = Number, col_cells = [Num 1, NA, Num 3]\<rparr>),
      (''g'', \<lparr>col_dtype = Object, col_cells = [Str ''a'', Str ''b'', Str ''a'']\<rparr>)]
     [''x''] [''g''] [] 4 = Inr [NumericSummary ''x'' 2 2 1 3, TopValues ''g'' [(Str ''a'', 2), (Str ''b'', 1)]]
   \<and> (0::int) \<le> 4
   \<and> length (filter is_numeric_summary [NumericSummary ''x'' 2 2 1 3, TopValues ''g'' [(Str ''a'', 2), (Str ''b'', 1)]]) \<le> nat 4"
  using generate_insights_example generate_insights_caps [OF generate_insights_example] by simp

text \<open>C5: the top-values list of a categorical column holds at most three
  distinct non-missing values with their exact counts, most frequent first,
  and no value left out occurs more often than a value listed.\<close>

theorem top_values_correct:
  "length (top_values cs) \<le> 3
   \<and> distinct (map fst (top_values cs))
   \<and> sorted_wrt (\<ge>) (map snd (top_values cs))
   \<and> (\<forall>(v, n) \<in> set (top_values cs). v \<noteq> NA \<and> v \<in> set cs \<and> n = count_list cs v)
   \<and> (\<forall>v \<in> set cs. v \<noteq> NA \<and> v \<notin> fst ` set (top_values cs) \<longrightarrow>
         (\<forall>(w, n) \<in> set (top_values cs). count_list cs v \<le> n))"
proof -
  have d: "distinct (map fst (top_values cs))"
    using value_counts_distinct [of cs] by (simp add: top_values_def take_map [symmetric])
  have "sorted (map (\<lambda>p. - int (snd p)) (top_values cs))"
    using value_counts_sorted [of cs] by (simp add: top_values_def take_map [symmetric])
  then have s: "sorted_wrt (\<ge>) (map snd (top_values cs))"
    by (simp add: sorted_wrt_map)
  have m: "\<forall>(v, n) \<in> set (top_values cs). v \<noteq> NA \<and> v \<in> set cs \<and> n = count_list cs v"
    using value_counts_member [of _ _ cs] by (auto simp: top_values_def dest: in_set_takeD)
  show ?thesis
    using d s m top_values_counts_ge [of _ cs] by (auto simp: top_values_def)
qed

text \<open>The example of the specification: the values \<open>a a b c c c\<close> give
  \<open>c (3); a (2); b (1)\<close>.\<close>

theorem top_values_correct_witness:
  "top_values [Str ''a'', Str ''a'', Str ''b'', Str ''c'', Str ''c'', Str ''c'']
     = [(Str ''c'', 3), (Str ''a'', 2), (Str ''b'', 1)]
   \<and> sorted_wrt (\<ge>) (map snd (top_values [Str ''a'', Str ''a'', Str ''b'', Str ''c'', Str ''c'', Str ''c'']))"
  using top_values_correct [of "[Str ''a'', Str ''a'', Str ''b'', Str ''c'', Str ''c'', Str ''c'']"]
  by (simp add: top_values_def value_counts_def notna_def)

text \<open>C6: every numeric summary the generator emits lies within its column:
  the minimum and maximum are values of the column, and the mean and the median
  lie between them.\<close>

theorem generate_numeric_summary_bounds:
  assumes "generate_rule_based_insights df numeric cat dts k = Inr ins"
    "NumericSummary col mn md lo hi \<in> set ins"
  shows "\<exists>c. df_get df col = Some c
    \<and> lo \<le> md \<and> md \<le> hi \<and> lo \<le> mn \<and> mn \<le> hi
    \<and> lo \<in> set (numeric_values (col_cells c)) \<and> hi \<in> set (numeric_values (col_cells c))
    \<and> (\<forall>x \<in> set (numeric_values (col_cells c)). lo \<le> x \<and> x \<le> hi)"
proof -
  have ne: "\<not> df_empty df"
    using assms by (auto simp: generate_rule_based_insights_def)
  obtain ns cs tr where ns: "numeric_insights df (py_take k numeric) = Inr ns"
    and cs: "categorical_insights df (py_take k cat) = Inr cs"
    and tr: "trend_insight df numeric dts = Inr tr"
    and ins: "ins = ns @ cs @ (case tr of None \<Rightarrow> [] | Some i \<Rightarrow> [i])"
    using generate_Inr_cases [OF assms(1) ne] by blast
  have "NumericSummary col mn md lo hi \<in> set ns"
    using assms(2) ins categorical_insights_Inr [OF cs] trend_insight_Some [of df numeric dts] tr
    by (force split: option.splits)
  then obtain col' c where c: "df_get df col' = Some c"
      "numeric_summary col' c = Some (NumericSummary col mn md lo hi)"
    using numeric_insights_mem [OF ns] by blast
  then have "col' = col"
    by (simp add: numeric_summary_def Let_def split: if_splits)
  with c show ?thesis
    using numeric_summary_bounds [OF c(2)] by blast
qed

theorem generate_numeric_summary_bounds_witness:
  "generate_rule_based_insights
     [(''x'', \<lparr>col_dtype = Number, col_cells = [Num 1, NA, Num 3]\<rparr>),
      (''g'', \<lparr>col_dtype = Object, col_cells = [Str ''a'', Str ''b'', Str ''a'']\<rparr>)]
     [''x''] [''g''] [] 4 = Inr [NumericSummary ''x'' 2 2 1 3, TopValues ''g'' [(Str ''a'', 2), (Str ''b'', 1)]]
   \<and> NumericSummary ''x'' 2 2 1 3 \<in> set [NumericSummary ''x'' 2 2 1 3, TopValues ''g'' [(Str ''a'', 2), (Str ''b'', 1)]]
   \<and> (1::real) \<in> set (numeric_values [Num 1, NA, Num 3])"
  using generate_insights_example
    generate_numeric_summary_bounds [OF generate_insights_example, of "''x''" 2 2 1 3]
  by (simp add: df_get_def columns_def numeric_values_def)

lemma slope_direction_sgn: "slope_direction (sgn s) = slope_direction s"
  by (simp add: slope_direction_def sgn_real_def)

lemma lr_slope_sorted_rows:
  "lr_slope (trend_points (sort_key fst rows)) = lr_slope (trend_points rows)"
  by (rule lr_slope_mset) (simp add: trend_points_def)

text \<open>C7: when the first datetime and the first numeric column exist, a trend
  statement is emitted exactly when at least three rows have both cells
  present; it says upward when the sample covariance of time (in seconds) and
  value over those rows is positive, downward when it is negative, and no
  clear trend when it is zero, in whatever order the rows come.\<close>

theorem trend_insight_direction:
  assumes "dts \<noteq> []" "numeric \<noteq> []"
    "df_get df (hd dts) = Some dc" "df_get df (hd numeric) = Some nc"
  shows "trend_insight df numeric dts =
     (if 3 \<le> length (paired_rows (col_cells dc) (col_cells nc))
      then Inr (Some (TrendNote (hd numeric) (hd dts)
             (let c = sxy (trend_points (paired_rows (col_cells dc) (col_cells nc)))
              in if 0 < c then Upward else if c < 0 then Downward else NoTrend)))
      else Inr None)"
proof -
  let ?c = "sxy (trend_points (paired_rows (col_cells dc) (col_cells nc)))"
  have "trend_insight df numeric dts =
     (if 3 \<le> length (paired_rows (col_cells dc) (col_cells nc))
      then Inr (Some (TrendNote (hd numeric) (hd dts) (slope_direction (sgn ?c))))
      else Inr None)"
    using assms
    by (simp add: trend_insight_def Let_def lr_slope_sorted_rows slope_direction_sgn
        flip: sgn_lr_slope)
  moreover have "slope_direction (sgn ?c) = (if 0 < ?c then Upward else if ?c < 0 then Downward else NoTrend)"
    by (simp add: slope_direction_def sgn_real_def)
  ultimately show ?thesis by (simp add: Let_def)
qed

text \<open>Three paired rows (the third row has no date), values 1, 5, 2 at 0, 1, 2
  seconds: an upward trend.\<close>

theorem trend_insight_direction_witness:
  "trend_insight
     [(''d'', \<lparr>col_dtype = Datetime, col_cells = [Stamp 0, Stamp 1000000000, NA, Stamp 2000000000]\<rparr>),
      (''v'', \<lparr>col_dtype = Number, col_cells = [Num 1, Num 5, Num 7, Num 2]\<rparr>)]
     [''v''] [''d''] = Inr (Some (TrendNote ''v'' ''d'' Upward))"
  using trend_insight_direction [of "[''d'']" "[''v'']"
      "[(''d'', \<lparr>col_dtype = Datetime, col_cells = [Stamp 0, Stamp 1000000000, NA, Stamp 2000000000]\<rparr>),
      (''v'', \<lparr>col_dtype = Number, col_cells = [Num 1, Num 5, Num 7, Num 2]\<rparr>)]"
      "\<lparr>col_dtype = Datetime, col_cells = [Stamp 0, Stamp 1000000000, NA, Stamp 2000000000]\<rparr>"
      "\<lparr>col_dtype = Number, col_cells = [Num 1, Num 5, Num 7, Num 2]\<rparr>"]
  by (simp add: df_get_def columns_def paired_rows_def trend_points_def second_ns_def sxy_def
      mean_x_def mean_y_def mean_def slope_direction_def)

end
