(* ===== verification/Calendar.thy ===== *)
theory Calendar
  imports Prelude
begin

text \<open>
  The calendar behind the pandas calls of \<open>src/backend/forecasting.py\<close>:
  \<open>Series.dt.normalize()\<close> and \<open>.astype("datetime64[D]")\<close> (whole days),
  \<open>DataFrame.resample(freq)\<close> (line 45) and \<open>pd.date_range(start, periods, freq)\<close>
  (line 60) for the frequencies \<open>"D"\<close>, \<open>"W"\<close> (weeks ending on Sunday) and
  \<open>"M"\<close> (month ends), in the proleptic Gregorian calendar.

  Each frequency cuts the days into consecutive periods: a strictly increasing
  \<open>period_start\<close> and the index \<open>period_of d\<close> of the period holding day
  \<open>d\<close>.  Pandas labels a bucket by the last day of its period
  (\<open>bucket_label\<close>): the day itself, the Sunday ending its week, or the last
  day of its month; a timestamp falls in the bucket of its day, whatever its
  time of day.  \<open>date_range\<close> enumerates the labels (the on-offset days).
  Days are counted from 1970-01-01, a Thursday.
\<close>

datatype freq = Daily | Weekly | Monthly

section \<open>Years and months\<close>

definition leap :: "int \<Rightarrow> bool" where
  "leap y \<longleftrightarrow> (4 dvd y \<and> \<not> 100 dvd y) \<or> 400 dvd y"

definition days_in_year :: "int \<Rightarrow> int" where
  "days_in_year y = (if leap y then 366 else 365)"

text \<open>Leap years among the years before \<open>y\<close> (counted from year 1).\<close>

definition leaps_before :: "int \<Rightarrow> int" where
  "leaps_before y = (y - 1) div 4 - (y - 1) div 100 + (y - 1) div 400"

text \<open>The day number of January 1 of year \<open>y\<close>.\<close>

definition jan1 :: "int \<Rightarrow> day" where
  "jan1 y = 365 * (y - 1970) + leaps_before y - leaps_before 1970"

text \<open>Days of the year before month \<open>m\<close> (\<open>m = 0\<close> for January, \<open>m = 12\<close>
  for the end of December).\<close>

definition cum_days :: "bool \<Rightarrow> nat \<Rightarrow> int" where
  "cum_days l m =
     [0, 31, 59, 90, 120, 151, 181, 212, 243, 273, 304, 334, 365] ! m
     + (if l \<and> 2 \<le> m then 1 else 0)"

text \<open>The first day of month \<open>k\<close>, months counted as \<open>12 * year + (month - 1)\<close>.\<close>

definition month_start :: "int \<Rightarrow> day" where
  "month_start k = jan1 (k div 12) + cum_days (leap (k div 12)) (nat (k mod 12))"

text \<open>The year of a day: an estimate from the mean year length, corrected by one.\<close>

definition year_of_day :: "day \<Rightarrow> int" where
  "year_of_day d =
     (let e = 1970 + (400 * d) div 146097
      in if d < jan1 e then e - 1 else if jan1 (e + 1) \<le> d then e + 1 else e)"

text \<open>The month of a day of the year, scanning the month starts.\<close>

function month_search :: "bool \<Rightarrow> int \<Rightarrow> nat \<Rightarrow> nat" where
  "month_search l doy m =
     (if 11 \<le> m then 11 else if doy < cum_days l (Suc m) then m else month_search l doy (Suc m))"
  by pat_completeness auto
termination
  by (relation "measure (\<lambda>(l, doy, m). 11 - m)") auto

definition month_of_day :: "day \<Rightarrow> int" where
  "month_of_day d =
     (let y = year_of_day d in 12 * y + int (month_search (leap y) (d - jan1 y) 0))"

section \<open>Periods and bucket labels\<close>

text \<open>Weeks run Monday to Sunday; day \<open>-3\<close> (1969-12-29) is a Monday.\<close>

fun period_start :: "freq \<Rightarrow> int \<Rightarrow> day" where
  "period_start Daily k = k"
| "period_start Weekly k = 7 * k - 3"
| "period_start Monthly k = month_start k"

fun period_of :: "freq \<Rightarrow> day \<Rightarrow> int" where
  "period_of Daily d = d"
| "period_of Weekly d = (d + 3) div 7"
| "period_of Monthly d = month_of_day d"

definition bucket_label :: "freq \<Rightarrow> day \<Rightarrow> day" where
  "bucket_label f d = period_start f (period_of f d + 1) - 1"

text \<open>\<open>pd.date_range(start=L, periods=n + 1, freq=f)[1:]\<close> for an on-offset
  \<open>L\<close>: the next \<open>n\<close> labels.\<close>

fun labels_after :: "freq \<Rightarrow> day \<Rightarrow> nat \<Rightarrow> day list" where
  "labels_after f L 0 = []"
| "labels_after f L (Suc n) = (let L' = bucket_label f (L + 1) in L' # labels_after f L' n)"

text \<open>\<open>pd.date_range(first, last, freq)\<close>: the labels from \<open>first\<close> to \<open>last\<close>.\<close>

definition labels_between :: "freq \<Rightarrow> day \<Rightarrow> day \<Rightarrow> day list" where
  "labels_between f a b = filter (\<lambda>d. bucket_label f d = d) [a..b]"

section \<open>Years\<close>

lemma leaps_before_succ:
  "leaps_before (y + 1) = leaps_before y + (if leap y then 1 else 0)"
proof -
  have "leaps_before (y + 1) - leaps_before y
      = (y div 4 - (y - 1) div 4) - (y div 100 - (y - 1) div 100) + (y div 400 - (y - 1) div 400)"
    by (simp add: leaps_before_def)
  also have "\<dots> = (if 4 dvd y then 1 else 0) - (if 100 dvd y then 1 else 0) + (if 400 dvd y then 1 else 0)"
    by (simp only: div_step)
  also have "\<dots> = (if leap y then 1 else 0)"
  proof -
    have "400 dvd y \<Longrightarrow> 100 dvd y" and "100 dvd y \<Longrightarrow> 4 dvd y"
      by (auto elim!: dvdE intro: dvdI [of _ _ "4 * _"] dvdI [of _ _ "25 * _"])
    then show ?thesis by (auto simp: leap_def)
  qed
  finally show ?thesis by simp
qed

lemma jan1_succ: "jan1 (y + 1) = jan1 y + days_in_year y"
  by (simp add: jan1_def leaps_before_succ days_in_year_def)

lemma jan1_bounds:
  "146097 * (y - 1970) - 600 \<le> 400 * jan1 y \<and> 400 * jan1 y \<le> 146097 * (y - 1970) + 600"
proof -
  have a: "4 * ((y - 1) div 4) \<le> y - 1" "y - 1 < 4 * ((y - 1) div 4) + 4"
    using div_bounds_int [of 4 "y - 1"] by auto
  have b: "100 * ((y - 1) div 100) \<le> y - 1" "y - 1 < 100 * ((y - 1) div 100) + 100"
    using div_bounds_int [of 100 "y - 1"] by auto
  have c: "400 * ((y - 1) div 400) \<le> y - 1" "y - 1 < 400 * ((y - 1) div 400) + 400"
    using div_bounds_int [of 400 "y - 1"] by auto
  have "leaps_before 1970 = 477"
    by (simp add: leaps_before_def)
  then show ?thesis
    using a b c by (simp add: jan1_def leaps_before_def)
qed

lemma year_of_day_correct:
  "jan1 (year_of_day d) \<le> d \<and> d < jan1 (year_of_day d + 1)"
proof -
  define e where "e = 1970 + (400 * d) div 146097"
  have q: "146097 * (e - 1970) \<le> 400 * d" "400 * d < 146097 * (e - 1970) + 146097"
    using div_bounds_int [of 146097 "400 * d"] by (auto simp: e_def)
  have lo: "d < jan1 e \<Longrightarrow> jan1 (e - 1) \<le> d"
    using jan1_bounds [of "e - 1"] q by (simp add: algebra_simps)
  have hi: "jan1 (e + 1) \<le> d \<Longrightarrow> d < jan1 (e + 1 + 1)"
    using jan1_bounds [of "e + 1 + 1"] q by (simp add: algebra_simps)
  show ?thesis
    using lo hi by (auto simp: year_of_day_def Let_def e_def [symmetric])
qed

lemma days_in_year_cum: "days_in_year y = cum_days (leap y) 12"
  by (simp add: days_in_year_def cum_days_def)

section \<open>Months\<close>

lemma cum_days_0 [simp]: "cum_days l 0 = 0"
  by (simp add: cum_days_def)

lemma cum_days_strict: "m < 12 \<Longrightarrow> cum_days l m < cum_days l (Suc m)"
proof -
  assume "m < 12"
  then have "m = 0 \<or> m = 1 \<or> m = 2 \<or> m = 3 \<or> m = 4 \<or> m = 5 \<or> m = 6 \<or> m = 7
      \<or> m = 8 \<or> m = 9 \<or> m = 10 \<or> m = 11" by arith
  then show ?thesis by (elim disjE) (simp_all add: cum_days_def)
qed

lemma month_search_correct:
  "cum_days l m \<le> doy \<Longrightarrow> m \<le> 11 \<Longrightarrow> doy < cum_days l 12 \<Longrightarrow>
   cum_days l (month_search l doy m) \<le> doy \<and> doy < cum_days l (Suc (month_search l doy m))
   \<and> month_search l doy m \<le> 11"
proof (induction l doy m rule: month_search.induct)
  case (1 l doy m)
  show ?case
  proof (cases "11 \<le> m")
    case True
    with "1.prems" have "m = 11" by simp
    with "1.prems" show ?thesis by (simp add: month_search.simps [of l doy m] numeral_eq_Suc)
  next
    case False
    show ?thesis
    proof (cases "doy < cum_days l (Suc m)")
      case True
      with False "1.prems" show ?thesis by (simp add: month_search.simps [of l doy m])
    next
      case c: False
      with False "1.prems" "1.IH" show ?thesis by (simp add: month_search.simps [of l doy m])
    qed
  qed
qed

lemma month_start_split:
  "month_start (12 * y + int m) = jan1 y + cum_days (leap y) m" if "m < 12"
  using that by (simp add: month_start_def)

lemma month_start_strict: "month_start k < month_start (k + 1)"
proof -
  define y m where "y = k div 12" and "m = nat (k mod 12)"
  have k: "k = 12 * y + int m" and m: "m < 12"
    by (auto simp: y_def m_def)
  show ?thesis
  proof (cases "m = 11")
    case True
    then have "k + 1 = 12 * (y + 1) + int 0" using k by simp
    then have "month_start (k + 1) = jan1 (y + 1)"
      by (simp only: month_start_split) simp
    also have "\<dots> = jan1 y + cum_days (leap y) 12"
      by (simp add: jan1_succ days_in_year_cum)
    moreover have "month_start k = jan1 y + cum_days (leap y) 11"
      using month_start_split [of 11 y] k True by simp
    ultimately show ?thesis
      using cum_days_strict [of 11 "leap y"] by simp
  next
    case False
    then have k1: "k + 1 = 12 * y + int (Suc m)" and sm: "Suc m < 12" using k m by auto
    have "month_start (k + 1) = jan1 y + cum_days (leap y) (Suc m)"
      by (simp only: k1 month_start_split [OF sm])
    moreover have "month_start k = jan1 y + cum_days (leap y) m"
      by (simp only: k month_start_split [OF m])
    ultimately show ?thesis
      using cum_days_strict [of m "leap y"] m by simp
  qed
qed

lemma month_of_day_correct:
  "month_start (month_of_day d) \<le> d \<and> d < month_start (month_of_day d + 1)"
proof -
  define y where "y = year_of_day d"
  define r where "r = month_search (leap y) (d - jan1 y) 0"
  have yd: "jan1 y \<le> d" "d < jan1 (y + 1)"
    using year_of_day_correct [of d] by (auto simp: y_def)
  have doy: "0 \<le> d - jan1 y" "d - jan1 y < cum_days (leap y) 12"
    using yd by (simp_all add: jan1_succ days_in_year_cum)
  have r: "cum_days (leap y) r \<le> d - jan1 y" "d - jan1 y < cum_days (leap y) (Suc r)" "r \<le> 11"
    using month_search_correct [of "leap y" 0 "d - jan1 y"] doy by (auto simp: r_def)
  have md: "month_of_day d = 12 * y + int r"
    by (simp add: month_of_day_def y_def r_def Let_def)
  have lo: "month_start (month_of_day d) \<le> d"
    using r by (simp add: md month_start_split)
  have hi: "d < month_start (month_of_day d + 1)"
  proof (cases "r = 11")
    case True
    then have "month_of_day d + 1 = 12 * (y + 1) + int 0" by (simp add: md)
    then have "month_start (month_of_day d + 1) = jan1 (y + 1)"
      by (simp only: month_start_split) simp
    with yd show ?thesis by simp
  next
    case False
    then have k1: "month_of_day d + 1 = 12 * y + int (Suc r)" and sr: "Suc r < 12"
      using r by (auto simp: md)
    have "month_start (month_of_day d + 1) = jan1 y + cum_days (leap y) (Suc r)"
      by (simp only: k1 month_start_split [OF sr])
    then show ?thesis using r by simp
  qed
  from lo hi show ?thesis ..
qed

section \<open>Each frequency cuts the days into periods\<close>

lemma period_start_strict: "period_start f k < period_start f (k + 1)"
  by (cases f) (simp_all add: month_start_strict)

lemma period_of_correct:
  "period_start f (period_of f d) \<le> d \<and> d < period_start f (period_of f d + 1)"
proof (cases f)
  case Weekly
  have "7 * ((d + 3) div 7) \<le> d + 3" "d + 3 < 7 * ((d + 3) div 7) + 7"
    using div_bounds_int [of 7 "d + 3"] by auto
  with Weekly show ?thesis by simp
qed (simp_all add: month_of_day_correct)

lemma period_start_less: "k < k' \<Longrightarrow> period_start f k < period_start f k'"
proof -
  assume "k < k'"
  then obtain n where n: "k' = k + int n + 1"
    by (metis add.commute diff_add_cancel int_nat_eq less_iff_diff_less_0 not_less zless_imp_add1_zle
        nat_0_le add_le_cancel_left diff_ge_0_iff_ge)
  have "period_start f k < period_start f (k + int n + 1)"
  proof (induction n)
    case 0
    then show ?case using period_start_strict [of f k] by simp
  next
    case (Suc n)
    have e: "k + int (Suc n) + 1 = (k + int n + 1) + 1" by simp
    show ?case
      unfolding e using Suc.IH period_start_strict [of f "k + int n + 1"] by (rule less_trans)
  qed
  with n show ?thesis by simp
qed

lemma period_start_le: "k \<le> k' \<Longrightarrow> period_start f k \<le> period_start f k'"
  using period_start_less [of k k' f] by (cases "k = k'") auto

lemma period_of_unique:
  assumes "period_start f k \<le> d" "d < period_start f (k + 1)"
  shows "period_of f d = k"
proof (rule ccontr)
  let ?p = "period_of f d"
  assume ne: "?p \<noteq> k"
  have p: "period_start f ?p \<le> d" "d < period_start f (?p + 1)"
    using period_of_correct [of f d] by auto
  show False
  proof (cases "?p < k")
    case True
    then have "period_start f (?p + 1) \<le> period_start f k" by (intro period_start_le) simp
    with p assms show False by simp
  next
    case False
    with ne have "k + 1 \<le> ?p" by simp
    then have "period_start f (k + 1) \<le> period_start f ?p" by (rule period_start_le)
    with p assms show False by simp
  qed
qed

lemma period_of_mono: "d \<le> d' \<Longrightarrow> period_of f d \<le> period_of f d'"
proof (rule ccontr)
  assume dd: "d \<le> d'" and "\<not> period_of f d \<le> period_of f d'"
  then have "period_of f d' + 1 \<le> period_of f d" by simp
  then have "period_start f (period_of f d' + 1) \<le> period_start f (period_of f d)"
    by (rule period_start_le)
  with period_of_correct [of f d] period_of_correct [of f d'] dd show False by simp
qed

section \<open>Bucket labels\<close>

lemma period_of_label: "period_of f (bucket_label f d) = period_of f d"
proof (rule period_of_unique)
  show "period_start f (period_of f d) \<le> bucket_label f d"
    using period_of_correct [of f d] by (simp add: bucket_label_def)
  show "bucket_label f d < period_start f (period_of f d + 1)"
    by (simp add: bucket_label_def)
qed

lemma label_ge: "d \<le> bucket_label f d"
  using period_of_correct [of f d] by (simp add: bucket_label_def)

lemma label_idem [simp]: "bucket_label f (bucket_label f d) = bucket_label f d"
  unfolding bucket_label_def [of f "bucket_label f d"] period_of_label by (simp add: bucket_label_def)

lemma label_mono: "d \<le> d' \<Longrightarrow> bucket_label f d \<le> bucket_label f d'"
  using period_of_mono [of d d' f] period_start_le [of "period_of f d + 1" "period_of f d' + 1" f]
  by (simp add: bucket_label_def)

lemma label_eq_iff: "bucket_label f d = bucket_label f d' \<longleftrightarrow> period_of f d = period_of f d'"
proof
  assume "bucket_label f d = bucket_label f d'"
  then have "period_of f (bucket_label f d) = period_of f (bucket_label f d')" by simp
  then show "period_of f d = period_of f d'" by (simp add: period_of_label)
qed (simp add: bucket_label_def)

lemma label_next: "bucket_label f d < bucket_label f (bucket_label f d + 1)"
proof -
  let ?L = "bucket_label f d"
  have "period_of f (?L + 1) = period_of f d + 1"
    using period_start_strict [of f "period_of f d + 1"]
    by (intro period_of_unique) (simp_all add: bucket_label_def)
  then have "bucket_label f (?L + 1) = period_start f (period_of f d + 1 + 1) - 1"
    by (simp only: bucket_label_def [of f "?L + 1"])
  moreover have "?L = period_start f (period_of f d + 1) - 1"
    by (simp only: bucket_label_def)
  ultimately show ?thesis
    using period_start_strict [of f "period_of f d + 1"] by linarith
qed

lemma label_between: "d \<le> L \<Longrightarrow> L < bucket_label f d \<Longrightarrow> bucket_label f L = bucket_label f d"
proof -
  assume a: "d \<le> L" "L < bucket_label f d"
  have "period_of f L = period_of f d"
  proof (rule period_of_unique)
    show "period_start f (period_of f d) \<le> L"
      using period_of_correct [of f d] a by simp
    show "L < period_start f (period_of f d + 1)"
      using a by (simp add: bucket_label_def)
  qed
  then show ?thesis by (simp add: bucket_label_def)
qed

section \<open>Label sequences\<close>

lemma labels_after_length [simp]: "length (labels_after f L n) = n"
  by (induction n arbitrary: L) (simp_all add: Let_def)

lemma labels_after_labels: "x \<in> set (labels_after f L n) \<Longrightarrow> bucket_label f x = x"
  by (induction n arbitrary: L) (auto simp: Let_def)

lemma labels_after_gt: "x \<in> set (labels_after f L n) \<Longrightarrow> L < x"
proof (induction n arbitrary: L)
  case 0
  then show ?case by simp
next
  case (Suc n)
  have first: "L < bucket_label f (L + 1)"
    using label_ge [of "L + 1" f] by simp
  from Suc.prems have "x = bucket_label f (L + 1) \<or> x \<in> set (labels_after f (bucket_label f (L + 1)) n)"
    by (simp add: Let_def)
  then show ?case
    using first Suc.IH by fastforce
qed

lemma labels_after_sorted: "sorted_wrt (<) (labels_after f L n)"
proof (induction n arbitrary: L)
  case 0
  then show ?case by simp
next
  case (Suc n)
  then show ?case
    using labels_after_gt [of _ f "bucket_label f (L + 1)" n] by (simp add: Let_def)
qed

lemma labels_between_member:
  "x \<in> set (labels_between f a b) \<longleftrightarrow> a \<le> x \<and> x \<le> b \<and> bucket_label f x = x"
  by (auto simp: labels_between_def)

lemma labels_between_sorted: "sorted_wrt (<) (labels_between f a b)"
  by (simp add: labels_between_def sorted_wrt_filter)

section \<open>Properties of the calendar\<close>

text \<open>C29: the label \<open>resample\<close> gives a day is the first on-offset day at
  or after it: for \<open>D\<close> the day itself, for \<open>W\<close> the Sunday ending its week
  (day 3, 1970-01-04, is a Sunday), for \<open>M\<close> the last day of its month.\<close>

theorem bucket_label_least_on_offset:
  "d \<le> bucket_label f d \<and> bucket_label f (bucket_label f d) = bucket_label f d
   \<and> (\<forall>L. d \<le> L \<longrightarrow> bucket_label f L = L \<longrightarrow> bucket_label f d \<le> L)
   \<and> bucket_label Daily d = d
   \<and> (bucket_label Weekly d + 4) mod 7 = 0
   \<and> bucket_label Monthly d = month_start (month_of_day d + 1) - 1"
proof -
  have least: "bucket_label f d \<le> L" if "d \<le> L" "bucket_label f L = L" for L
    using label_mono [OF that(1), of f] that(2) by simp
  have week: "(bucket_label Weekly d + 4) mod 7 = 0"
  proof -
    have "bucket_label Weekly d + 4 = 7 * ((d + 3) div 7 + 1)"
      by (simp add: bucket_label_def algebra_simps)
    then show ?thesis by simp
  qed
  have daily: "bucket_label Daily d = d"
    and monthly: "bucket_label Monthly d = month_start (month_of_day d + 1) - 1"
    by (simp_all add: bucket_label_def)
  show ?thesis
    using label_ge [of d f] label_idem [of f d] least week daily monthly by blast
qed

text \<open>At 2024-01-01 (day 19723, a Monday): the week ends on Sunday
  2024-01-07 and the month on 2024-01-31; the next Sunday, 2024-01-14, is
  its own label, so the label of the Monday lies at or before it.\<close>

theorem bucket_label_least_on_offset_witness:
  "bucket_label Weekly 19723 = 19729 \<and> bucket_label Monthly 19723 = 19753
   \<and> bucket_label Weekly 19736 = 19736 \<and> bucket_label Weekly 19723 \<le> 19736"
proof -
  have w: "bucket_label Weekly 19723 = 19729" by code_simp
  have m: "bucket_label Monthly 19723 = 19753" by code_simp
  have s: "bucket_label Weekly 19736 = 19736" by code_simp
  have "bucket_label Weekly 19723 \<le> 19736"
    using bucket_label_least_on_offset [of 19723 Weekly] s by simp
  then show ?thesis using w m s by simp
qed

end
