(* ===== verification/Forecasting.thy ===== *)
theory Forecasting
  imports Classifier Stats Calendar
begin

text \<open>
  The forecaster of \<open>src/backend/forecasting.py\<close>: \<open>auto_detect_freq\<close>
  (lines 7--24) and \<open>forecast_time_series\<close> (lines 27--64).  Timestamps are
  nanoseconds; \<open>dt.normalize()\<close> and \<open>astype("datetime64[D]")\<close> take the day
  by floor division.  \<open>resample(freq).sum()\<close> is modelled on the calendar of
  \<open>Calendar\<close>: each row goes to the bucket labelled by its day's
  \<open>bucket_label\<close>, the buckets are every label from the first row's to the
  last row's, and an empty bucket sums to 0.  A value column must hold
  numbers (booleans count as 0 and 1); any other present value makes the
  forecast fail, as the sum or the regression of the source does.
\<close>

section \<open>Frequency detection (lines 7--24)\<close>

text \<open>\<open>np.diff\<close>.\<close>

definition diffs :: "int list \<Rightarrow> int list" where
  "diffs xs = map (\<lambda>(a, b). b - a) (zip xs (tl xs))"

definition auto_detect_freq :: "day list \<Rightarrow> freq" where
  "auto_detect_freq unique_days =
     (if length unique_days < 2 then Daily
      else (let d = diffs (sort unique_days) in
            if d = [] then Daily
            else (let avg_gap = real_of_int (sum_list d) / real (length d) in
                  if avg_gap \<le> 2 then Daily else if avg_gap \<le> 12 then Weekly else Monthly)))"

section \<open>The forecast (lines 27--64)\<close>

text \<open>\<open>tmp.dropna(subset=[date_col, value_col])\<close> after the date column was
  parsed: the rows with a timestamp and a present value.\<close>

definition usable_rows :: "cell list \<Rightarrow> cell list \<Rightarrow> (timestamp \<times> cell) list" where
  "usable_rows ds vs =
     concat (map (\<lambda>(d, v). case d of Stamp t \<Rightarrow> (if v = NA then [] else [(t, v)]) | _ \<Rightarrow> [])
       (zip ds vs))"

definition cell_number :: "cell \<Rightarrow> real option" where
  "cell_number c = (case c of Num r \<Rightarrow> Some r | Flag b \<Rightarrow> Some (if b then 1 else 0) | _ \<Rightarrow> None)"

definition day_of :: "timestamp \<Rightarrow> day" where
  "day_of t = t div day_ns"

text \<open>\<open>set_index(date_col).resample(freq)[value_col].sum()\<close>: one
  \<open>(label, sum)\<close> per bucket, in time order.\<close>

definition resample_sum :: "freq \<Rightarrow> (timestamp \<times> real) list \<Rightarrow> (day \<times> real) list" where
  "resample_sum f rows =
     (let days = map (\<lambda>r. day_of (fst r)) rows;
          first = bucket_label f (Min (set days));
          last = bucket_label f (Max (set days))
      in map (\<lambda>L. (L, \<Sum>r\<leftarrow>filter (\<lambda>r. bucket_label f (day_of (fst r)) = L) rows. snd r))
           (labels_between f first last))"

text \<open>The regression rows \<open>(t, y)\<close> with \<open>t = 0, 1, 2, \<dots>\<close> (lines 51--54).\<close>

definition index_points :: "real list \<Rightarrow> (real \<times> real) list" where
  "index_points ys = zip (map real [0..<length ys]) ys"

record forecast_result =
  historical :: "(timestamp \<times> real \<times> nat) list"
  predicted :: "(timestamp \<times> real) list"

text \<open>Lines 41--64, from the cleaned rows (timestamp, numeric value) on.
  \<open>np.arange(n, n + periods)\<close> holds no time step when \<open>periods \<le> 0\<close>,
  and \<open>LinearRegression.predict\<close> (line 57) rejects an array without a
  sample before \<open>date_range\<close> is reached.\<close>

definition forecast_from_rows ::
  "(timestamp \<times> real) list \<Rightarrow> nat \<Rightarrow> py_error + forecast_result" where
  "forecast_from_rows rows periods =
     (let freq = auto_detect_freq (remdups (map (\<lambda>r. day_of (fst r)) rows));
          agg = resample_sum freq rows
      in if length agg < 3
         then Inl (ValueError ''Not enough aggregated points to forecast (need >= 3).'')
         else if periods = 0
         then Inl (ValueError ''Found array with 0 sample(s) (shape=(0, 1)) while a minimum of 1 is required by LinearRegression.'')
         else
           (let pts = index_points (map snd agg);
                n = length agg;
                preds = map (\<lambda>j. lr_predict pts (real j)) [n..<n + periods];
                future = labels_after freq (fst (last agg)) periods
            in Inr \<lparr>historical = map (\<lambda>(i, (L, y)). (L * day_ns, y, i)) (zip [0..<n] agg),
                    predicted = zip (map (\<lambda>L. L * day_ns) future) preds\<rparr>))"

text \<open>Lines 27--39: parse the date column, drop incomplete rows, fail on none.\<close>

definition forecast_time_series ::
  "parser \<Rightarrow> table \<Rightarrow> string \<Rightarrow> string \<Rightarrow> nat \<Rightarrow> py_error + forecast_result" where
  "forecast_time_series conv df date_col value_col periods =
     (case df_get df date_col of
        None \<Rightarrow> Inl (KeyError date_col)
      | Some dc \<Rightarrow>
          (case to_datetime conv (col_cells dc) of
             None \<Rightarrow> Inl (TypeError date_col)
           | Some ps \<Rightarrow>
               (let tmp = set_col date_col (stamp_column ps) df in
                case (df_get tmp date_col, df_get tmp value_col) of
                  (None, _) \<Rightarrow> Inl (KeyError date_col)
                | (_, None) \<Rightarrow> Inl (KeyError value_col)
                | (Some dc', Some vc) \<Rightarrow>
                    (let rows = usable_rows (col_cells dc') (col_cells vc) in
                     if rows = [] then Inl (ValueError ''No usable date/value pairs for forecasting.'')
                     else if (\<exists>r \<in> set rows. cell_number (snd r) = None) then Inl (TypeError value_col)
                     else forecast_from_rows (map (\<lambda>r. (fst r, the (cell_number (snd r)))) rows) periods))))"

section \<open>Frequency detection\<close>

lemma length_diffs [simp]: "length (diffs xs) = length xs - 1"
  by (simp add: diffs_def)

lemma sum_diffs: "xs \<noteq> [] \<Longrightarrow> sum_list (diffs xs) = last xs - hd xs"
proof (induction xs)
  case Nil
  then show ?case by simp
next
  case (Cons x xs)
  then show ?case
    by (cases xs) (simp_all add: diffs_def)
qed

lemma sorted_hd_least: "sorted ys \<Longrightarrow> x \<in> set ys \<Longrightarrow> hd ys \<le> x"
  by (cases ys) auto

lemma sorted_last_greatest: "sorted ys \<Longrightarrow> x \<in> set ys \<Longrightarrow> x \<le> last ys"
proof (induction ys)
  case Nil
  then show ?case by simp
next
  case (Cons a l)
  show ?case
  proof (cases "l = []")
    case True
    with Cons.prems show ?thesis by simp
  next
    case False
    then have "last l \<in> set l" by simp
    with Cons False show ?thesis by auto
  qed
qed

lemma sorted_hd_last_Min_Max:
  assumes "xs \<noteq> []"
  shows "hd (sort xs) = Min (set xs) \<and> last (sort xs) = Max (set (xs :: int list))"
proof -
  have ne: "sort xs \<noteq> []" using assms by (metis length_0_conv length_sort)
  have s: "sorted (sort xs)" by simp
  have "hd (sort xs) \<in> set xs" "last (sort xs) \<in> set xs"
    using hd_in_set [OF ne] last_in_set [OF ne] by simp_all
  moreover have "\<forall>x \<in> set xs. hd (sort xs) \<le> x \<and> x \<le> last (sort xs)"
    using s sorted_hd_least sorted_last_greatest by (metis set_sort)
  ultimately show ?thesis
    using assms by (auto intro!: Min_eqI [symmetric] Max_eqI [symmetric])
qed

section \<open>Resampling\<close>

lemma sum_filter_labels:
  assumes "distinct Ls" "\<forall>r \<in> set rows. g r \<in> set Ls"
  shows "(\<Sum>L\<leftarrow>Ls. \<Sum>r\<leftarrow>filter (\<lambda>r. g r = L) rows. v r) = (\<Sum>r\<leftarrow>rows. (v r :: real))"
  using assms(2)
proof (induction rows)
  case Nil
  then show ?case by simp
next
  case (Cons r rows)
  have split: "(\<Sum>L\<leftarrow>Ls. \<Sum>x\<leftarrow>filter (\<lambda>x. g x = L) (r # rows). v x)
      = (\<Sum>L\<leftarrow>Ls. (if g r = L then v r else 0)) + (\<Sum>L\<leftarrow>Ls. \<Sum>x\<leftarrow>filter (\<lambda>x. g x = L) rows. v x)"
  proof -
    have pt: "(\<Sum>x\<leftarrow>filter (\<lambda>x. g x = L) (r # rows). v x)
        = (if g r = L then v r else 0) + (\<Sum>x\<leftarrow>filter (\<lambda>x. g x = L) rows. v x)" for L
      by simp
    show ?thesis by (simp only: pt sum_list_map_add)
  qed
  have "(\<Sum>L\<leftarrow>Ls. (if g r = L then v r else 0)) = (\<Sum>L \<in> set Ls. (if g r = L then v r else 0))"
    using assms(1) by (simp add: sum_list_distinct_conv_sum_set)
  also have "\<dots> = v r"
    using Cons.prems by (simp add: sum.delta)
  finally show ?case
    using split Cons by simp
qed

lemma row_label_in_range:
  assumes "r \<in> set rows"
  shows "bucket_label f (day_of (fst r)) \<in> set (labels_between f
           (bucket_label f (Min (set (map (\<lambda>r. day_of (fst r)) rows))))
           (bucket_label f (Max (set (map (\<lambda>r. day_of (fst r)) rows)))))"
proof -
  let ?ds = "set (map (\<lambda>r. day_of (fst r)) rows)"
  have mem: "day_of (fst r) \<in> ?ds" using assms by simp
  have "Min ?ds \<le> day_of (fst r)" "day_of (fst r) \<le> Max ?ds"
    using mem by simp_all
  then show ?thesis
    by (simp add: labels_between_member label_mono)
qed

lemma map_fst_resample_sum:
  "map fst (resample_sum f rows) =
     labels_between f (bucket_label f (Min (set (map (\<lambda>r. day_of (fst r)) rows))))
                      (bucket_label f (Max (set (map (\<lambda>r. day_of (fst r)) rows))))"
  by (simp add: resample_sum_def Let_def comp_def)

lemma sorted_wrt_scale:
  "sorted_wrt (<) xs \<Longrightarrow> sorted_wrt (<) (map (\<lambda>L. L * day_ns) xs)"
  by (simp add: sorted_wrt_map)

lemma zip_index_pairs:
  "map (\<lambda>(t, y, i). (real i, y)) (map (\<lambda>(i, (L, y)). (L * day_ns, y, i)) (zip xs agg))
     = zip (map real xs) (map snd agg)"
proof (induction xs arbitrary: agg)
  case Nil
  then show ?case by simp
next
  case (Cons x xs)
  then show ?case by (cases agg) auto
qed

lemma index_points_historical:
  "map (\<lambda>(t, y, i). (real i, y)) (map (\<lambda>(i, (L, y)). (L * day_ns, y, i)) (zip [0..<length agg] agg))
     = index_points (map snd agg)"
  by (simp only: zip_index_pairs index_points_def length_map)

lemma forecast_from_rows_Inr:
  assumes "forecast_from_rows rows periods = Inr r"
  obtains f agg where "agg = resample_sum f rows" "3 \<le> length agg"
    "historical r = map (\<lambda>(i, (L, y)). (L * day_ns, y, i)) (zip [0..<length agg] agg)"
    "predicted r = zip (map (\<lambda>L. L * day_ns) (labels_after f (fst (last agg)) periods))
       (map (\<lambda>j. lr_predict (index_points (map snd agg)) (real j)) [length agg..<length agg + periods])"
proof -
  define f where "f = auto_detect_freq (remdups (map (\<lambda>r. day_of (fst r)) rows))"
  define agg where "agg = resample_sum f rows"
  have "\<not> length agg < 3"
    using assms by (auto simp: forecast_from_rows_def Let_def f_def [symmetric] agg_def [symmetric])
  moreover have "periods \<noteq> 0"
    using assms calculation
    by (auto simp: forecast_from_rows_def Let_def f_def [symmetric] agg_def [symmetric] split: if_splits)
  moreover have "Inr r = (Inr \<lparr>historical = map (\<lambda>(i, (L, y)). (L * day_ns, y, i)) (zip [0..<length agg] agg),
      predicted = zip (map (\<lambda>L. L * day_ns) (labels_after f (fst (last agg)) periods))
       (map (\<lambda>j. lr_predict (index_points (map snd agg)) (real j)) [length agg..<length agg + periods])\<rparr>
      :: py_error + forecast_result)"
    using assms calculation
    by (simp add: forecast_from_rows_def Let_def f_def [symmetric] agg_def [symmetric])
  ultimately show thesis
    using that [of agg f] agg_def by auto
qed

lemma forecast_time_series_Inr:
  assumes "forecast_time_series conv df date_col value_col periods = Inr r"
  shows "\<exists>rows. rows \<noteq> [] \<and> forecast_from_rows rows periods = Inr r"
  using assms
  by (auto simp: forecast_time_series_def Let_def split: option.splits if_splits prod.splits)

lemma auto_detect_freq_span:
  "auto_detect_freq days =
     (if length days < 2 then Daily
      else if Max (set days) - Min (set days) \<le> 2 * (int (length days) - 1) then Daily
      else if Max (set days) - Min (set days) \<le> 12 * (int (length days) - 1) then Weekly
      else Monthly)"
proof (cases "length days < 2")
  case True
  then show ?thesis by (simp add: auto_detect_freq_def)
next
  case False
  then have ne: "days \<noteq> []" by auto
  let ?d = "diffs (sort days)"
  let ?span = "Max (set days) - Min (set days)"
  let ?g = "int (length days) - 1"
  have len: "length ?d = length days - 1" by simp
  have "0 < length ?d" using False len by simp
  then have dne: "?d \<noteq> []" by blast
  have ns: "sort days \<noteq> []"
    using ne by (metis length_0_conv length_sort)
  have sum: "sum_list ?d = ?span"
    using sum_diffs [OF ns] sorted_hd_last_Min_Max [OF ne] by simp
  have g: "real (length ?d) = real_of_int ?g" and gpos: "0 < real_of_int ?g"
    using False by (simp_all add: of_nat_diff)
  have avg: "real_of_int (sum_list ?d) / real (length ?d) \<le> c \<longleftrightarrow> ?span \<le> c * ?g"
    if "c \<in> {2, 12}" for c :: int
  proof -
    have "real_of_int (sum_list ?d) / real (length ?d) \<le> real_of_int c
        \<longleftrightarrow> real_of_int ?span \<le> real_of_int c * real_of_int ?g"
      using gpos by (simp add: g sum pos_divide_le_eq)
    also have "\<dots> \<longleftrightarrow> ?span \<le> c * ?g"
      by (simp only: of_int_mult [symmetric] of_int_le_iff)
    finally show ?thesis by simp
  qed
  show ?thesis
    using False dne avg [of 2] avg [of 12] by (simp add: auto_detect_freq_def Let_def)
qed

lemma historical_fst:
  "length xs = length agg \<Longrightarrow>
     map fst (map (\<lambda>(i, (L, y)). (L * day_ns, y, i)) (zip xs agg)) = map (\<lambda>L. L * day_ns) (map fst agg)"
proof (induction xs arbitrary: agg)
  case Nil
  then show ?case by simp
next
  case (Cons x xs)
  then show ?case by (cases agg) auto
qed

lemma resample_sum_sorted: "sorted_wrt (<) (map fst (resample_sum f rows))"
  by (simp only: map_fst_resample_sum labels_between_sorted)

lemma forecast_from_rows_dates:
  assumes "forecast_from_rows rows periods = Inr r"
  shows "length (predicted r) = periods \<and> sorted_wrt (<) (map fst (predicted r))
    \<and> 3 \<le> length (historical r) \<and> sorted_wrt (<) (map fst (historical r))
    \<and> (\<forall>p \<in> set (predicted r). fst (last (historical r)) < fst p)"
proof -
  obtain f agg where agg: "agg = resample_sum f rows" "3 \<le> length agg"
    and h: "historical r = map (\<lambda>(i, (L, y)). (L * day_ns, y, i)) (zip [0..<length agg] agg)"
    and p: "predicted r = zip (map (\<lambda>L. L * day_ns) (labels_after f (fst (last agg)) periods))
       (map (\<lambda>j. lr_predict (index_points (map snd agg)) (real j)) [length agg..<length agg + periods])"
    by (rule forecast_from_rows_Inr [OF assms])
  have hf: "map fst (historical r) = map (\<lambda>L. L * day_ns) (map fst agg)"
    unfolding h by (rule historical_fst) simp
  have pf: "map fst (predicted r) = map (\<lambda>L. L * day_ns) (labels_after f (fst (last agg)) periods)"
    unfolding p by (simp add: map_fst_zip)
  have ane: "agg \<noteq> []" using agg(2) by auto
  have hl: "length (historical r) = length agg" by (simp add: h)
  then have hne: "historical r \<noteq> []" using ane by auto
  have "fst (last (historical r)) = last (map fst (historical r))"
    using hne by (simp add: last_map)
  also have "\<dots> = fst (last agg) * day_ns"
    unfolding hf using ane by (simp add: last_map)
  finally have last_h: "fst (last (historical r)) = fst (last agg) * day_ns" .
  have "sorted_wrt (<) (map fst (historical r))"
    unfolding hf agg(1) by (rule sorted_wrt_scale [OF resample_sum_sorted])
  moreover have "sorted_wrt (<) (map fst (predicted r))"
    unfolding pf by (rule sorted_wrt_scale [OF labels_after_sorted])
  moreover have "\<forall>q \<in> set (predicted r). fst (last (historical r)) < fst q"
  proof
    fix q assume "q \<in> set (predicted r)"
    then have "fst q \<in> set (map fst (predicted r))" by simp
    then obtain x where x: "x \<in> set (labels_after f (fst (last agg)) periods)" "fst q = x * day_ns"
      unfolding pf by auto
    then show "fst (last (historical r)) < fst q"
      using labels_after_gt [OF x(1)] by (simp add: last_h)
  qed
  moreover have "length (predicted r) = periods" by (simp add: p)
  ultimately show ?thesis using agg(2) hl by simp
qed

lemma forecast_from_rows_fit:
  assumes "forecast_from_rows rows periods = Inr r" "k < periods"
  shows "snd (predicted r ! k)
     = lr_predict (map (\<lambda>(t, y, i). (real i, y)) (historical r)) (real (length (historical r) + k))"
proof -
  obtain f agg where agg: "agg = resample_sum f rows" "3 \<le> length agg"
    and h: "historical r = map (\<lambda>(i, (L, y)). (L * day_ns, y, i)) (zip [0..<length agg] agg)"
    and p: "predicted r = zip (map (\<lambda>L. L * day_ns) (labels_after f (fst (last agg)) periods))
       (map (\<lambda>j. lr_predict (index_points (map snd agg)) (real j)) [length agg..<length agg + periods])"
    by (rule forecast_from_rows_Inr [OF assms(1)])
  have pts: "map (\<lambda>(t, y, i). (real i, y)) (historical r) = index_points (map snd agg)"
    unfolding h by (rule index_points_historical)
  have hl: "length (historical r) = length agg" by (simp add: h)
  have "snd (predicted r ! k) = lr_predict (index_points (map snd agg)) (real (length agg + k))"
    using assms(2) by (simp add: p)
  then show ?thesis by (simp only: pts hl)
qed

lemma forecast_from_rows_no_periods: "\<exists>e. forecast_from_rows rows 0 = Inl e"
  by (simp add: forecast_from_rows_def Let_def)

lemma forecast_time_series_no_periods: "\<exists>e. forecast_time_series conv df date_col value_col 0 = Inl e"
  using forecast_from_rows_no_periods
  by (simp add: forecast_time_series_def Let_def split: option.split prod.split)


lemma length_labels_between_Daily:
  "length (labels_between Daily a b) \<le> nat (b - a + 1)"
  unfolding labels_between_def by (metis length_filter_le length_upto)

lemma bucket_label_Daily [simp]: "bucket_label Daily d = d"
  by (simp add: bucket_label_def)

lemma upto_three: "[d..d + 2] = [d, d + 1, d + (2::int)]"
  by (simp add: upto.simps)

lemma resample_two_days:
  assumes "day_of t2 = day_of t1 + 2"
  shows "auto_detect_freq (remdups (map (\<lambda>r. day_of (fst r)) [(t1, a), (t2, b)])) = Daily
    \<and> resample_sum Daily [(t1, a), (t2, b)] = [(day_of t1, a), (day_of t1 + 1, 0), (day_of t1 + 2, b)]"
proof -
  have f: "auto_detect_freq (remdups (map (\<lambda>r. day_of (fst r)) [(t1, a), (t2, b)])) = Daily"
    using assms by (simp add: auto_detect_freq_def diffs_def)
  have r: "resample_sum Daily [(t1, a), (t2, b)] = [(day_of t1, a), (day_of t1 + 1, 0), (day_of t1 + 2, b)]"
    using assms by (simp add: resample_sum_def labels_between_def upto_three)
  show ?thesis using f r by simp
qed

lemma days_span:
  assumes "rows \<noteq> []" "\<forall>r \<in> set rows. d \<le> day_of (fst r) \<and> day_of (fst r) \<le> d + 1"
  shows "d \<le> Min (set (map (\<lambda>r. day_of (fst r)) rows)) \<and> Max (set (map (\<lambda>r. day_of (fst r)) rows)) \<le> d + 1"
  using assms by (simp add: Min_ge_iff Max_le_iff)

section \<open>Properties of the forecaster\<close>

text \<open>C8: the frequency detector compares the average gap between consecutive
  distinct days with 2 and 12 days; the average of the gaps is the span of the
  days divided by their number less one, so the choice depends on the first
  and last day and the count only.\<close>

theorem auto_detect_freq_gap:
  "auto_detect_freq days =
     (if length days < 2 then Daily
      else if Max (set days) - Min (set days) \<le> 2 * (int (length days) - 1) then Daily
      else if Max (set days) - Min (set days) \<le> 12 * (int (length days) - 1) then Weekly
      else Monthly)"
  by (rule auto_detect_freq_span)

text \<open>C9: resampling produces one bucket per frequency label from the first
  row's to the last row's, in strictly increasing order (so every bucket
  timestamp is unique), each an on-offset date of the frequency; every row lies
  in one of the buckets, and the bucket sums add up to the total of the rows.\<close>

theorem resample_sum_buckets:
  assumes "rows \<noteq> []"
  shows "sorted_wrt (<) (map fst (resample_sum f rows))
    \<and> (\<forall>L \<in> set (map fst (resample_sum f rows)). bucket_label f L = L)
    \<and> (\<forall>r \<in> set rows. bucket_label f (day_of (fst r)) \<in> set (map fst (resample_sum f rows)))
    \<and> (\<Sum>p\<leftarrow>resample_sum f rows. snd p) = (\<Sum>r\<leftarrow>rows. snd r)"
proof -
  let ?Ls = "map fst (resample_sum f rows)"
  have Ls: "?Ls = labels_between f (bucket_label f (Min (set (map (\<lambda>r. day_of (fst r)) rows))))
      (bucket_label f (Max (set (map (\<lambda>r. day_of (fst r)) rows))))"
    by (rule map_fst_resample_sum)
  have sorted: "sorted_wrt (<) ?Ls"
    unfolding Ls by (rule labels_between_sorted)
  have onoff: "\<forall>L \<in> set ?Ls. bucket_label f L = L"
    unfolding Ls by (simp add: labels_between_member)
  have cover: "\<forall>r \<in> set rows. bucket_label f (day_of (fst r)) \<in> set ?Ls"
    unfolding Ls using row_label_in_range by blast
  have "(\<Sum>p\<leftarrow>resample_sum f rows. snd p)
      = (\<Sum>L\<leftarrow>?Ls. \<Sum>r\<leftarrow>filter (\<lambda>r. bucket_label f (day_of (fst r)) = L) rows. snd r)"
    unfolding Ls by (simp add: resample_sum_def Let_def comp_def)
  also have "\<dots> = (\<Sum>r\<leftarrow>rows. snd r)"
    using sorted cover by (intro sum_filter_labels) (simp_all add: strict_sorted_iff)
  finally show ?thesis
    using sorted onoff cover by simp
qed

text \<open>C10: a successful forecast has at least three historical buckets in
  strictly increasing time order, and exactly \<open>periods\<close> forecast points whose
  timestamps are strictly increasing and all strictly after the last
  historical bucket (the last bucket is never emitted again).\<close>

theorem forecast_dates:
  assumes "forecast_time_series conv df date_col value_col periods = Inr r"
  shows "length (predicted r) = periods \<and> sorted_wrt (<) (map fst (predicted r))
    \<and> 3 \<le> length (historical r) \<and> sorted_wrt (<) (map fst (historical r))
    \<and> (\<forall>p \<in> set (predicted r). fst (last (historical r)) < fst p)"
proof -
  obtain rows where "forecast_from_rows rows periods = Inr r"
    using forecast_time_series_Inr [OF assms] by blast
  then show ?thesis by (rule forecast_from_rows_dates)
qed

text \<open>C11: the forecast values lie on a least-squares line of the historical
  aggregate against its bucket index \<open>0, 1, 2, \<dots>\<close>: there is a line
  \<open>a + b t\<close> whose sum of squared residuals over the history is minimal among
  all lines, and the \<open>k\<close>-th forecast value is its value at index
  \<open>n + k\<close>, \<open>n\<close> the number of buckets.\<close>

theorem forecast_least_squares:
  assumes "forecast_time_series conv df date_col value_col periods = Inr r"
  shows "\<exists>a b. (\<forall>a' b'. Stats.sse (map (\<lambda>(t, y, i). (real i, y)) (historical r)) a b
                      \<le> Stats.sse (map (\<lambda>(t, y, i). (real i, y)) (historical r)) a' b')
     \<and> (\<forall>k < periods. snd (predicted r ! k) = a + b * real (length (historical r) + k))"
proof -
  let ?H = "map (\<lambda>(t, y, i). (real i, y)) (historical r)"
  obtain rows where rows: "forecast_from_rows rows periods = Inr r"
    using forecast_time_series_Inr [OF assms] by blast
  have "\<forall>k < periods. snd (predicted r ! k) = lr_intercept ?H + lr_slope ?H * real (length (historical r) + k)"
    using forecast_from_rows_fit [OF rows] by (simp add: lr_predict_def)
  moreover have "\<forall>a' b'. sse ?H (lr_intercept ?H) (lr_slope ?H) \<le> sse ?H a' b'"
    by (simp add: lr_fit_optimal)
  ultimately show ?thesis by blast
qed

text \<open>C12: two dates two days apart are always forecast, against the
  specification's example that two distinct dates fail: their average gap
  is two days, so the frequency is daily, and the resampling fills the day
  between them with a zero bucket, which makes three historical points.\<close>

theorem forecast_two_dates:
  assumes "day_of t2 = day_of t1 + 2" "0 < periods"
  shows "\<exists>r. forecast_from_rows [(t1, a), (t2, b)] periods = Inr r
    \<and> historical r = [(day_of t1 * day_ns, a, 0), ((day_of t1 + 1) * day_ns, 0, 1),
                      ((day_of t1 + 2) * day_ns, b, 2)]"
proof -
  note two = resample_two_days [OF assms(1), of a b]
  have n: "\<not> length (resample_sum Daily [(t1, a), (t2, b)]) < 3" using two by simp
  show ?thesis
    using two n assms(2) by (simp add: forecast_from_rows_def Let_def upt_rec)
qed

text \<open>C14: rows whose days all lie within two consecutive days are detected
  as daily and make at most two buckets, so the forecast fails with the
  not-enough-points error.\<close>

theorem forecast_short_span_fails:
  assumes "rows \<noteq> []" "\<forall>r \<in> set rows. d \<le> day_of (fst r) \<and> day_of (fst r) \<le> d + 1"
  shows "forecast_from_rows rows periods
           = Inl (ValueError ''Not enough aggregated points to forecast (need >= 3).'')"
proof -
  let ?ds = "map (\<lambda>r. day_of (fst r)) rows"
  have span: "d \<le> Min (set ?ds) \<and> Max (set ?ds) \<le> d + 1"
    by (rule days_span [OF assms])
  have fr: "auto_detect_freq (remdups ?ds) = Daily"
    using span by (simp add: auto_detect_freq_span)
  have "length (resample_sum Daily rows) = length (map fst (resample_sum Daily rows))"
    by simp
  also have "\<dots> \<le> nat (Max (set ?ds) - Min (set ?ds) + 1)"
    by (simp only: map_fst_resample_sum bucket_label_Daily length_labels_between_Daily)
  finally have "length (resample_sum Daily rows) < 3"
    using span by linarith
  then show ?thesis using fr by (simp add: forecast_from_rows_def Let_def)
qed

text \<open>Witnesses of the forecaster's properties.\<close>

theorem resample_sum_buckets_witness:
  "[(19723 * day_ns, 2 :: real), (19730 * day_ns, 3)] \<noteq> []
   \<and> (\<Sum>p\<leftarrow>resample_sum Weekly [(19723 * day_ns, 2 :: real), (19730 * day_ns, 3)]. snd p) = 5"
  using resample_sum_buckets [of "[(19723 * day_ns, 2 :: real), (19730 * day_ns, 3)]" Weekly] by simp

theorem forecast_dates_witness:
  "forecast_time_series stamp_parser
     [(''date'', \<lparr>col_dtype = Datetime, col_cells = [Stamp (19723 * day_ns), Stamp (19725 * day_ns)]\<rparr>),
      (''sales'', \<lparr>col_dtype = Number, col_cells = [Num 1, Num 1]\<rparr>)]
     ''date'' ''sales'' 1
   = Inr \<lparr>historical = [(19723 * day_ns, 1, 0), (19724 * day_ns, 0, 1), (19725 * day_ns, 1, 2)],
          predicted = [(19726 * day_ns, 2 / 3)]\<rparr>
   \<and> 19725 * day_ns < 19726 * day_ns"
proof -
  have h: "forecast_time_series stamp_parser
     [(''date'', \<lparr>col_dtype = Datetime, col_cells = [Stamp (19723 * day_ns), Stamp (19725 * day_ns)]\<rparr>),
      (''sales'', \<lparr>col_dtype = Number, col_cells = [Num 1, Num 1]\<rparr>)]
     ''date'' ''sales'' 1
   = Inr \<lparr>historical = [(19723 * day_ns, 1, 0), (19724 * day_ns, 0, 1), (19725 * day_ns, 1, 2)],
          predicted = [(19726 * day_ns, 2 / 3)]\<rparr>"
    by code_simp
  show ?thesis using forecast_dates [OF h] h by simp
qed

theorem forecast_least_squares_witness:
  "forecast_time_series stamp_parser
     [(''date'', \<lparr>col_dtype = Datetime, col_cells = [Stamp (19723 * day_ns), Stamp (19724 * day_ns),
                    Stamp (19725 * day_ns), Stamp (19726 * day_ns)]\<rparr>),
      (''sales'', \<lparr>col_dtype = Number, col_cells = [Num 10, Num 20, Num 15, Num 25]\<rparr>)]
     ''date'' ''sales'' 2
   = Inr \<lparr>historical = [(19723 * day_ns, 10, 0), (19724 * day_ns, 20, 1), (19725 * day_ns, 15, 2),
                        (19726 * day_ns, 25, 3)],
          predicted = [(19727 * day_ns, 55 / 2), (19728 * day_ns, 63 / 2)]\<rparr>
   \<and> (\<exists>a b :: real. a + b * 4 = 55 / 2 \<and> a + b * 5 = 63 / 2)"
proof -
  have h: "forecast_time_series stamp_parser
     [(''date'', \<lparr>col_dtype = Datetime, col_cells = [Stamp (19723 * day_ns), Stamp (19724 * day_ns),
                    Stamp (19725 * day_ns), Stamp (19726 * day_ns)]\<rparr>),
      (''sales'', \<lparr>col_dtype = Number, col_cells = [Num 10, Num 20, Num 15, Num 25]\<rparr>)]
     ''date'' ''sales'' 2
   = Inr \<lparr>historical = [(19723 * day_ns, 10, 0), (19724 * day_ns, 20, 1), (19725 * day_ns, 15, 2),
                        (19726 * day_ns, 25, 3)],
          predicted = [(19727 * day_ns, 55 / 2), (19728 * day_ns, 63 / 2)]\<rparr>"
    by code_simp
  obtain a b where ex: "\<forall>k < 2. snd ([(19727 * day_ns, 55 / 2), (19728 * day_ns, 63 / 2 :: real)] ! k)
      = a + b * real (4 + k)"
    using forecast_least_squares [OF h] by auto
  have "a + b * 4 = 55 / 2" using ex [rule_format, of 0] by simp
  moreover have "a + b * 5 = 63 / 2" using ex [rule_format, of 1] by simp
  ultimately have "a + b * 4 = 55 / 2 \<and> a + b * 5 = 63 / 2" by blast
  then show ?thesis using h by blast
qed

theorem forecast_short_span_fails_witness:
  "forecast_from_rows [(19723 * day_ns, 1), (19724 * day_ns + 5, 2)] 2
     = Inl (ValueError ''Not enough aggregated points to forecast (need >= 3).'')"
proof (rule forecast_short_span_fails [where d = 19723])
  show "[(19723 * day_ns, 1 :: real), (19724 * day_ns + 5, 2)] \<noteq> []" by simp
  show "\<forall>r \<in> set [(19723 * day_ns, 1 :: real), (19724 * day_ns + 5, 2)].
          19723 \<le> day_of (fst r) \<and> day_of (fst r) \<le> 19723 + 1"
    by (simp add: day_of_def day_ns_def)
qed

text \<open>2024-01-01 and 2024-01-03 with one sale each: the history is
  1, 0, 1 on the three days.\<close>

theorem forecast_two_dates_witness:
  "\<exists>r. forecast_from_rows [(19723 * day_ns, 1), (19725 * day_ns, 1)] 1 = Inr r
     \<and> historical r = [(19723 * day_ns, 1, 0), (19724 * day_ns, 0, 1), (19725 * day_ns, 1, 2)]"
proof -
  have d: "day_of (19725 * day_ns) = day_of (19723 * day_ns) + 2" by (simp add: day_of_def day_ns_def)
  have e: "day_of (19723 * day_ns) = 19723" by (simp add: day_of_def day_ns_def)
  show ?thesis using forecast_two_dates [OF d, of 1 1 1] e by simp
qed

end
