(* ===== verification/Loader.thy ===== *)
theory Loader
  imports Table
begin

text \<open>
  The upload loader \<open>load_file\<close> of \<open>src/backend/data_processing.py\<close>
  (lines 5--33).  The parsers it calls (\<open>pd.read_csv\<close>, \<open>pd.read_excel\<close>,
  \<open>tabula.read_pdf\<close>) are library code: they are the fields of a record
  \<open>readers\<close>, each returning a table or the exception it raised.  What the
  repository decides is modelled: the file name (\<open>filename\<close>, else \<open>name\<close>),
  its lower-casing, the dispatch on the extension, the combination of the PDF
  tables by \<open>pd.concat(tables, ignore_index=True)\<close>, the absorption of every
  PDF error into an empty DataFrame.  The PDF branch writes the bytes to the
  fixed path \<open>/tmp/uploaded_pdf.pdf\<close> and reads them back with no
  \<open>await\<close> in between, so within the one worker process the file holds
  the bytes just written: the branch is the reader applied to the
  content.  \<open>str.lower\<close> is modelled on ASCII letters; file contents
  are strings of bytes.
\<close>

record upload =
  up_filename :: "string option"
  up_name :: string
  up_content :: string

record readers =
  read_csv :: "string \<Rightarrow> py_error + table"
  read_excel :: "string \<Rightarrow> py_error + table"
  read_pdf :: "string \<Rightarrow> py_error + table list"

section \<open>Strings\<close>

definition lower_char :: "char \<Rightarrow> char" where
  "lower_char c = (if (65 :: nat) \<le> of_char c \<and> of_char c \<le> (90 :: nat) then char_of (of_char c + (32 :: nat)) else c)"

text \<open>\<open>str.lower()\<close>.\<close>

definition py_lower :: "string \<Rightarrow> string" where
  "py_lower s = map lower_char s"

text \<open>\<open>str.endswith(suffix)\<close>.\<close>

definition ends_with :: "string \<Rightarrow> string \<Rightarrow> bool" where
  "ends_with s suf \<longleftrightarrow> length suf \<le> length s \<and> drop (length s - length suf) s = suf"

section \<open>\<open>pd.concat(tables, ignore_index=True)\<close>\<close>

text \<open>The dtype of a column present in both frames: kept when they agree,
  \<open>object\<close> otherwise.\<close>

definition merge_dtype :: "dtype \<Rightarrow> dtype \<Rightarrow> dtype" where
  "merge_dtype a b = (if a = b then a else Object)"

text \<open>The dtype of a column missing from one frame, which is filled with NaN:
  booleans cannot hold NaN and become \<open>object\<close>.\<close>

definition fill_dtype :: "dtype \<Rightarrow> dtype" where
  "fill_dtype d = (if d = Boolean then Object else d)"

definition dtype_in :: "table \<Rightarrow> string \<Rightarrow> dtype option" where
  "dtype_in t n = map_option col_dtype (map_of t n)"

definition joined_dtype :: "dtype option \<Rightarrow> dtype option \<Rightarrow> dtype" where
  "joined_dtype a b =
     (case (a, b) of
        (Some x, Some y) \<Rightarrow> merge_dtype x y
      | (Some x, None) \<Rightarrow> fill_dtype x
      | (None, Some y) \<Rightarrow> fill_dtype y
      | (None, None) \<Rightarrow> Object)"

definition cells_or_na :: "table \<Rightarrow> string \<Rightarrow> cell list" where
  "cells_or_na t n = (case map_of t n of Some c \<Rightarrow> col_cells c | None \<Rightarrow> replicate (nrows t) NA)"

text \<open>Frames with the same column labels are stacked column by column.\<close>

definition concat_aligned :: "table \<Rightarrow> table \<Rightarrow> table" where
  "concat_aligned t1 t2 =
     map2 (\<lambda>(n, c) (_, d). (n, \<lparr>col_dtype = merge_dtype (col_dtype c) (col_dtype d),
                                col_cells = col_cells c @ col_cells d\<rparr>)) t1 t2"

text \<open>Otherwise the columns are the union of the labels, in order of first
  appearance, each filled with NaN where a frame lacks it.\<close>

definition concat_by_name :: "table \<Rightarrow> table \<Rightarrow> table" where
  "concat_by_name t1 t2 =
     map (\<lambda>n. (n, \<lparr>col_dtype = joined_dtype (dtype_in t1 n) (dtype_in t2 n),
                   col_cells = cells_or_na t1 n @ cells_or_na t2 n\<rparr>))
       (remdups (columns t1 @ columns t2))"

text \<open>Reindexing on a repeated label raises (\<open>InvalidIndexError\<close>): \<open>None\<close>.\<close>

definition concat2 :: "table \<Rightarrow> table \<Rightarrow> table option" where
  "concat2 t1 t2 =
     (if columns t1 = columns t2 then Some (concat_aligned t1 t2)
      else if distinct (columns t1) \<and> distinct (columns t2) then Some (concat_by_name t1 t2)
      else None)"

fun pd_concat :: "table list \<Rightarrow> table option" where
  "pd_concat [] = None"
| "pd_concat [t] = Some t"
| "pd_concat (t1 # t2 # ts) = (case concat2 t1 t2 of None \<Rightarrow> None | Some t \<Rightarrow> pd_concat (t # ts))"

section \<open>The loader\<close>

text \<open>Lines 19--32: every exception of the PDF branch gives an empty frame.\<close>

definition load_pdf :: "readers \<Rightarrow> string \<Rightarrow> table" where
  "load_pdf rd content =
     (case read_pdf rd content of
        Inl _ \<Rightarrow> []
      | Inr tables \<Rightarrow> (if tables = [] then [] else (case pd_concat tables of None \<Rightarrow> [] | Some df \<Rightarrow> df)))"

definition upload_filename :: "upload \<Rightarrow> string" where
  "upload_filename u = (case up_filename u of Some f \<Rightarrow> if f = [] then up_name u else f | None \<Rightarrow> up_name u)"

definition load_file :: "readers \<Rightarrow> upload \<Rightarrow> py_error + table" where
  "load_file rd u =
     (let filename = py_lower (upload_filename u); content = up_content u in
      if ends_with filename ''.csv'' then read_csv rd content
      else if ends_with filename ''.xls'' \<or> ends_with filename ''.xlsx'' then read_excel rd content
      else if ends_with filename ''.pdf'' then Inr (load_pdf rd content)
      else Inl (ValueError ''Unsupported file type. Allowed: .csv, .xls, .xlsx, .pdf''))"

section \<open>Lemmas on names\<close>

lemma ends_with_shorter:
  assumes "ends_with s a" "ends_with s b" "length a \<le> length b"
  shows "ends_with b a"
proof -
  have b: "drop (length s - length b) s = b" and lb: "length b \<le> length s"
    using assms(2) by (simp_all add: ends_with_def)
  have "drop (length b - length a) b = drop (length b - length a) (drop (length s - length b) s)"
    by (simp only: b)
  also have "\<dots> = drop (length b - length a + (length s - length b)) s"
    by (simp only: drop_drop)
  also have "length b - length a + (length s - length b) = length s - length a"
    using assms(3) lb by simp
  finally show ?thesis
    using assms(1,3) by (simp add: ends_with_def)
qed

lemma ends_with_pdf_only:
  "ends_with s ''.pdf'' \<Longrightarrow>
     \<not> ends_with s ''.csv'' \<and> \<not> ends_with s ''.xls'' \<and> \<not> ends_with s ''.xlsx''"
  using ends_with_shorter [of s "''.csv''" "''.pdf''"] ends_with_shorter [of s "''.xls''" "''.pdf''"]
    ends_with_shorter [of s "''.pdf''" "''.xlsx''"]
  by (auto simp: ends_with_def)

section \<open>Lemmas on \<open>pd.concat\<close>\<close>

lemma fits_merge_dtype:
  "cell_fits d x \<Longrightarrow> cell_fits (merge_dtype d e) x \<and> cell_fits (merge_dtype e d) x"
  by (simp add: merge_dtype_def)

lemma fits_fill_dtype: "cell_fits d x \<Longrightarrow> cell_fits (fill_dtype d) x"
  by (simp add: fill_dtype_def)

lemma NA_fits_fill_dtype [simp]: "cell_fits (fill_dtype d) NA"
  by (cases d) (simp_all add: fill_dtype_def)

lemma wf_table_member:
  "wf_table t \<Longrightarrow> map_of t n = Some c \<Longrightarrow> wf_column c \<and> length (col_cells c) = nrows t"
  by (auto simp: wf_table_def dest!: map_of_SomeD)

lemma length_cells_or_na:
  "wf_table t \<Longrightarrow> length (cells_or_na t n) = nrows t"
  by (auto simp: cells_or_na_def wf_table_member split: option.splits)

lemma fits_cells_or_na:
  assumes "wf_table t" "x \<in> set (cells_or_na t n)"
  shows "(\<exists>d. dtype_in t n = Some d \<and> cell_fits d x) \<or> (dtype_in t n = None \<and> x = NA)"
  using assms wf_table_member [OF assms(1)]
  by (auto simp: cells_or_na_def dtype_in_def wf_column_def split: option.splits)

lemma fits_joined_dtype:
  assumes "(\<exists>d. a = Some d \<and> cell_fits d x) \<or> (a = None \<and> x = NA)"
  shows "cell_fits (joined_dtype a b) x \<and> cell_fits (joined_dtype b a) x"
  using assms
  by (auto simp: joined_dtype_def fits_merge_dtype fits_fill_dtype split: option.splits)

text \<open>A table whose labels are distinct and whose columns all fit their
  dtype and have \<open>N\<close> cells is well formed with \<open>N\<close> rows.\<close>

lemma wf_table_intro:
  assumes "distinct (columns r)" "\<forall>(n, c) \<in> set r. wf_column c \<and> length (col_cells c) = N"
    "r = [] \<Longrightarrow> N = 0"
  shows "wf_table r \<and> nrows r = N"
proof -
  have "nrows r = N"
  proof (cases r)
    case Nil
    then show ?thesis using assms(3) by (simp add: nrows_def)
  next
    case (Cons p r')
    then show ?thesis using assms(2) by (cases p) (simp add: nrows_def)
  qed
  with assms show ?thesis by (simp add: wf_table_def)
qed

lemma concat_by_name_wf:
  assumes "wf_table t1" "wf_table t2"
  shows "wf_table (concat_by_name t1 t2) \<and> nrows (concat_by_name t1 t2) = nrows t1 + nrows t2
    \<and> set (columns (concat_by_name t1 t2)) = set (columns t1) \<union> set (columns t2)"
proof -
  let ?r = "concat_by_name t1 t2"
  have cols: "columns ?r = remdups (columns t1 @ columns t2)"
    by (simp add: concat_by_name_def columns_def comp_def)
  have col: "wf_column c \<and> length (col_cells c) = nrows t1 + nrows t2" if "(n, c) \<in> set ?r" for n c
  proof -
    have c: "c = \<lparr>col_dtype = joined_dtype (dtype_in t1 n) (dtype_in t2 n),
                  col_cells = cells_or_na t1 n @ cells_or_na t2 n\<rparr>"
      using that by (auto simp: concat_by_name_def)
    have "cell_fits (joined_dtype (dtype_in t1 n) (dtype_in t2 n)) x"
      if "x \<in> set (cells_or_na t1 n @ cells_or_na t2 n)" for x
      using that fits_joined_dtype fits_cells_or_na [OF assms(1)] fits_cells_or_na [OF assms(2)]
      by auto
    then show ?thesis
      by (simp add: c wf_column_def length_cells_or_na assms)
  qed
  have empty: "nrows t1 + nrows t2 = 0" if "?r = []"
  proof -
    have "t1 = [] \<and> t2 = []" using that cols by (simp add: columns_def)
    then show ?thesis by (simp add: nrows_def)
  qed
  have "wf_table ?r \<and> nrows ?r = nrows t1 + nrows t2"
    using col empty by (intro wf_table_intro) (auto simp: cols)
  then show ?thesis by (simp add: cols)
qed

lemma concat_aligned_cols:
  "columns t1 = columns t2 \<Longrightarrow>
     columns (concat_aligned t1 t2) = columns t1
   \<and> (\<forall>(n, c) \<in> set (concat_aligned t1 t2). \<exists>c1 c2. (n, c1) \<in> set t1 \<and> (n, c2) \<in> set t2
        \<and> c = \<lparr>col_dtype = merge_dtype (col_dtype c1) (col_dtype c2), col_cells = col_cells c1 @ col_cells c2\<rparr>)"
proof (induction t1 arbitrary: t2)
  case Nil
  then show ?case by (simp add: concat_aligned_def columns_def)
next
  case (Cons p t1)
  obtain n c where p: "p = (n, c)" by (cases p)
  obtain q t2' where t2: "t2 = q # t2'" using Cons.prems by (cases t2) (auto simp: columns_def)
  obtain m d where q: "q = (m, d)" by (cases q)
  have nm: "m = n" and cols: "columns t1 = columns t2'"
    using Cons.prems by (simp_all add: t2 p q columns_def)
  have step: "concat_aligned (p # t1) t2 = (n, \<lparr>col_dtype = merge_dtype (col_dtype c) (col_dtype d),
      col_cells = col_cells c @ col_cells d\<rparr>) # concat_aligned t1 t2'"
    by (simp add: concat_aligned_def t2 p q)
  note IH = Cons.IH [OF cols]
  show ?case
  proof
    show "columns (concat_aligned (p # t1) t2) = columns (p # t1)"
      using IH unfolding step by (simp add: p columns_def)
    show "\<forall>(k, e) \<in> set (concat_aligned (p # t1) t2). \<exists>c1 c2. (k, c1) \<in> set (p # t1) \<and> (k, c2) \<in> set t2
        \<and> e = \<lparr>col_dtype = merge_dtype (col_dtype c1) (col_dtype c2), col_cells = col_cells c1 @ col_cells c2\<rparr>"
    proof (intro ballI, clarify)
      fix k e assume "(k, e) \<in> set (concat_aligned (p # t1) t2)"
      then have "(k, e) = (n, \<lparr>col_dtype = merge_dtype (col_dtype c) (col_dtype d),
          col_cells = col_cells c @ col_cells d\<rparr>) \<or> (k, e) \<in> set (concat_aligned t1 t2')"
        unfolding step by simp
      then show "\<exists>c1 c2. (k, c1) \<in> set (p # t1) \<and> (k, c2) \<in> set t2
        \<and> e = \<lparr>col_dtype = merge_dtype (col_dtype c1) (col_dtype c2), col_cells = col_cells c1 @ col_cells c2\<rparr>"
      proof
        assume "(k, e) = (n, \<lparr>col_dtype = merge_dtype (col_dtype c) (col_dtype d),
          col_cells = col_cells c @ col_cells d\<rparr>)"
        moreover have "(n, c) \<in> set (p # t1)" "(n, d) \<in> set t2" by (simp_all add: p t2 q nm)
        ultimately show ?thesis by blast
      next
        assume "(k, e) \<in> set (concat_aligned t1 t2')"
        then obtain c1 c2 where "(k, c1) \<in> set t1" "(k, c2) \<in> set t2'"
          "e = \<lparr>col_dtype = merge_dtype (col_dtype c1) (col_dtype c2), col_cells = col_cells c1 @ col_cells c2\<rparr>"
          using IH by blast
        then show ?thesis unfolding t2 by (intro exI [of _ c1] exI [of _ c2]) simp
      qed
    qed
  qed
qed

lemma wf_table_col:
  "wf_table t \<Longrightarrow> (n, c) \<in> set t \<Longrightarrow> wf_column c \<and> length (col_cells c) = nrows t"
  unfolding wf_table_def by fast

lemma wf_column_append_merge:
  assumes "wf_column c1" "wf_column c2"
  shows "wf_column \<lparr>col_dtype = merge_dtype (col_dtype c1) (col_dtype c2), col_cells = col_cells c1 @ col_cells c2\<rparr>"
proof -
  have "cell_fits (merge_dtype (col_dtype c1) (col_dtype c2)) x" if "x \<in> set (col_cells c1 @ col_cells c2)" for x
  proof -
    from that have "x \<in> set (col_cells c1) \<or> x \<in> set (col_cells c2)" by simp
    then show ?thesis using assms fits_merge_dtype unfolding wf_column_def by blast
  qed
  then show ?thesis by (simp add: wf_column_def)
qed

lemma concat_aligned_wf:
  assumes "wf_table t1" "wf_table t2" "columns t1 = columns t2"
  shows "wf_table (concat_aligned t1 t2) \<and> nrows (concat_aligned t1 t2) = nrows t1 + nrows t2
    \<and> set (columns (concat_aligned t1 t2)) = set (columns t1) \<union> set (columns t2)"
proof -
  let ?r = "concat_aligned t1 t2"
  note ca = concat_aligned_cols [OF assms(3)]
  have col: "wf_column c \<and> length (col_cells c) = nrows t1 + nrows t2" if "(n, c) \<in> set ?r" for n c
  proof -
    have "\<exists>c1 c2. (n, c1) \<in> set t1 \<and> (n, c2) \<in> set t2
        \<and> c = \<lparr>col_dtype = merge_dtype (col_dtype c1) (col_dtype c2), col_cells = col_cells c1 @ col_cells c2\<rparr>"
      using bspec [OF conjunct2 [OF ca] that] by simp
    then obtain c1 c2 where in1: "(n, c1) \<in> set t1" and in2: "(n, c2) \<in> set t2"
      and c: "c = \<lparr>col_dtype = merge_dtype (col_dtype c1) (col_dtype c2), col_cells = col_cells c1 @ col_cells c2\<rparr>"
      by blast
    have w1: "wf_column c1 \<and> length (col_cells c1) = nrows t1" by (rule wf_table_col [OF assms(1) in1])
    have w2: "wf_column c2 \<and> length (col_cells c2) = nrows t2" by (rule wf_table_col [OF assms(2) in2])
    show ?thesis
      unfolding c using wf_column_append_merge [of c1 c2] w1 w2 by simp
  qed
  have empty: "nrows t1 + nrows t2 = 0" if "?r = []"
  proof -
    have "columns t1 = []" using that conjunct1 [OF ca] by (simp add: columns_def)
    then have "t1 = [] \<and> t2 = []" using assms(3) by (simp add: columns_def)
    then show ?thesis by (simp add: nrows_def)
  qed
  have d: "distinct (columns ?r)" using conjunct1 [OF ca] assms(1) by (simp add: wf_table_def)
  have "\<forall>(n, c) \<in> set ?r. wf_column c \<and> length (col_cells c) = nrows t1 + nrows t2"
    using col by blast
  then have "wf_table ?r \<and> nrows ?r = nrows t1 + nrows t2"
    using wf_table_intro [OF d _ empty] by blast
  then show ?thesis using conjunct1 [OF ca] assms(3) by simp
qed

lemma concat2_wf:
  assumes "wf_table t1" "wf_table t2"
  shows "\<exists>r. concat2 t1 t2 = Some r \<and> wf_table r \<and> nrows r = nrows t1 + nrows t2
    \<and> set (columns r) = set (columns t1) \<union> set (columns t2)"
proof (cases "columns t1 = columns t2")
  case True
  then show ?thesis using concat_aligned_wf [OF assms True] by (simp add: concat2_def)
next
  case False
  have "distinct (columns t1)" "distinct (columns t2)"
    using assms by (simp_all add: wf_table_def)
  with False show ?thesis using concat_by_name_wf [OF assms] by (simp add: concat2_def)
qed

lemma pd_concat_wf_aux:
  "ts \<noteq> [] \<Longrightarrow> (\<forall>t \<in> set ts. wf_table t) \<Longrightarrow>
     \<exists>r. pd_concat ts = Some r \<and> wf_table r \<and> nrows r = sum_list (map nrows ts)
       \<and> set (columns r) = (\<Union>t \<in> set ts. set (columns t))"
proof (induction ts rule: pd_concat.induct)
  case 1
  then show ?case by simp
next
  case (2 t)
  then show ?case by simp
next
  case (3 t1 t2 ts)
  have w12: "wf_table t1" "wf_table t2" using "3.prems"(2) by simp_all
  obtain t where t: "concat2 t1 t2 = Some t" "wf_table t" "nrows t = nrows t1 + nrows t2"
    "set (columns t) = set (columns t1) \<union> set (columns t2)"
    using concat2_wf [OF w12] by blast
  have "\<forall>x \<in> set (t # ts). wf_table x" using t(2) "3.prems"(2) by simp
  then obtain r where r: "pd_concat (t # ts) = Some r" "wf_table r"
    "nrows r = sum_list (map nrows (t # ts))" "set (columns r) = (\<Union>x \<in> set (t # ts). set (columns x))"
    using "3.IH" [OF t(1)] by blast
  have "pd_concat (t1 # t2 # ts) = Some r" using t(1) r(1) by simp
  moreover have "nrows r = sum_list (map nrows (t1 # t2 # ts))" using r(3) t(3) by simp
  moreover have "set (columns r) = (\<Union>x \<in> set (t1 # t2 # ts). set (columns x))"
    using r(4) t(4) by (simp add: Un_assoc)
  ultimately show ?case using r(2) by blast
qed

section \<open>Properties of the loader\<close>

text \<open>C15: the loader rejects an upload with the unsupported-type error,
  whatever the parsers do, exactly when its lower-cased file name ends in none
  of \<open>.csv\<close>, \<open>.xls\<close>, \<open>.xlsx\<close>, \<open>.pdf\<close>; the test ignores case.\<close>

theorem load_file_rejects_iff:
  "(\<forall>rd. load_file rd u = Inl (ValueError ''Unsupported file type. Allowed: .csv, .xls, .xlsx, .pdf''))
   \<longleftrightarrow> \<not> (ends_with (py_lower (upload_filename u)) ''.csv'' \<or> ends_with (py_lower (upload_filename u)) ''.xls''
         \<or> ends_with (py_lower (upload_filename u)) ''.xlsx'' \<or> ends_with (py_lower (upload_filename u)) ''.pdf'')"
proof
  assume all: "\<forall>rd. load_file rd u = Inl (ValueError ''Unsupported file type. Allowed: .csv, .xls, .xlsx, .pdf'')"
  have "\<not> isl (load_file \<lparr>read_csv = \<lambda>_. Inr [], read_excel = \<lambda>_. Inr [], read_pdf = \<lambda>_. Inr []\<rparr> u)"
    if "ends_with (py_lower (upload_filename u)) ''.csv'' \<or> ends_with (py_lower (upload_filename u)) ''.xls''
         \<or> ends_with (py_lower (upload_filename u)) ''.xlsx'' \<or> ends_with (py_lower (upload_filename u)) ''.pdf''"
    using that unfolding load_file_def Let_def by (simp split: if_split) blast
  with all show "\<not> (ends_with (py_lower (upload_filename u)) ''.csv'' \<or> ends_with (py_lower (upload_filename u)) ''.xls''
         \<or> ends_with (py_lower (upload_filename u)) ''.xlsx'' \<or> ends_with (py_lower (upload_filename u)) ''.pdf'')"
    by (metis isl_def)
next
  assume "\<not> (ends_with (py_lower (upload_filename u)) ''.csv'' \<or> ends_with (py_lower (upload_filename u)) ''.xls''
         \<or> ends_with (py_lower (upload_filename u)) ''.xlsx'' \<or> ends_with (py_lower (upload_filename u)) ''.pdf'')"
  then show "\<forall>rd. load_file rd u = Inl (ValueError ''Unsupported file type. Allowed: .csv, .xls, .xlsx, .pdf'')"
    by (simp add: load_file_def)
qed

text \<open>C16: an upload named \<open>*.pdf\<close> never fails: when tabula raises (or is
  missing), the result is an empty DataFrame; when tabula returns well-formed
  tables, the result is a well-formed table with all their rows.\<close>

theorem load_file_pdf_total:
  assumes "ends_with (py_lower (upload_filename u)) ''.pdf''"
  shows "(\<forall>e. read_pdf rd (up_content u) = Inl e \<longrightarrow> load_file rd u = Inr [])
    \<and> (\<forall>ts. read_pdf rd (up_content u) = Inr ts \<longrightarrow> (\<forall>t \<in> set ts. wf_table t) \<longrightarrow>
         (\<exists>df. load_file rd u = Inr df \<and> wf_table df \<and> nrows df = sum_list (map nrows ts)))"
proof -
  have lf: "load_file rd u = Inr (load_pdf rd (up_content u))"
    using ends_with_pdf_only [OF assms] assms by (simp add: load_file_def)
  have err: "load_file rd u = Inr []" if "read_pdf rd (up_content u) = Inl e" for e
    using lf that by (simp add: load_pdf_def)
  have ok: "\<exists>df. load_file rd u = Inr df \<and> wf_table df \<and> nrows df = sum_list (map nrows ts)"
    if rd: "read_pdf rd (up_content u) = Inr ts" and wf: "\<forall>t \<in> set ts. wf_table t" for ts
  proof (cases "ts = []")
    case True
    then have "load_file rd u = Inr []" using lf rd by (simp add: load_pdf_def)
    then show ?thesis using True by (simp add: wf_table_def columns_def nrows_def)
  next
    case False
    obtain r where r: "pd_concat ts = Some r" "wf_table r" "nrows r = sum_list (map nrows ts)"
      using pd_concat_wf_aux [OF False wf] by blast
    then have "load_file rd u = Inr r" using lf rd False by (simp add: load_pdf_def)
    then show ?thesis using r by blast
  qed
  show ?thesis using err ok by blast
qed

text \<open>Witnesses of the loader's properties.\<close>

theorem load_file_rejects_iff_witness:
  "\<forall>rd. load_file rd \<lparr>up_filename = Some ''notes.TXT'', up_name = [], up_content = ''x''\<rparr>
     = Inl (ValueError ''Unsupported file type. Allowed: .csv, .xls, .xlsx, .pdf'')"
  using load_file_rejects_iff [of "\<lparr>up_filename = Some ''notes.TXT'', up_name = [], up_content = ''x''\<rparr>"]
  by (simp add: upload_filename_def py_lower_def lower_char_def ends_with_def)

theorem load_file_pdf_total_witness:
  "ends_with (py_lower (upload_filename \<lparr>up_filename = Some ''Scan.PDF'', up_name = [], up_content = ''%PDF''\<rparr>)) ''.pdf''
   \<and> load_file \<lparr>read_csv = \<lambda>_. Inr [], read_excel = \<lambda>_. Inr [], read_pdf = \<lambda>_. Inl (ValueError ''no java'')\<rparr>
       \<lparr>up_filename = Some ''Scan.PDF'', up_name = [], up_content = ''%PDF''\<rparr> = Inr []"
proof -
  have h: "ends_with (py_lower (upload_filename \<lparr>up_filename = Some ''Scan.PDF'', up_name = [], up_content = ''%PDF''\<rparr>)) ''.pdf''"
    by code_simp
  show ?thesis
    using load_file_pdf_total [OF h, of "\<lparr>read_csv = \<lambda>_. Inr [], read_excel = \<lambda>_. Inr [], read_pdf = \<lambda>_. Inl (ValueError ''no java'')\<rparr>"] h
    by simp
qed

end
