(* ===== verification/Agent.thy ===== *)
theory Agent
  imports Loader Insights
begin

text \<open>
  The chat agent of \<open>src/backend/agent/gemini_agent.py\<close>: the text clean-up
  \<open>_normalize\<close> (lines 31--35), the file reader \<open>read_any_file_to_text\<close>
  (lines 37--44) and the request handler \<open>analyze_text_or_table\<close>
  (lines 46--116) with its greeting shortcut, its direct sum/mean answer for
  uploaded tables and its prompt to the language model.  The model call
  \<open>model.generate_content(prompt).text\<close>, the CSV printer \<open>to_csv\<close> and the
  number format \<open>{x:,}\<close> are library code: they are the fields of a record
  \<open>agent_env\<close>.  Strings are byte strings (UTF-8); whitespace and
  \<open>str.lower\<close> are modelled on their ASCII part.
\<close>

section \<open>Whitespace and \<open>_normalize\<close>\<close>

text \<open>\<open>str.isspace\<close> and the \<open>\s\<close> of \<open>re\<close> on ASCII: tab, line feed,
  vertical tab, form feed, carriage return, the separators 28--31, space.\<close>

definition py_space :: "char \<Rightarrow> bool" where
  "py_space c \<longleftrightarrow> (9 :: nat) \<le> of_char c \<and> of_char c \<le> (13 :: nat) \<or> (28 :: nat) \<le> of_char c \<and> of_char c \<le> (32 :: nat)"

text \<open>\<open>str.strip()\<close>.\<close>

definition py_strip :: "string \<Rightarrow> string" where
  "py_strip s = rev (dropWhile py_space (rev (dropWhile py_space s)))"

text \<open>\<open>re.sub(r"\s+", " ", text)\<close>: every maximal run of whitespace becomes
  one space; the flag says whether the previous character was whitespace.\<close>

fun squeeze :: "bool \<Rightarrow> string \<Rightarrow> string" where
  "squeeze r [] = []"
| "squeeze r (c # cs) =
     (if py_space c then (if r then squeeze True cs else CHR '' '' # squeeze True cs)
      else c # squeeze False cs)"

text \<open>\<open>.replace("\r", " ").replace("\n", " ")\<close>.\<close>

definition replace_crlf :: "string \<Rightarrow> string" where
  "replace_crlf s = map (\<lambda>c. if c = CHR 0x0D \<or> c = CHR 0x0A then CHR '' '' else c) s"

definition normalize :: "string option \<Rightarrow> string" where
  "normalize text =
     (let t = (case text of None \<Rightarrow> [] | Some s \<Rightarrow> s)
      in squeeze False (py_strip (replace_crlf t)))"

text \<open>The reference: \<open>str.split()\<close> with no separator, the loop that skips
  whitespace and takes the next word.  \<open>' '.join(text.split())\<close> is the
  idiom \<open>_normalize\<close> is meant to compute.\<close>

function split_ws :: "string \<Rightarrow> string list" where
  "split_ws s =
     (let s' = dropWhile py_space s
      in if s' = [] then []
         else takeWhile (\<lambda>c. \<not> py_space c) s' # split_ws (dropWhile (\<lambda>c. \<not> py_space c) s'))"
  by pat_completeness auto
termination
proof (relation "measure length")
  fix s s'
  assume s': "s' = dropWhile py_space s" and ne: "s' \<noteq> []"
  have "\<not> py_space (hd s')"
    using ne s' by (metis dropWhile_eq_Nil_conv hd_dropWhile)
  then have "length (dropWhile (\<lambda>c. \<not> py_space c) s') < length s'"
    using ne by (cases s') (auto simp: less_Suc_eq_le length_dropWhile_le)
  moreover have "length s' \<le> length s"
    using s' by (simp add: length_dropWhile_le)
  ultimately show "(dropWhile (\<lambda>c. \<not> py_space c) s', s) \<in> measure length"
    by simp
qed simp

text \<open>\<open>' '.join(words)\<close>.\<close>

fun join_words :: "string list \<Rightarrow> string" where
  "join_words [] = []"
| "join_words [w] = w"
| "join_words (w # ws) = w @ CHR '' '' # join_words ws"

section \<open>The request handler\<close>

definition nl :: string where
  "nl = [CHR 0x0A]"

text \<open>\<open>sep.join(words)\<close>.\<close>

fun join_with :: "string \<Rightarrow> string list \<Rightarrow> string" where
  "join_with sep [] = []"
| "join_with sep [w] = w"
| "join_with sep (w # ws) = w @ sep @ join_with sep ws"

text \<open>\<open>w in s\<close> for strings: \<open>w\<close> occurs in \<open>s\<close> as a substring.\<close>

fun contains_sub :: "string \<Rightarrow> string \<Rightarrow> bool" where
  "contains_sub w [] \<longleftrightarrow> w = []"
| "contains_sub w (c # cs) \<longleftrightarrow> take (length w) (c # cs) = w \<or> contains_sub w cs"

definition greetings :: "string list" where
  "greetings = [''hi'', ''hello'', ''hey'', ''hola'', ''namaste'', ''hii'', ''hai'']"

text \<open>The reply of line 51; the emoji is written as its UTF-8 bytes.\<close>

definition greeting_reply :: string where
  "greeting_reply = ''Hello! '' @ [CHR 0xF0, CHR 0x9F, CHR 0x91, CHR 0x8B] @ '' How can I help you today?''"

text \<open>Line 50: \<open>user_input_text and user_input_text.lower().strip() in greetings\<close>.\<close>

definition is_greeting :: "string option \<Rightarrow> bool" where
  "is_greeting text =
     (case text of None \<Rightarrow> False | Some s \<Rightarrow> s \<noteq> [] \<and> py_strip (py_lower s) \<in> set greetings)"

text \<open>The library calls of the handler: the two pandas readers, \<open>df.to_csv(index=False)\<close>,
  the format \<open>{x:,}\<close> of a float (\<open>None\<close> for NaN), and
  \<open>genai.GenerativeModel(MODEL_NAME).generate_content(prompt).text\<close>, which
  either raises or gives the response text.\<close>

record agent_env =
  ag_readers :: readers
  to_csv :: "table \<Rightarrow> string"
  fmt :: "real option \<Rightarrow> string"
  generate :: "string \<Rightarrow> py_error + string"

text \<open>\<open>read_any_file_to_text\<close> (lines 37--44): the extension test lower-cases the name.\<close>

definition read_any_file_to_text :: "agent_env \<Rightarrow> string \<Rightarrow> string \<Rightarrow> py_error + string" where
  "read_any_file_to_text env filename content =
     (if ends_with (py_lower filename) ''.csv'' then
        (case read_csv (ag_readers env) content of Inl e \<Rightarrow> Inl e | Inr df \<Rightarrow> Inr (to_csv env df))
      else if ends_with (py_lower filename) ''.xls'' \<or> ends_with (py_lower filename) ''.xlsx'' then
        (case read_excel (ag_readers env) content of Inl e \<Rightarrow> Inl e | Inr df \<Rightarrow> Inr (to_csv env df))
      else Inr [])"

definition stat_keywords :: "string list" where
  "stat_keywords = [''sum'', ''total'', ''average'', ''mean'']"

text \<open>One line of the numeric block (lines 71--80): \<open>df[c].sum()\<close> and
  \<open>df[c].mean()\<close> skip missing cells; the mean of no value is NaN.  A label
  that names no single column makes \<open>df[c]\<close> fail.\<close>

fun numeric_lines :: "agent_env \<Rightarrow> table \<Rightarrow> string list \<Rightarrow> py_error + string list" where
  "numeric_lines env df [] = Inr []"
| "numeric_lines env df (c # cs) =
     (case df_get df c of
        None \<Rightarrow> Inl (KeyError c)
      | Some col \<Rightarrow>
          (let vs = numeric_values (col_cells col);
               line = ''- **'' @ c @ ''** '' @ [CHR 0xE2, CHR 0x86, CHR 0x92] @ '' total = ''
                 @ fmt env (Some (sum_list vs)) @ '' | average = ''
                 @ fmt env (if vs = [] then None else Some (mean vs))
           in case numeric_lines env df cs of Inl e \<Rightarrow> Inl e | Inr ls \<Rightarrow> Inr (line # ls)))"

definition numeric_prompt :: "string \<Rightarrow> string" where
  "numeric_prompt block =
     ''You are a short data analyst.'' @ nl @ nl @ ''Here is a numeric summary:'' @ nl @ nl @ block
     @ nl @ nl @ ''Give 2 bullet insights maximum. very short.''"

text \<open>The body of the \<open>try\<close> (lines 59--96).  \<open>Inl\<close>: an exception, which the
  bare \<open>except\<close> swallows; \<open>Inr None\<close>: no direct answer; \<open>Inr (Some r)\<close>: the
  answer returned.  Unlike \<open>read_any_file_to_text\<close>, the extension test here
  does not lower-case the name.\<close>

definition direct_answer ::
  "agent_env \<Rightarrow> string \<Rightarrow> string \<Rightarrow> string option \<Rightarrow> py_error + string option" where
  "direct_answer env file_name file_bytes text =
     (let df = (if ends_with file_name ''.csv'' then Some (read_csv (ag_readers env) file_bytes)
                else if ends_with file_name ''.xlsx'' \<or> ends_with file_name ''.xls''
                then Some (read_excel (ag_readers env) file_bytes) else None)
      in case df of
           None \<Rightarrow> Inr None
         | Some (Inl e) \<Rightarrow> Inl e
         | Some (Inr d) \<Rightarrow>
             (case text of
                None \<Rightarrow> Inr None
              | Some t \<Rightarrow>
                  if t = [] \<or> \<not> (\<exists>w \<in> set stat_keywords. contains_sub w (py_lower t)) then Inr None
                  else if numeric_cols d = [] then Inr None
                  else (case numeric_lines env d (numeric_cols d) of
                          Inl e \<Rightarrow> Inl e
                        | Inr ls \<Rightarrow>
                            (let block = ''**Numeric Summary**'' @ nl @ join_with nl ls in
                             case generate env (numeric_prompt block) of
                               Inl e \<Rightarrow> Inl e
                             | Inr r \<Rightarrow> Inr (Some (block @ nl @ nl @ ''**Insights**'' @ nl @ py_strip r))))))"

definition system_instructions :: string where
  "system_instructions =
     ''You are a friendly multilingual AI + Data Analyst chatbot. ''
     @ ''If user chats casually respond casually. ''
     @ ''If user asks data insights, analyze data. ''
     @ ''If user asks sum / average / mean on file, calculate directly. ''
     @ ''always be short, clear, simple.''"

definition agent_prompt :: "string \<Rightarrow> string" where
  "agent_prompt normalized = system_instructions @ nl @ nl @ ''USER MESSAGE:'' @ nl @ normalized @ nl"

text \<open>Lines 53--104: the text handed to the model, or the direct answer.\<close>

datatype agent_input = Answer string | Combined string

definition agent_input_of ::
  "agent_env \<Rightarrow> string option \<Rightarrow> string option \<Rightarrow> string option \<Rightarrow> py_error + agent_input" where
  "agent_input_of env text file_name file_bytes =
     (let user_text = (case text of None \<Rightarrow> [] | Some s \<Rightarrow> s) in
      case (file_name, file_bytes) of
        (Some n, Some b) \<Rightarrow>
          if n = [] \<or> b = [] then Inr (Combined user_text)
          else (case read_any_file_to_text env n b of
                  Inl e \<Rightarrow> Inl e
                | Inr doc \<Rightarrow>
                    (case direct_answer env n b text of
                       Inr (Some r) \<Rightarrow> Inr (Answer r)
                     | _ \<Rightarrow> Inr (Combined (user_text @ nl @ nl @ doc))))
      | _ \<Rightarrow> Inr (Combined user_text))"

definition analyze_text_or_table ::
  "agent_env \<Rightarrow> string option \<Rightarrow> string option \<Rightarrow> string option \<Rightarrow> py_error + string" where
  "analyze_text_or_table env text file_name file_bytes =
     (if is_greeting text then Inr greeting_reply
      else (case agent_input_of env text file_name file_bytes of
              Inl e \<Rightarrow> Inl e
            | Inr (Answer r) \<Rightarrow> Inr r
            | Inr (Combined combined) \<Rightarrow>
                (case generate env (agent_prompt (normalize (Some combined))) of
                   Inl e \<Rightarrow> Inl e
                 | Inr r \<Rightarrow> Inr (if r = [] then ''No response'' else py_strip r))))"

declare split_ws.simps [simp del]

section \<open>Lemmas on whitespace\<close>

lemma split_ws_Nil: "dropWhile py_space s = [] \<Longrightarrow> split_ws s = []"
  by (subst split_ws.simps) simp

lemma split_ws_Cons:
  "dropWhile py_space s \<noteq> [] \<Longrightarrow>
   split_ws s = takeWhile (\<lambda>c. \<not> py_space c) (dropWhile py_space s)
     # split_ws (dropWhile (\<lambda>c. \<not> py_space c) (dropWhile py_space s))"
  by (subst split_ws.simps) (simp add: Let_def)

lemma split_ws_Nil_iff: "split_ws s = [] \<longleftrightarrow> (\<forall>c \<in> set s. py_space c)"
  by (cases "dropWhile py_space s = []") (auto simp: split_ws_Nil split_ws_Cons dropWhile_eq_Nil_conv)

lemma hd_dropWhile_space:
  "dropWhile py_space s \<noteq> [] \<Longrightarrow> \<not> py_space (hd (dropWhile py_space s))"
  by (metis dropWhile_eq_Nil_conv hd_dropWhile)

lemma squeeze_word:
  "\<forall>c \<in> set w. \<not> py_space c \<Longrightarrow> w \<noteq> [] \<Longrightarrow> squeeze b (w @ t) = w @ squeeze False t"
proof (induction w arbitrary: b)
  case Nil
  then show ?case by simp
next
  case (Cons c w)
  then show ?case by (cases "w = []") simp_all
qed

lemma squeeze_run:
  "\<forall>c \<in> set r. py_space c \<Longrightarrow> r \<noteq> [] \<Longrightarrow>
   squeeze b (r @ t) = (if b then [] else [CHR '' '']) @ squeeze True t"
proof (induction r arbitrary: b)
  case Nil
  then show ?case by simp
next
  case (Cons c r)
  then show ?case by (cases "r = []") simp_all
qed

lemma squeeze_True_start: "\<not> py_space c \<Longrightarrow> squeeze True (c # t) = squeeze False (c # t)"
  by simp

text \<open>Stripping on the right, \<open>str.rstrip()\<close>.\<close>

lemma rstrip_append:
  "rev (dropWhile py_space (rev (x @ y))) =
     (if \<forall>c \<in> set y. py_space c then rev (dropWhile py_space (rev x)) else x @ rev (dropWhile py_space (rev y)))"
proof (cases "\<forall>c \<in> set y. py_space c")
  case True
  have "dropWhile py_space (rev y @ rev x) = dropWhile py_space (rev x)"
    by (rule dropWhile_append2) (use True in simp)
  then show ?thesis using True by simp
next
  case False
  then obtain c where "c \<in> set (rev y)" "\<not> py_space c" by auto
  then have "dropWhile py_space (rev y @ rev x) = dropWhile py_space (rev y) @ rev x"
    by (rule dropWhile_append1)
  then show ?thesis using False by auto
qed

lemma rstrip_nonspace_Cons:
  "\<not> py_space c \<Longrightarrow> rev (dropWhile py_space (rev (c # y))) = c # rev (dropWhile py_space (rev y))"
  using rstrip_append [of "[c]" y] by (auto simp: dropWhile_append2)

lemma rstrip_words:
  assumes "\<forall>c \<in> set w. \<not> py_space c"
  shows "rev (dropWhile py_space (rev w)) = w"
proof (cases "rev w")
  case Nil
  then show ?thesis by simp
next
  case (Cons a l)
  then have "a \<in> set w" by (metis list.set_intros(1) set_rev)
  then have "dropWhile py_space (rev w) = rev w" using assms Cons by simp
  then show ?thesis by simp
qed

lemma join_words_Cons: "ws \<noteq> [] \<Longrightarrow> join_words (w # ws) = w @ CHR '' '' # join_words ws"
  by (cases ws) simp_all

lemma squeeze_strip_split: "squeeze False (py_strip s) = join_words (split_ws s)"
proof (induction s rule: split_ws.induct)
  case (1 s)
  define s' where "s' = dropWhile py_space s"
  have strip: "py_strip s = rev (dropWhile py_space (rev s'))"
    by (simp add: py_strip_def s'_def)
  show ?case
  proof (cases "s' = []")
    case True
    have d: "dropWhile py_space s = []" using True by (simp only: s'_def)
    have "py_strip s = []" using strip True by simp
    then show ?thesis using split_ws_Nil [OF d] by simp
  next
    case False
    define w where "w = takeWhile (\<lambda>c. \<not> py_space c) s'"
    define rest where "rest = dropWhile (\<lambda>c. \<not> py_space c) s'"
    have s'wr: "s' = w @ rest" by (simp add: w_def rest_def)
    have wsp: "\<forall>c \<in> set w. \<not> py_space c" by (auto simp: w_def dest: set_takeWhileD)
    have wne: "w \<noteq> []"
      using False hd_dropWhile_space [of s] by (cases s') (auto simp: w_def s'_def)
    have split: "split_ws s = w # split_ws rest"
      using split_ws_Cons [of s] False by (simp add: s'_def w_def rest_def)
    have IH: "squeeze False (py_strip rest) = join_words (split_ws rest)"
      using "1.IH" [OF s'_def False] by (simp add: rest_def)
    show ?thesis
    proof (cases "split_ws rest = []")
      case True
      then have "\<forall>c \<in> set rest. py_space c" by (simp add: split_ws_Nil_iff)
      then have "py_strip s = w"
        using strip rstrip_append [of w rest] rstrip_words [OF wsp] by (simp add: s'wr)
      then show ?thesis
        using squeeze_word [OF wsp wne, of False "[]"] split True by simp
    next
      case restne: False
      define run where "run = takeWhile py_space rest"
      define r' where "r' = dropWhile py_space rest"
      have rr: "rest = run @ r'" by (simp add: run_def r'_def)
      have r'ne: "r' \<noteq> []" using restne by (simp add: r'_def split_ws_Nil_iff dropWhile_eq_Nil_conv)
      have rsp: "\<forall>c \<in> set run. py_space c" by (auto simp: run_def dest: set_takeWhileD)
      have "rest \<noteq> []" using rr r'ne by simp
      then have "py_space (hd rest)"
        by (metis rest_def dropWhile_eq_Nil_conv hd_dropWhile)
      then have runne: "run \<noteq> []" using \<open>rest \<noteq> []\<close> by (cases rest) (simp_all add: run_def)
      obtain c r'' where c: "r' = c # r''" and csp: "\<not> py_space c"
        using r'ne hd_dropWhile_space [of rest] by (cases r') (auto simp: r'_def)
      have notall: "\<not> (\<forall>x \<in> set r'. py_space x)" using c csp by simp
      define X where "X = rev (dropWhile py_space (rev r'))"
      have X: "X = c # rev (dropWhile py_space (rev r''))"
        unfolding X_def c by (rule rstrip_nonspace_Cons [OF csp])
      have "py_strip s = w @ run @ X"
        using strip rstrip_append [of "w @ run" r'] notall by (simp add: s'wr rr X_def)
      then have "squeeze False (py_strip s) = w @ CHR '' '' # squeeze True X"
        using squeeze_word [OF wsp wne] squeeze_run [OF rsp runne] by simp
      also have "squeeze True X = squeeze False X" by (simp add: X csp)
      also have "X = py_strip rest" by (simp add: py_strip_def X_def r'_def)
      finally show ?thesis using IH split join_words_Cons [OF restne] by simp
    qed
  qed
qed

lemma split_ws_map:
  assumes "\<forall>c. py_space (f c) = py_space c"
  shows "split_ws (map f s) = map (map f) (split_ws s)"
proof (induction s rule: split_ws.induct)
  case (1 s)
  have pf: "py_space \<circ> f = py_space" "(\<lambda>c. \<not> py_space c) \<circ> f = (\<lambda>c. \<not> py_space c)"
    using assms by (simp_all add: fun_eq_iff)
  define d where "d = dropWhile py_space s"
  have dw: "dropWhile py_space (map f s) = map f d"
    by (simp add: d_def dropWhile_map pf)
  show ?case
  proof (cases "d = []")
    case True
    then show ?thesis using dw split_ws_Nil [of s] split_ws_Nil [of "map f s"] by (simp add: d_def)
  next
    case False
    have ne': "dropWhile py_space (map f s) \<noteq> []" using dw False by simp
    have "split_ws (map f s) = takeWhile (\<lambda>c. \<not> py_space c) (map f d)
        # split_ws (dropWhile (\<lambda>c. \<not> py_space c) (map f d))"
      using split_ws_Cons [OF ne'] by (simp only: dw)
    also have "\<dots> = map f (takeWhile (\<lambda>c. \<not> py_space c) d)
        # split_ws (map f (dropWhile (\<lambda>c. \<not> py_space c) d))"
      by (simp only: takeWhile_map dropWhile_map pf)
    also have "\<dots> = map f (takeWhile (\<lambda>c. \<not> py_space c) d)
        # map (map f) (split_ws (dropWhile (\<lambda>c. \<not> py_space c) d))"
      using "1.IH" [OF d_def False] by (simp only:)
    also have "\<dots> = map (map f) (split_ws s)"
      using split_ws_Cons [of s] False by (simp add: d_def)
    finally show ?thesis .
  qed
qed

lemma split_ws_words:
  "w \<in> set (split_ws s) \<Longrightarrow> w \<noteq> [] \<and> (\<forall>c \<in> set w. \<not> py_space c)"
proof (induction s rule: split_ws.induct)
  case (1 s)
  define d where "d = dropWhile py_space s"
  show ?case
  proof (cases "d = []")
    case True
    then show ?thesis using "1.prems" split_ws_Nil [of s] by (simp add: d_def)
  next
    case False
    have ne: "dropWhile py_space s \<noteq> []" using False unfolding d_def .
    have "\<not> py_space (hd d)" unfolding d_def by (rule hd_dropWhile_space [OF ne])
    then have w0: "takeWhile (\<lambda>c. \<not> py_space c) d \<noteq> []" using False by (cases d) simp_all
    have "w = takeWhile (\<lambda>c. \<not> py_space c) d \<or> w \<in> set (split_ws (dropWhile (\<lambda>c. \<not> py_space c) d))"
      using "1.prems" split_ws_Cons [OF ne] by (simp add: d_def)
    then show ?thesis
    proof
      assume "w = takeWhile (\<lambda>c. \<not> py_space c) d"
      then show ?thesis using w0 by (auto dest: set_takeWhileD)
    next
      assume "w \<in> set (split_ws (dropWhile (\<lambda>c. \<not> py_space c) d))"
      then show ?thesis using "1.IH" [OF d_def False] by blast
    qed
  qed
qed

lemma concat_split_ws: "concat (split_ws s) = filter (\<lambda>c. \<not> py_space c) s"
proof (induction s rule: split_ws.induct)
  case (1 s)
  define d where "d = dropWhile py_space s"
  have tw: "filter (\<lambda>c. \<not> py_space c) (takeWhile py_space s) = []"
    by (auto simp: filter_empty_conv dest: set_takeWhileD)
  have "filter (\<lambda>c. \<not> py_space c) s = filter (\<lambda>c. \<not> py_space c) (takeWhile py_space s @ d)"
    by (simp only: d_def takeWhile_dropWhile_id)
  also have "\<dots> = filter (\<lambda>c. \<not> py_space c) d"
    by (simp only: filter_append tw append_Nil)
  finally have fd: "filter (\<lambda>c. \<not> py_space c) s = filter (\<lambda>c. \<not> py_space c) d" .
  show ?case
  proof (cases "d = []")
    case True
    have d0: "dropWhile py_space s = []" using True unfolding d_def .
    show ?thesis using fd True split_ws_Nil [OF d0] by simp
  next
    case False
    have ne: "dropWhile py_space s \<noteq> []" using False unfolding d_def .
    have "filter (\<lambda>c. \<not> py_space c) d
        = takeWhile (\<lambda>c. \<not> py_space c) d @ filter (\<lambda>c. \<not> py_space c) (dropWhile (\<lambda>c. \<not> py_space c) d)"
    proof -
      have "filter (\<lambda>c. \<not> py_space c) (takeWhile (\<lambda>c. \<not> py_space c) d) = takeWhile (\<lambda>c. \<not> py_space c) d"
        by (auto simp: filter_id_conv dest: set_takeWhileD)
      then show ?thesis
        by (metis filter_append takeWhile_dropWhile_id)
    qed
    then show ?thesis
      using fd split_ws_Cons [OF ne] "1.IH" [OF d_def False] by (simp add: d_def)
  qed
qed

lemma replace_crlf_space: "py_space (if c = CHR 0x0D \<or> c = CHR 0x0A then CHR '' '' else c) = py_space c"
  by (auto simp: py_space_def)

lemma ends_with_lower:
  "ends_with s suf \<Longrightarrow> ends_with (py_lower s) (py_lower suf)"
  by (simp add: ends_with_def py_lower_def drop_map)

lemma normalize_None: "normalize None = normalize (Some [])"
  by (simp add: normalize_def)

section \<open>Properties of the agent\<close>

text \<open>C17: \<open>_normalize\<close> computes \<open>' '.join(text.split())\<close>: the words of
  the text (maximal runs of non-whitespace, in order) joined by single spaces;
  \<open>None\<close> counts as the empty text.\<close>

theorem normalize_is_split_join:
  "normalize text = join_words (split_ws (case text of None \<Rightarrow> [] | Some s \<Rightarrow> s))"
proof -
  define t where "t = (case text of None \<Rightarrow> [] | Some s \<Rightarrow> s)"
  define f where "f = (\<lambda>c. if c = CHR 0x0D \<or> c = CHR 0x0A then CHR '' '' else c)"
  have sp: "\<forall>c. py_space (f c) = py_space c" by (simp add: f_def replace_crlf_space)
  have "normalize text = join_words (split_ws (replace_crlf t))"
    by (simp add: normalize_def t_def squeeze_strip_split)
  also have "split_ws (replace_crlf t) = map (map f) (split_ws t)"
    unfolding replace_crlf_def f_def [symmetric] by (rule split_ws_map [OF sp])
  also have "map (map f) (split_ws t) = split_ws t"
  proof (rule map_idI)
    fix w assume "w \<in> set (split_ws t)"
    then have "\<forall>c \<in> set w. \<not> py_space c" using split_ws_words by blast
    have "c \<noteq> CHR 0x0D \<and> c \<noteq> CHR 0x0A" if "\<not> py_space c" for c
      using that by (auto simp: py_space_def)
    then show "map f w = w"
      using \<open>\<forall>c \<in> set w. \<not> py_space c\<close> by (simp add: f_def map_idI)
  qed
  finally show ?thesis by (simp add: t_def)
qed

text \<open>The reference \<open>split_ws\<close>: the words of \<open>str.split()\<close> are non-empty and free of whitespace,
  and together they are exactly the non-whitespace characters of the text, in
  order: splitting loses only whitespace.\<close>

theorem split_ws_partition:
  "(\<forall>w \<in> set (split_ws s). w \<noteq> [] \<and> (\<forall>c \<in> set w. \<not> py_space c))
   \<and> concat (split_ws s) = filter (\<lambda>c. \<not> py_space c) s"
  using split_ws_words concat_split_ws by blast

text \<open>C18: when the request is not a greeting and carries no file, a failing
  model call is not caught: the handler, and with it the \<open>/agent/analyze\<close>
  endpoint, raises the model's exception instead of degrading gracefully.\<close>

theorem agent_model_failure_propagates:
  assumes "\<not> is_greeting msg" "file_name = None \<or> file_bytes = None"
    "generate env (agent_prompt (normalize msg)) = Inl e"
  shows "analyze_text_or_table env msg file_name file_bytes = Inl e"
proof -
  have inp: "agent_input_of env msg file_name file_bytes = Inr (Combined (case msg of None \<Rightarrow> [] | Some s \<Rightarrow> s))"
    using assms(2) by (auto simp: agent_input_of_def split: option.splits)
  have "normalize (Some (case msg of None \<Rightarrow> [] | Some s \<Rightarrow> s)) = normalize msg"
    by (cases msg) (simp_all add: normalize_None)
  then show ?thesis
    using assms(1,3) inp by (simp add: analyze_text_or_table_def)
qed

text \<open>C19: the direct sum/mean answer is never given for a file whose name
  ends in \<open>.csv\<close> only after lower-casing (\<open>SALES.CSV\<close>): the branch tests
  the extension case-sensitively, while the file reader of the same request
  lower-cases it and reads the file.\<close>

theorem upper_case_csv_no_direct_answer:
  assumes "ends_with (py_lower n) ''.csv''" "\<not> ends_with n ''.csv''"
  shows "direct_answer env n b text = Inr None
    \<and> read_any_file_to_text env n b
        = (case read_csv (ag_readers env) b of Inl e \<Rightarrow> Inl e | Inr df \<Rightarrow> Inr (to_csv env df))"
proof -
  have "\<not> ends_with (py_lower n) ''.xls''" "\<not> ends_with (py_lower n) ''.xlsx''"
    using assms(1) ends_with_shorter [of "py_lower n" "''.csv''" "''.xls''"]
      ends_with_shorter [of "py_lower n" "''.csv''" "''.xlsx''"]
    by (auto simp: ends_with_def)
  then have "\<not> ends_with n ''.xls''" "\<not> ends_with n ''.xlsx''"
    using ends_with_lower [of n "''.xls''"] ends_with_lower [of n "''.xlsx''"]
    by (auto simp: py_lower_def lower_char_def)
  then show ?thesis
    using assms by (simp add: direct_answer_def read_any_file_to_text_def)
qed

text \<open>Witnesses of the agent's properties, and an example of \<open>split_ws\<close>.\<close>

theorem split_ws_partition_witness:
  "split_ws '' a  b '' = [''a'', ''b'']
   \<and> concat (split_ws '' a  b '') = filter (\<lambda>c. \<not> py_space c) '' a  b ''"
  using split_ws_partition [of "'' a  b ''"] by code_simp

theorem agent_model_failure_propagates_witness:
  "\<not> is_greeting (Some ''sum of sales?'')
   \<and> analyze_text_or_table
       \<lparr>ag_readers = \<lparr>read_csv = \<lambda>_. Inr [], read_excel = \<lambda>_. Inr [], read_pdf = \<lambda>_. Inr []\<rparr>,
        to_csv = \<lambda>_. [], fmt = \<lambda>_. [], generate = \<lambda>_. Inl (ValueError ''quota'')\<rparr>
       (Some ''sum of sales?'') None None = Inl (ValueError ''quota'')"
proof -
  have g: "\<not> is_greeting (Some ''sum of sales?'')" by code_simp
  show ?thesis
    using agent_model_failure_propagates [OF g, of None None
      "\<lparr>ag_readers = \<lparr>read_csv = \<lambda>_. Inr [], read_excel = \<lambda>_. Inr [], read_pdf = \<lambda>_. Inr []\<rparr>,
        to_csv = \<lambda>_. [], fmt = \<lambda>_. [], generate = \<lambda>_. Inl (ValueError ''quota'')\<rparr>"
      "ValueError ''quota''"] g
    by simp
qed

theorem upper_case_csv_no_direct_answer_witness:
  "ends_with (py_lower ''SALES.CSV'') ''.csv'' \<and> \<not> ends_with ''SALES.CSV'' ''.csv''
   \<and> direct_answer
       \<lparr>ag_readers = \<lparr>read_csv = \<lambda>_. Inr [(''sales'', \<lparr>col_dtype = Number, col_cells = [Num 2]\<rparr>)],
                      read_excel = \<lambda>_. Inr [], read_pdf = \<lambda>_. Inr []\<rparr>,
        to_csv = \<lambda>_. ''sales'', fmt = \<lambda>_. ''2.0'', generate = \<lambda>_. Inr ''ok''\<rparr>
       ''SALES.CSV'' ''x'' (Some ''total?'') = Inr None"
proof -
  have a: "ends_with (py_lower ''SALES.CSV'') ''.csv''" by code_simp
  have b: "\<not> ends_with ''SALES.CSV'' ''.csv''" by code_simp
  show ?thesis
    using upper_case_csv_no_direct_answer [OF a b,
      of "\<lparr>ag_readers = \<lparr>read_csv = \<lambda>_. Inr [(''sales'', \<lparr>col_dtype = Number, col_cells = [Num 2]\<rparr>)],
                      read_excel = \<lambda>_. Inr [], read_pdf = \<lambda>_. Inr []\<rparr>,
        to_csv = \<lambda>_. ''sales'', fmt = \<lambda>_. ''2.0'', generate = \<lambda>_. Inr ''ok''\<rparr>" "''x''" "Some ''total?''"] a b
    by blast
qed

end
