(* ===== verification/Api.thy ===== *)
theory Api
  imports Agent Forecasting
begin

text \<open>
  The HTTP endpoints of \<open>src/backend/api.py\<close> and the optional LLM summary
  \<open>generate_llm_summary\<close> of \<open>src/backend/insights.py\<close> (lines 43--82).
  Each endpoint is a function from the request to \<open>py_error + response\<close>:
  \<open>Inr\<close> is the JSON body the handler returns (\<open>ErrorResp\<close> for its
  \<open>{"error": ...}\<close> bodies), \<open>Inl\<close> an exception the handler does not catch,
  which FastAPI turns into a server error.  The library calls are the fields
  of \<open>api_env\<close>: the file parsers of the loader, \<open>pd.to_datetime\<close>, the
  environment variables and the OpenAI call of the summary, the
  \<open>ValueError\<close> of \<open>pd.date_range\<close> for a negative count, and the agent's
  environment.
\<close>

section \<open>Responses and the environment\<close>

text \<open>A row of \<open>to_dict(orient="records")\<close>: column label and value.\<close>

type_synonym record_row = "(string \<times> cell) list"

datatype response =
    UploadResp "string list" "string list" "string list" "string list" "record_row list" nat
  | InsightsResp "insight list" "string option"
  | ForecastResp forecast_result
  | AgentResp string
  | ErrorResp string

record llm_env =
  openai_key :: "string option"
  gemini_key :: "string option"
  openai_call :: "string \<Rightarrow> py_error + string"
  head_csv :: "table \<Rightarrow> nat \<Rightarrow> string"

record api_env =
  api_readers :: readers
  api_parser :: parser
  api_llm :: llm_env
  api_agent :: agent_env

text \<open>\<open>str(e)\<close> of an exception: a \<open>KeyError\<close> shows its key quoted.\<close>

definition err_msg :: "py_error \<Rightarrow> string" where
  "err_msg e =
     (case e of KeyError k \<Rightarrow> [CHR 0x27] @ k @ [CHR 0x27] | ValueError m \<Rightarrow> m | TypeError m \<Rightarrow> m)"

text \<open>Python's truth value of an optional form field: \<open>None\<close> and \<open>""\<close> are false.\<close>

definition given :: "string option \<Rightarrow> bool" where
  "given s \<longleftrightarrow> (case s of None \<Rightarrow> False | Some x \<Rightarrow> x \<noteq> [])"

section \<open>\<open>generate_llm_summary\<close> (insights.py, lines 43--82)\<close>

definition generate_llm_summary :: "llm_env \<Rightarrow> table \<Rightarrow> nat \<Rightarrow> string" where
  "generate_llm_summary env df sample_rows =
     (let snippet = head_csv env df sample_rows;
          prompt = ''Provide a short summary (3 bullets) and 3 suggested actions for this dataset. Sample:''
                   @ nl @ nl @ snippet
      in if given (openai_key env)
         then (case openai_call env prompt of
                 Inl e \<Rightarrow> ''LLM call (OpenAI) failed: '' @ err_msg e
               | Inr r \<Rightarrow> py_strip r)
         else if given (gemini_key env)
         then ''Gemini integration enabled but code is commented. Install google-generative-ai and adapt the client call as shown in comments.''
         else ''LLM not configured. Set OPENAI_API_KEY or GEMINI_API_KEY to enable text summaries.'')"

section \<open>The endpoints\<close>

text \<open>\<open>df_clean.head(50).fillna("").to_dict(orient="records")\<close>.\<close>

definition fill_empty :: "cell \<Rightarrow> cell" where
  "fill_empty c = (if c = NA then Str [] else c)"

definition preview :: "table \<Rightarrow> record_row list" where
  "preview df = map (\<lambda>i. map (\<lambda>(n, c). (n, fill_empty (col_cells c ! i))) df) [0..<min 50 (nrows df)]"

definition load_error :: "py_error \<Rightarrow> response" where
  "load_error e = ErrorResp (''Failed to load file: '' @ err_msg e)"

text \<open>\<open>POST /upload\<close> (lines 27--42).\<close>

definition upload_endpoint :: "api_env \<Rightarrow> upload \<Rightarrow> py_error + response" where
  "upload_endpoint env u =
     (case load_file (api_readers env) u of
        Inl e \<Rightarrow> Inr (load_error e)
      | Inr df \<Rightarrow>
          (case detect_column_types (api_parser env) df of
             (numeric, categorical, datetime_cols, df_clean) \<Rightarrow>
               Inr (UploadResp (columns df_clean) numeric categorical datetime_cols
                      (preview df_clean) (nrows df_clean))))"

text \<open>\<open>POST /insights\<close> (lines 44--55): the rule-based insights with the
  default \<open>max_items = 4\<close>, and the summary when \<open>use_llm\<close> is set.\<close>

definition insights_endpoint :: "api_env \<Rightarrow> upload \<Rightarrow> bool \<Rightarrow> py_error + response" where
  "insights_endpoint env u use_llm =
     (case load_file (api_readers env) u of
        Inl e \<Rightarrow> Inr (load_error e)
      | Inr df \<Rightarrow>
          (case detect_column_types (api_parser env) df of
             (numeric, categorical, datetime_cols, df_clean) \<Rightarrow>
               (case generate_rule_based_insights df_clean numeric categorical datetime_cols 4 of
                  Inl e \<Rightarrow> Inl e
                | Inr rule_insights \<Rightarrow>
                    Inr (InsightsResp rule_insights
                           (if use_llm then Some (generate_llm_summary (api_llm env) df_clean 20) else None)))))"

text \<open>\<open>POST /forecast\<close> (lines 57--82).  The columns default to the first
  datetime and the first numeric column.  \<open>periods\<close> is a Python int;
  \<open>np.arange(n, n + periods)\<close> is empty for every \<open>periods \<le> 0\<close>, the case
  the forecaster's \<open>nat periods = 0\<close> stands for.\<close>

definition forecast_endpoint ::
  "api_env \<Rightarrow> upload \<Rightarrow> int \<Rightarrow> string option \<Rightarrow> string option \<Rightarrow> py_error + response" where
  "forecast_endpoint env u periods date_col value_col =
     (case load_file (api_readers env) u of
        Inl e \<Rightarrow> Inr (load_error e)
      | Inr df \<Rightarrow>
          (case detect_column_types (api_parser env) df of
             (numeric, categorical, datetime_cols, df_clean) \<Rightarrow>
               (let date_col = (if \<not> given date_col \<and> datetime_cols \<noteq> [] then Some (hd datetime_cols) else date_col);
                    value_col = (if \<not> given value_col \<and> numeric \<noteq> [] then Some (hd numeric) else value_col)
                in if \<not> given date_col \<or> \<not> given value_col
                   then Inr (ErrorResp ''Need a date column and a numeric column to forecast.'')
                   else (case forecast_time_series (api_parser env) df_clean (the date_col) (the value_col) (nat periods) of
                           Inl e \<Rightarrow> Inr (ErrorResp (''Forecast failed: '' @ err_msg e))
                         | Inr r \<Rightarrow> Inr (ForecastResp r)))))"

text \<open>\<open>POST /agent/analyze\<close> (lines 85--104): the upload's \<open>filename\<close> and bytes.\<close>

definition agent_endpoint :: "api_env \<Rightarrow> string option \<Rightarrow> upload option \<Rightarrow> py_error + response" where
  "agent_endpoint env text file =
     (let file_name = (case file of None \<Rightarrow> None | Some u \<Rightarrow> up_filename u);
          file_bytes = (case file of None \<Rightarrow> None | Some u \<Rightarrow> Some (up_content u))
      in case analyze_text_or_table (api_agent env) text file_name file_bytes of
           Inl e \<Rightarrow> Inl e
         | Inr r \<Rightarrow> Inr (AgentResp r))"

text \<open>An environment for the concrete examples: the CSV parser returns a
  frame with three days and their sales; the other services do nothing.\<close>

abbreviation example_api_env :: api_env where
  "example_api_env \<equiv>
     \<lparr>api_readers = \<lparr>read_csv = \<lambda>_. Inr [(''day'', \<lparr>col_dtype = Datetime, col_cells = [Stamp 0, Stamp day_ns, Stamp (2 * day_ns)]\<rparr>),
                                        (''sales'', \<lparr>col_dtype = Number, col_cells = [Num 1, Num 2, Num 3]\<rparr>)],
                     read_excel = \<lambda>_. Inr [], read_pdf = \<lambda>_. Inr []\<rparr>,
      api_parser = stamp_parser,
      api_llm = \<lparr>openai_key = None, gemini_key = None, openai_call = \<lambda>_. Inr [], head_csv = \<lambda>_ _. []\<rparr>,
      api_agent = \<lparr>ag_readers = \<lparr>read_csv = \<lambda>_. Inr [], read_excel = \<lambda>_. Inr [], read_pdf = \<lambda>_. Inr []\<rparr>,
                   to_csv = \<lambda>_. [], fmt = \<lambda>_. [], generate = \<lambda>_. Inr []\<rparr>\<rparr>"

abbreviation example_upload :: upload where
  "example_upload \<equiv> \<lparr>up_filename = Some ''sales.csv'', up_name = [], up_content = ''csv''\<rparr>"

section \<open>Lemmas on the endpoints\<close>

lemma numeric_insights_present:
  "\<forall>c \<in> set cols. df_get df c \<noteq> None \<Longrightarrow> \<exists>ns. numeric_insights df cols = Inr ns"
  by (induction cols) (auto split: option.splits sum.splits)

lemma categorical_insights_present:
  "\<forall>c \<in> set cols. df_get df c \<noteq> None \<Longrightarrow> \<exists>cs. categorical_insights df cols = Inr cs"
  by (induction cols) (auto split: option.splits sum.splits)

lemma trend_insight_present:
  "\<forall>c \<in> set numeric \<union> set dts. df_get df c \<noteq> None \<Longrightarrow> \<exists>tr. trend_insight df numeric dts = Inr tr"
  by (cases numeric; cases dts) (auto simp: trend_insight_def Let_def split: option.splits)

lemma generate_insights_present:
  assumes "\<forall>c \<in> set numeric \<union> set cat \<union> set dts. df_get df c \<noteq> None"
  shows "\<exists>ins. generate_rule_based_insights df numeric cat dts k = Inr ins"
proof -
  obtain ns where ns: "numeric_insights df (py_take k numeric) = Inr ns"
    using numeric_insights_present [of "py_take k numeric" df] assms set_py_take [of k numeric] by blast
  obtain cs where cs: "categorical_insights df (py_take k cat) = Inr cs"
    using categorical_insights_present [of "py_take k cat" df] assms set_py_take [of k cat] by blast
  obtain tr where tr: "trend_insight df numeric dts = Inr tr"
    using trend_insight_present [of numeric dts df] assms by blast
  show ?thesis using ns cs tr by (simp add: generate_rule_based_insights_def)
qed

text \<open>What the endpoints use of the classifier: on a frame with distinct
  labels, the three lists partition the labels of the cleaned frame, which
  has the labels and the row count of the input.\<close>

lemma detect_column_types_names:
  assumes "distinct (columns df)" "detect_column_types conv df = (num, cat, dts, clean)"
  shows "mset (num @ cat @ dts) = mset (columns clean) \<and> columns clean = columns df
    \<and> nrows clean = nrows df"
proof -
  have spec: "(num, cat, dts, clean) = classify_spec conv df"
    using detect_column_types_spec [OF assms(1)] assms(2) by simp
  have rows: "nrows (map (\<lambda>(n, c). (n, normalize_column conv c)) df) = nrows df"
    by (rule nrows_map_normalize)
  show ?thesis
    using spec mset_names_of_class [of conv df] rows by (auto simp: classify_spec_def ac_simps)
qed

lemma df_get_present:
  "distinct (columns t) \<Longrightarrow> n \<in> set (columns t) \<Longrightarrow> df_get t n \<noteq> None"
  by (simp add: df_get_distinct columns_def map_of_eq_None_iff)

lemma length_preview: "length (preview df) = min 50 (nrows df)"
  by (simp add: preview_def)

lemma forecast_endpoint_reply:
  "(\<exists>m. forecast_endpoint env u p d v = Inr (ErrorResp m))
   \<or> (\<exists>r. forecast_endpoint env u p d v = Inr (ForecastResp r))"
proof (cases "load_file (api_readers env) u")
  case (Inl e)
  then show ?thesis by (simp add: forecast_endpoint_def load_error_def)
next
  case (Inr df)
  obtain num cat dts clean where dct: "detect_column_types (api_parser env) df = (num, cat, dts, clean)"
    by (cases "detect_column_types (api_parser env) df") auto
  show ?thesis
    using Inr dct by (simp add: forecast_endpoint_def Let_def split: sum.split)
qed

section \<open>Properties of the endpoints\<close>

text \<open>C20: \<open>/forecast\<close> always answers with a JSON body: load errors,
  missing columns and every exception of the forecaster are turned into an
  \<open>error\<close> message, so the request never ends in a server error.\<close>

theorem forecast_endpoint_never_raises:
  "\<exists>resp. forecast_endpoint env u p d v = Inr resp"
  using forecast_endpoint_reply [of env u p d v] by blast

text \<open>C21: \<open>/insights\<close> raises no exception on an upload whose frame has
  distinct column labels: every column the classifier names is present in
  the cleaned frame, so the insight generator never looks up a missing one.\<close>

theorem insights_endpoint_no_exception:
  assumes "\<forall>df. load_file (api_readers env) u = Inr df \<longrightarrow> distinct (columns df)"
  shows "\<exists>resp. insights_endpoint env u use_llm = Inr resp"
proof (cases "load_file (api_readers env) u")
  case (Inl e)
  then show ?thesis by (simp add: insights_endpoint_def)
next
  case (Inr df)
  obtain num cat dts clean where dct: "detect_column_types (api_parser env) df = (num, cat, dts, clean)"
    by (cases "detect_column_types (api_parser env) df") auto
  have dist: "distinct (columns df)" using assms Inr by blast
  note names = detect_column_types_names [OF dist dct]
  have "set num \<union> set cat \<union> set dts = set (columns clean)"
    using arg_cong [OF conjunct1 [OF names], of set_mset] by auto
  then have "\<forall>c \<in> set num \<union> set cat \<union> set dts. df_get clean c \<noteq> None"
    using df_get_present [of clean] names dist by auto
  then obtain ins where "generate_rule_based_insights clean num cat dts 4 = Inr ins"
    using generate_insights_present by blast
  then show ?thesis using Inr dct by (simp add: insights_endpoint_def)
qed

text \<open>C22: \<open>/upload\<close> on a frame with distinct labels reports its columns
  and row count unchanged, splits the labels exactly into the numeric,
  categorical and datetime lists, and previews at most 50 rows.\<close>

theorem upload_endpoint_partition:
  assumes "load_file (api_readers env) u = Inr df" "distinct (columns df)"
  shows "\<exists>num cat dts prev. upload_endpoint env u = Inr (UploadResp (columns df) num cat dts prev (nrows df))
    \<and> mset (num @ cat @ dts) = mset (columns df) \<and> length prev = min 50 (nrows df)"
proof -
  obtain num cat dts clean where dct: "detect_column_types (api_parser env) df = (num, cat, dts, clean)"
    by (cases "detect_column_types (api_parser env) df") auto
  note names = detect_column_types_names [OF assms(2) dct]
  have "upload_endpoint env u = Inr (UploadResp (columns df) num cat dts (preview clean) (nrows df))"
    using assms(1) dct names by (simp add: upload_endpoint_def)
  moreover have "length (preview clean) = min 50 (nrows df)"
    using names by (simp add: length_preview)
  ultimately show ?thesis using names by auto
qed

text \<open>C23: a \<open>/forecast\<close> request that names no column forecasts the first
  datetime column against the first numeric column of the classifier, and
  answers with the missing-column message when either list is empty.\<close>

theorem forecast_endpoint_defaults:
  assumes "\<not> given d" "\<not> given v" "load_file (api_readers env) u = Inr df"
    "detect_column_types (api_parser env) df = (num, cat, dts, clean)"
  shows "forecast_endpoint env u p d v =
    (if dts \<noteq> [] \<and> num \<noteq> [] \<and> hd dts \<noteq> [] \<and> hd num \<noteq> []
     then (case forecast_time_series (api_parser env) clean (hd dts) (hd num) (nat p) of
             Inl e \<Rightarrow> Inr (ErrorResp (''Forecast failed: '' @ err_msg e))
           | Inr r \<Rightarrow> Inr (ForecastResp r))
     else Inr (ErrorResp ''Need a date column and a numeric column to forecast.''))"
  using assms by (auto simp: forecast_endpoint_def given_def split: sum.split)

text \<open>C13: \<open>/forecast\<close> never returns a forecast for a horizon of zero
  or fewer periods: whatever the file, the columns and the configuration,
  the answer is an error message, since sklearn's \<open>predict\<close> refuses the
  empty array of future time steps (or an earlier step fails).\<close>

theorem forecast_endpoint_nonpositive_periods:
  assumes "p \<le> 0"
  shows "\<exists>m. forecast_endpoint env u p d v = Inr (ErrorResp m)"
proof (cases "load_file (api_readers env) u")
  case (Inl e)
  then show ?thesis by (simp add: forecast_endpoint_def load_error_def)
next
  case (Inr df)
  obtain num cat dts clean where dct: "detect_column_types (api_parser env) df = (num, cat, dts, clean)"
    by (cases "detect_column_types (api_parser env) df") auto
  have n: "nat p = 0" using assms by simp
  have no: "forecast_time_series (api_parser env) clean c w (nat p) \<noteq> Inr r" for c w r
    using forecast_time_series_no_periods [of "api_parser env" clean c w] unfolding n by auto
  show ?thesis
    using Inr dct no by (auto simp: forecast_endpoint_def Let_def split: sum.split)
qed

text \<open>C24: the LLM summary cannot break \<open>/insights\<close>: whatever the
  summary service is configured to do, asking for it returns the same
  rule-based insights as not asking, together with a text.\<close>

theorem insights_llm_degrades:
  assumes "insights_endpoint env u False = Inr (InsightsResp r None)"
  shows "\<exists>s. insights_endpoint (env\<lparr>api_llm := l\<rparr>) u True = Inr (InsightsResp r (Some s))"
proof (cases "load_file (api_readers env) u")
  case (Inl e)
  then show ?thesis using assms by (simp add: insights_endpoint_def load_error_def)
next
  case (Inr df)
  obtain num cat dts clean where dct: "detect_column_types (api_parser env) df = (num, cat, dts, clean)"
    by (cases "detect_column_types (api_parser env) df") auto
  have "generate_rule_based_insights clean num cat dts 4 = Inr r"
    using assms Inr dct by (auto simp: insights_endpoint_def split: sum.splits)
  then show ?thesis using Inr dct by (simp add: insights_endpoint_def)
qed

text \<open>Witnesses of the endpoints' properties.\<close>

theorem insights_endpoint_no_exception_witness:
  "load_file (api_readers example_api_env) example_upload
     = Inr [(''day'', \<lparr>col_dtype = Datetime, col_cells = [Stamp 0, Stamp day_ns, Stamp (2 * day_ns)]\<rparr>),
            (''sales'', \<lparr>col_dtype = Number, col_cells = [Num 1, Num 2, Num 3]\<rparr>)]
   \<and> distinct [''day'', ''sales'']
   \<and> (\<exists>resp. insights_endpoint example_api_env example_upload True = Inr resp)"
proof -
  have l: "load_file (api_readers example_api_env) example_upload
     = Inr [(''day'', \<lparr>col_dtype = Datetime, col_cells = [Stamp 0, Stamp day_ns, Stamp (2 * day_ns)]\<rparr>),
            (''sales'', \<lparr>col_dtype = Number, col_cells = [Num 1, Num 2, Num 3]\<rparr>)]"
    by code_simp
  have h: "\<forall>df. load_file (api_readers example_api_env) example_upload = Inr df \<longrightarrow> distinct (columns df)"
    using l by (simp add: columns_def)
  show ?thesis using insights_endpoint_no_exception [OF h] l by simp
qed

theorem upload_endpoint_partition_witness:
  "load_file (api_readers example_api_env) example_upload
     = Inr [(''day'', \<lparr>col_dtype = Datetime, col_cells = [Stamp 0, Stamp day_ns, Stamp (2 * day_ns)]\<rparr>),
            (''sales'', \<lparr>col_dtype = Number, col_cells = [Num 1, Num 2, Num 3]\<rparr>)]
   \<and> (\<exists>num cat dts prev. upload_endpoint example_api_env example_upload
        = Inr (UploadResp [''day'', ''sales''] num cat dts prev 3) \<and> mset (num @ cat @ dts) = mset [''day'', ''sales''])"
proof -
  have l: "load_file (api_readers example_api_env) example_upload
     = Inr [(''day'', \<lparr>col_dtype = Datetime, col_cells = [Stamp 0, Stamp day_ns, Stamp (2 * day_ns)]\<rparr>),
            (''sales'', \<lparr>col_dtype = Number, col_cells = [Num 1, Num 2, Num 3]\<rparr>)]"
    by code_simp
  have d: "distinct (columns [(''day'', \<lparr>col_dtype = Datetime, col_cells = [Stamp 0, Stamp day_ns, Stamp (2 * day_ns)]\<rparr>),
            (''sales'', \<lparr>col_dtype = Number, col_cells = [Num 1, Num 2, Num 3]\<rparr>)])"
    by (simp add: columns_def)
  show ?thesis using upload_endpoint_partition [OF l d] l by (simp add: columns_def nrows_def numeral_3_eq_3) blast
qed

theorem forecast_endpoint_defaults_witness:
  "load_file (api_readers example_api_env) example_upload
     = Inr [(''day'', \<lparr>col_dtype = Datetime, col_cells = [Stamp 0, Stamp day_ns, Stamp (2 * day_ns)]\<rparr>),
            (''sales'', \<lparr>col_dtype = Number, col_cells = [Num 1, Num 2, Num 3]\<rparr>)]
   \<and> forecast_endpoint example_api_env example_upload 1 None None
     = (case forecast_time_series stamp_parser
               [(''day'', \<lparr>col_dtype = Datetime, col_cells = [Stamp 0, Stamp day_ns, Stamp (2 * day_ns)]\<rparr>),
                (''sales'', \<lparr>col_dtype = Number, col_cells = [Num 1, Num 2, Num 3]\<rparr>)] ''day'' ''sales'' 1 of
          Inl e \<Rightarrow> Inr (ErrorResp (''Forecast failed: '' @ err_msg e))
        | Inr r \<Rightarrow> Inr (ForecastResp r))"
proof -
  have l: "load_file (api_readers example_api_env) example_upload
     = Inr [(''day'', \<lparr>col_dtype = Datetime, col_cells = [Stamp 0, Stamp day_ns, Stamp (2 * day_ns)]\<rparr>),
            (''sales'', \<lparr>col_dtype = Number, col_cells = [Num 1, Num 2, Num 3]\<rparr>)]"
    by code_simp
  have c: "detect_column_types (api_parser example_api_env)
       [(''day'', \<lparr>col_dtype = Datetime, col_cells = [Stamp 0, Stamp day_ns, Stamp (2 * day_ns)]\<rparr>),
        (''sales'', \<lparr>col_dtype = Number, col_cells = [Num 1, Num 2, Num 3]\<rparr>)]
     = ([''sales''], [], [''day''],
        [(''day'', \<lparr>col_dtype = Datetime, col_cells = [Stamp 0, Stamp day_ns, Stamp (2 * day_ns)]\<rparr>),
         (''sales'', \<lparr>col_dtype = Number, col_cells = [Num 1, Num 2, Num 3]\<rparr>)])"
    by code_simp
  have g: "\<not> given None" by (simp add: given_def)
  show ?thesis
    using forecast_endpoint_defaults [OF g g, of example_api_env example_upload, OF l, of "[''sales'']" "[]" "[''day'']", OF c] l
    by simp
qed

theorem insights_llm_degrades_witness:
  "insights_endpoint example_api_env example_upload False
     = Inr (InsightsResp [NumericSummary ''sales'' 2 2 1 3, TrendNote ''sales'' ''day'' Upward] None)
   \<and> (\<exists>s. insights_endpoint (example_api_env\<lparr>api_llm := \<lparr>openai_key = Some ''k'', gemini_key = None,
          openai_call = \<lambda>_. Inl (ValueError ''rate limit''), head_csv = \<lambda>_ _. []\<rparr>\<rparr>) example_upload True
        = Inr (InsightsResp [NumericSummary ''sales'' 2 2 1 3, TrendNote ''sales'' ''day'' Upward] (Some s)))"
proof -
  have h: "insights_endpoint example_api_env example_upload False
     = Inr (InsightsResp [NumericSummary ''sales'' 2 2 1 3, TrendNote ''sales'' ''day'' Upward] None)"
    by code_simp
  show ?thesis using insights_llm_degrades [OF h] h by blast
qed

text \<open>A horizon of zero on the example upload: the three daily buckets are
  fitted, and \<open>predict\<close> rejects the empty array.\<close>

theorem forecast_endpoint_nonpositive_periods_witness:
  "forecast_endpoint example_api_env example_upload 0 None None
     = Inr (ErrorResp (''Forecast failed: ''
         @ ''Found array with 0 sample(s) (shape=(0, 1)) while a minimum of 1 is required by LinearRegression.''))
   \<and> (\<exists>m. forecast_endpoint example_api_env example_upload 0 None None = Inr (ErrorResp m))"
proof -
  have p: "(0::int) \<le> 0" by simp
  have v: "forecast_endpoint example_api_env example_upload 0 None None
     = Inr (ErrorResp (''Forecast failed: ''
         @ ''Found array with 0 sample(s) (shape=(0, 1)) while a minimum of 1 is required by LinearRegression.''))"
    by code_simp
  show ?thesis using v forecast_endpoint_nonpositive_periods [OF p, of example_api_env example_upload None None] by simp
qed

end
