(* ===== verification/Dashboard.thy ===== *)
theory Dashboard
  imports Api
begin

text \<open>
  The filtering of the Streamlit page \<open>src/frontend/pages/1_Dashboard.py\<close>
  (lines 39--62) and its KPI (lines 78--81), applied to the preview rows of
  \<open>/upload\<close>.  The page rebuilds a DataFrame from the JSON records, lets the
  user pick values of each categorical column and a range of each numeric
  column, and keeps the rows that pass every filter.  \<open>str()\<close> of a decoded
  JSON value and \<open>pd.to_numeric\<close> of a string are library calls: the fields of
  \<open>dash_env\<close>.  Widgets are inputs: the selections and ranges the user
  chose are parameters, and the slider's initial value is \<open>dash_range\<close>.
  Timestamps arrive as ISO strings, which \<open>pd.to_numeric(errors="coerce")\<close>
  turns into NaN.
\<close>

record dash_env =
  cell_str :: "cell \<Rightarrow> string"
  parse_num :: "string \<Rightarrow> real option"

text \<open>\<open>row[c]\<close> of the frame built from the records: a missing key is NaN.\<close>

definition row_get :: "record_row \<Rightarrow> string \<Rightarrow> cell" where
  "row_get row c = (case map_of row c of Some v \<Rightarrow> v | None \<Rightarrow> NA)"

text \<open>\<open>pd.to_numeric(x, errors="coerce")\<close>; \<open>None\<close> is NaN.\<close>

definition to_numeric :: "dash_env \<Rightarrow> cell \<Rightarrow> real option" where
  "to_numeric env c =
     (case c of
        Num r \<Rightarrow> Some r
      | Flag b \<Rightarrow> Some (if b then 1 else 0)
      | Str s \<Rightarrow> parse_num env s
      | Stamp _ \<Rightarrow> None
      | NA \<Rightarrow> None)"

text \<open>Lines 55--56: one categorical filter after the other.\<close>

definition category_filter ::
  "dash_env \<Rightarrow> (string \<times> string list) list \<Rightarrow> record_row list \<Rightarrow> record_row list" where
  "category_filter env filters rows =
     foldl (\<lambda>rs (c, vals). filter (\<lambda>row. cell_str env (row_get row c) \<in> set vals) rs) rows filters"

text \<open>Lines 57--59: \<open>(df[n] >= lo) & (df[n] <= hi)\<close> after \<open>pd.to_numeric\<close>;
  a comparison with NaN is false.\<close>

definition numeric_filter ::
  "dash_env \<Rightarrow> (string \<times> real \<times> real) list \<Rightarrow> record_row list \<Rightarrow> record_row list" where
  "numeric_filter env ranges rows =
     foldl (\<lambda>rs (n, lo, hi).
              filter (\<lambda>row. case to_numeric env (row_get row n) of
                              Some x \<Rightarrow> lo \<le> x \<and> x \<le> hi
                            | None \<Rightarrow> False) rs) rows ranges"

text \<open>Lines 41--44: a categorical column enters the filters only when the
  user selected some value.\<close>

definition selected_filters :: "(string \<times> string list) list \<Rightarrow> (string \<times> string list) list" where
  "selected_filters sels = filter (\<lambda>(c, vals). vals \<noteq> []) sels"

text \<open>Lines 48--50: the slider starts at the minimum and maximum of the
  column's numbers, NaN skipped; \<open>None\<close> when the column has no number.\<close>

definition dash_range :: "dash_env \<Rightarrow> record_row list \<Rightarrow> string \<Rightarrow> (real \<times> real) option" where
  "dash_range env rows n =
     (let xs = concat (map (\<lambda>row. case to_numeric env (row_get row n) of Some x \<Rightarrow> [x] | None \<Rightarrow> []) rows)
      in if xs = [] then None else Some (series_min xs, series_max xs))"

text \<open>Lines 53--59: the filtered preview.\<close>

definition filtered_preview ::
  "dash_env \<Rightarrow> record_row list \<Rightarrow> (string \<times> string list) list \<Rightarrow> (string \<times> real \<times> real) list
     \<Rightarrow> record_row list" where
  "filtered_preview env rows sels ranges =
     numeric_filter env ranges (category_filter env (selected_filters sels) rows)"

text \<open>Lines 78--81: the total and the mean of the primary metric over the
  filtered rows (\<open>dropna()\<close> first; the mean of nothing is NaN).\<close>

definition metric_values :: "dash_env \<Rightarrow> record_row list \<Rightarrow> string \<Rightarrow> real list" where
  "metric_values env rows m =
     concat (map (\<lambda>row. case to_numeric env (row_get row m) of Some x \<Rightarrow> [x] | None \<Rightarrow> []) rows)"

definition kpi :: "dash_env \<Rightarrow> record_row list \<Rightarrow> string \<Rightarrow> real \<times> real option" where
  "kpi env rows m =
     (let xs = metric_values env rows m in (sum_list xs, if xs = [] then None else Some (mean xs)))"

text \<open>Rows for the concrete examples: a sales column with a missing value.\<close>

abbreviation example_dash_env :: dash_env where
  "example_dash_env \<equiv> \<lparr>cell_str = \<lambda>c. (case c of Str s \<Rightarrow> s | _ \<Rightarrow> ''?''), parse_num = \<lambda>_. None\<rparr>"

abbreviation example_rows :: "record_row list" where
  "example_rows \<equiv> [[(''region'', Str ''north''), (''sales'', Num 1)],
                   [(''region'', Str ''south''), (''sales'', Str [])],
                   [(''region'', Str ''north''), (''sales'', Num 3)]]"

section \<open>Lemmas on the filters\<close>

lemma foldl_filter:
  "foldl (\<lambda>rs a. filter (P a) rs) rows as = filter (\<lambda>r. \<forall>a \<in> set as. P a r) rows"
  by (induction as arbitrary: rows) (simp_all add: conj_commute)

lemma category_filter_conj:
  "category_filter env filters rows
     = filter (\<lambda>row. \<forall>(c, vals) \<in> set filters. cell_str env (row_get row c) \<in> set vals) rows"
proof -
  have "category_filter env filters rows
      = foldl (\<lambda>rs a. filter (\<lambda>row. cell_str env (row_get row (fst a)) \<in> set (snd a)) rs) rows filters"
    by (simp add: category_filter_def split_def)
  then show ?thesis by (simp add: foldl_filter case_prod_beta)
qed

lemma numeric_filter_conj:
  "numeric_filter env ranges rows
     = filter (\<lambda>row. \<forall>(n, lo, hi) \<in> set ranges.
                 \<exists>x. to_numeric env (row_get row n) = Some x \<and> lo \<le> x \<and> x \<le> hi) rows"
proof -
  have eq: "(case to_numeric env (row_get row n) of Some x \<Rightarrow> lo \<le> x \<and> x \<le> hi | None \<Rightarrow> False)
      = (\<exists>x. to_numeric env (row_get row n) = Some x \<and> lo \<le> x \<and> x \<le> hi)" for row n lo hi
    by (cases "to_numeric env (row_get row n)") simp_all
  have "numeric_filter env ranges rows
      = foldl (\<lambda>rs a. filter (\<lambda>row. \<exists>x. to_numeric env (row_get row (fst a)) = Some x
            \<and> fst (snd a) \<le> x \<and> x \<le> snd (snd a)) rs) rows ranges"
    by (simp add: numeric_filter_def split_def eq)
  then show ?thesis by (simp add: foldl_filter case_prod_beta)
qed

lemma dash_range_bounds:
  assumes "dash_range env rows n = Some (lo, hi)" "row \<in> set rows" "to_numeric env (row_get row n) = Some x"
  shows "lo \<le> x \<and> x \<le> hi"
proof -
  let ?xs = "concat (map (\<lambda>row. case to_numeric env (row_get row n) of Some x \<Rightarrow> [x] | None \<Rightarrow> []) rows)"
  have "x \<in> set ?xs" using assms(2,3) by force
  moreover have "lo = series_min ?xs" "hi = series_max ?xs"
    using assms(1) by (simp_all add: dash_range_def Let_def split: if_splits)
  ultimately show ?thesis by (simp add: series_min_le series_max_ge)
qed

lemma mean_within:
  assumes "xs \<noteq> []" "\<forall>x \<in> set xs. lo \<le> x \<and> x \<le> hi"
  shows "lo \<le> mean xs \<and> mean xs \<le> hi"
proof -
  have n: "0 < real (length xs)" using assms(1) by simp
  have "real (length xs) * lo \<le> sum_list xs \<and> sum_list xs \<le> real (length xs) * hi"
    using assms(2) by (intro sum_list_bounds) blast
  then show ?thesis using n by (simp add: mean_def pos_le_divide_eq pos_divide_le_eq mult.commute)
qed

section \<open>Properties of the dashboard filters\<close>

text \<open>C25: the filter loops of the page keep exactly the rows that pass
  every selected categorical filter and every numeric range, in their
  original order; the order in which the filters are applied does not
  matter, and a categorical column with nothing selected does not filter.\<close>

theorem filtered_preview_spec:
  "filtered_preview env rows sels ranges =
     filter (\<lambda>row. (\<forall>(c, vals) \<in> set sels. vals \<noteq> [] \<longrightarrow> cell_str env (row_get row c) \<in> set vals)
                 \<and> (\<forall>(n, lo, hi) \<in> set ranges.
                       \<exists>x. to_numeric env (row_get row n) = Some x \<and> lo \<le> x \<and> x \<le> hi)) rows"
  unfolding filtered_preview_def numeric_filter_conj category_filter_conj selected_filters_def
  by (auto simp: conj_commute intro!: filter_cong)

text \<open>C26: with the sliders left at their initial range and nothing
  selected, the "filtered" preview is not the preview: it drops every row
  with a missing or non-numeric value in some numeric column, since the page
  compares NaN with the range.\<close>

theorem default_ranges_drop_missing:
  assumes "\<forall>n \<in> set nums. dash_range env rows n \<noteq> None"
  shows "filtered_preview env rows [] (map (\<lambda>n. (n, the (dash_range env rows n))) nums)
     = filter (\<lambda>row. \<forall>n \<in> set nums. to_numeric env (row_get row n) \<noteq> None) rows"
proof -
  have keep: "(\<forall>(n, lo, hi) \<in> set (map (\<lambda>n. (n, the (dash_range env rows n))) nums).
                 \<exists>x. to_numeric env (row_get row n) = Some x \<and> lo \<le> x \<and> x \<le> hi)
      \<longleftrightarrow> (\<forall>n \<in> set nums. to_numeric env (row_get row n) \<noteq> None)" if "row \<in> set rows" for row
  proof
    assume "\<forall>(n, lo, hi) \<in> set (map (\<lambda>n. (n, the (dash_range env rows n))) nums).
                 \<exists>x. to_numeric env (row_get row n) = Some x \<and> lo \<le> x \<and> x \<le> hi"
    then show "\<forall>n \<in> set nums. to_numeric env (row_get row n) \<noteq> None" by fastforce
  next
    assume all: "\<forall>n \<in> set nums. to_numeric env (row_get row n) \<noteq> None"
    show "\<forall>(n, lo, hi) \<in> set (map (\<lambda>n. (n, the (dash_range env rows n))) nums).
                 \<exists>x. to_numeric env (row_get row n) = Some x \<and> lo \<le> x \<and> x \<le> hi"
    proof -
      have each: "\<exists>x. to_numeric env (row_get row n) = Some x
          \<and> fst (the (dash_range env rows n)) \<le> x \<and> x \<le> snd (the (dash_range env rows n))"
        if n: "n \<in> set nums" for n
      proof -
        obtain x where x: "to_numeric env (row_get row n) = Some x" using all n by blast
        obtain lo hi where r: "dash_range env rows n = Some (lo, hi)" using assms n by fastforce
        show ?thesis using x r dash_range_bounds [OF r \<open>row \<in> set rows\<close> x] by simp
      qed
      then show ?thesis by (simp add: split_def)
    qed
  qed
  show ?thesis
    unfolding filtered_preview_spec
  proof (rule filter_cong [OF refl])
    fix row assume row: "row \<in> set rows"
    show "((\<forall>(c, vals) \<in> set []. vals \<noteq> [] \<longrightarrow> cell_str env (row_get row c) \<in> set vals)
          \<and> (\<forall>(n, lo, hi) \<in> set (map (\<lambda>n. (n, the (dash_range env rows n))) nums).
                \<exists>x. to_numeric env (row_get row n) = Some x \<and> lo \<le> x \<and> x \<le> hi))
        = (\<forall>n \<in> set nums. to_numeric env (row_get row n) \<noteq> None)"
      using keep [OF row] by (simp only: list.set(1) ball_empty simp_thms)
  qed
qed

text \<open>C27: the mean shown in the KPI lies within the range the user chose
  for the metric, whenever some row is left.\<close>

theorem kpi_mean_in_range:
  assumes "(m, lo, hi) \<in> set ranges" "kpi env (filtered_preview env rows sels ranges) m = (s, Some mu)"
  shows "lo \<le> mu \<and> mu \<le> hi"
proof -
  let ?xs = "metric_values env (filtered_preview env rows sels ranges) m"
  have ne: "?xs \<noteq> []" and mu: "mu = mean ?xs"
    using assms(2) by (auto simp: kpi_def Let_def split: if_splits)
  have "\<forall>x \<in> set ?xs. lo \<le> x \<and> x \<le> hi"
  proof
    fix x assume "x \<in> set ?xs"
    then obtain row where row: "row \<in> set (filtered_preview env rows sels ranges)"
      and x: "to_numeric env (row_get row m) = Some x"
      by (auto simp: metric_values_def split: option.splits)
    then have "\<exists>y. to_numeric env (row_get row m) = Some y \<and> lo \<le> y \<and> y \<le> hi"
      using assms(1) unfolding filtered_preview_spec by fastforce
    then show "lo \<le> x \<and> x \<le> hi" using x by simp
  qed
  then show ?thesis using mean_within [OF ne] mu by simp
qed

text \<open>Witnesses of the dashboard's properties.\<close>

theorem filtered_preview_spec_witness:
  "filtered_preview example_dash_env example_rows [(''region'', [''north''])] [(''sales'', 0, 2)]
     = [[(''region'', Str ''north''), (''sales'', Num 1)]]"
  using filtered_preview_spec [of example_dash_env example_rows "[(''region'', [''north''])]" "[(''sales'', 0, 2)]"]
  by (simp add: row_get_def to_numeric_def)

theorem default_ranges_drop_missing_witness:
  "dash_range example_dash_env example_rows ''sales'' = Some (1, 3)
   \<and> filtered_preview example_dash_env example_rows [] [(''sales'', 1, 3)]
       = [[(''region'', Str ''north''), (''sales'', Num 1)], [(''region'', Str ''north''), (''sales'', Num 3)]]"
proof -
  have r: "dash_range example_dash_env example_rows ''sales'' = Some (1, 3)" by code_simp
  have h: "\<forall>n \<in> set [''sales'']. dash_range example_dash_env example_rows n \<noteq> None" using r by simp
  show ?thesis
    using default_ranges_drop_missing [OF h] r by (simp add: row_get_def to_numeric_def)
qed

theorem kpi_mean_in_range_witness:
  "(''sales'', 0, 2) \<in> set [(''sales'', 0 :: real, 2 :: real)]
   \<and> kpi example_dash_env (filtered_preview example_dash_env example_rows [] [(''sales'', 0, 2)]) ''sales'' = (1, Some 1)
   \<and> (0 :: real) \<le> 1 \<and> (1 :: real) \<le> 2"
proof -
  have k: "kpi example_dash_env (filtered_preview example_dash_env example_rows [] [(''sales'', 0, 2)]) ''sales'' = (1, Some 1)"
    by code_simp
  have "(0 :: real) \<le> 1 \<and> (1 :: real) \<le> 2"
    using kpi_mean_in_range [of "''sales''" 0 2 "[(''sales'', 0, 2)]", OF _ k] by simp
  then show ?thesis using k by simp
qed

end
