(* ===== verification/Page.thy ===== *)
theory Page
  imports Dashboard "HOL-Library.List_Lexorder" "HOL-Library.Char_ord"
begin

text \<open>
  The request flow of the Streamlit page \<open>src/frontend/pages/1_Dashboard.py\<close>
  composed with the endpoints of \<open>Api\<close>.  The page posts the upload to
  \<open>/upload\<close> and reads the JSON reply (lines 19--37), rebuilds a DataFrame
  from the preview records and runs its filter loops over it (lines 39--62).
  Widget values are inputs of the model: the user's choice among the options
  of a multiselect and the range of a slider.  \<open>st.stop()\<close> and
  \<open>st.error\<close> end the run with a message (\<open>Stop\<close>); an exception that
  escapes the script ends it with Streamlit's error box (\<open>Crash\<close>).
  The group-by tables of the bar and pie charts (lines 88--104) and the
  Insights, Forecast and AI Agent buttons (lines 109--169) are applied to
  the endpoints, so the lemmas here are about the front end and the backend
  together.
\<close>

datatype page_stop = Stop string | Crash py_error

record page_data =
  pd_preview :: "record_row list"
  pd_numeric :: "string list"
  pd_categorical :: "string list"
  pd_datetime :: "string list"

text \<open>Lines 22--37: a reply other than 200 stops with "Upload failed.", an
  \<open>error\<close> key stops with its message, otherwise the page reads the preview
  and the three column lists (a reply without \<open>preview\<close> raises).\<close>

definition upload_view :: "py_error + response \<Rightarrow> page_stop + page_data" where
  "upload_view resp =
     (case resp of
        Inl _ \<Rightarrow> Inl (Stop ''Upload failed.'')
      | Inr (ErrorResp m) \<Rightarrow> Inl (Stop m)
      | Inr (UploadResp cols num cat dts prev rows) \<Rightarrow>
          Inr \<lparr>pd_preview = prev, pd_numeric = num, pd_categorical = cat, pd_datetime = dts\<rparr>
      | Inr _ \<Rightarrow> Inl (Crash (KeyError ''preview'')))"

text \<open>Line 32: \<open>pd.DataFrame(records)\<close> has the keys of the records as
  columns, in the order they first appear; no record, no column.\<close>

definition frame_columns :: "record_row list \<Rightarrow> string list" where
  "frame_columns rows = rev (remdups (rev (concat (map (map fst) rows))))"

text \<open>\<open>preview_df[c]\<close>: a \<open>KeyError\<close> when the frame has no column \<open>c\<close>.\<close>

definition frame_column :: "record_row list \<Rightarrow> string \<Rightarrow> py_error + cell list" where
  "frame_column rows c =
     (if c \<in> set (frame_columns rows) then Inr (map (\<lambda>row. row_get row c) rows) else Inl (KeyError c))"

text \<open>Lines 42--43: the options of a categorical filter,
  \<open>sorted(map(str, preview_df[cat].dropna().unique()))\<close>.\<close>

definition category_options :: "dash_env \<Rightarrow> record_row list \<Rightarrow> string \<Rightarrow> py_error + string list" where
  "category_options env rows c =
     (case frame_column rows c of
        Inl e \<Rightarrow> Inl e
      | Inr cells \<Rightarrow> Inr (sort (map (cell_str env) (remdups (filter (\<lambda>v. v \<noteq> NA) cells)))))"

text \<open>Lines 41--44: one multiselect per categorical column, in order; the
  widget returns a sublist of its options.\<close>

fun category_selections ::
  "dash_env \<Rightarrow> record_row list \<Rightarrow> (string \<Rightarrow> string list \<Rightarrow> string list) \<Rightarrow> string list
     \<Rightarrow> py_error + (string \<times> string list) list" where
  "category_selections env rows pick [] = Inr []"
| "category_selections env rows pick (c # cs) =
     (case category_options env rows c of
        Inl e \<Rightarrow> Inl e
      | Inr opts \<Rightarrow>
          (case category_selections env rows pick cs of
             Inl e \<Rightarrow> Inl e
           | Inr rest \<Rightarrow> Inr ((c, filter (\<lambda>v. v \<in> set opts) (pick c opts)) # rest)))"

text \<open>Lines 47--51: one range slider per numeric column; \<open>preview_df[num]\<close>
  raises first when the column is missing.  The slider's value is the input
  \<open>rng num\<close> (its initial value is \<open>dash_range\<close>).\<close>

fun numeric_selections ::
  "record_row list \<Rightarrow> (string \<Rightarrow> real \<times> real) \<Rightarrow> string list \<Rightarrow> py_error + (string \<times> real \<times> real) list" where
  "numeric_selections rows rng [] = Inr []"
| "numeric_selections rows rng (n # ns) =
     (case frame_column rows n of
        Inl e \<Rightarrow> Inl e
      | Inr _ \<Rightarrow>
          (case numeric_selections rows rng ns of
             Inl e \<Rightarrow> Inl e
           | Inr rest \<Rightarrow> Inr ((n, rng n) # rest)))"

record page_view =
  pv_data :: page_data
  pv_ranges :: "(string \<times> real \<times> real) list"
  pv_rows :: "record_row list"

text \<open>Lines 19--62: from the reply of \<open>/upload\<close> to the filtered preview.\<close>

definition page_setup ::
  "dash_env \<Rightarrow> py_error + response \<Rightarrow> (string \<Rightarrow> string list \<Rightarrow> string list) \<Rightarrow> (string \<Rightarrow> real \<times> real)
     \<Rightarrow> page_stop + page_view" where
  "page_setup env resp pick rng =
     (case upload_view resp of
        Inl s \<Rightarrow> Inl s
      | Inr d \<Rightarrow>
          (case category_selections env (pd_preview d) pick (pd_categorical d) of
             Inl e \<Rightarrow> Inl (Crash e)
           | Inr sels \<Rightarrow>
               (case numeric_selections (pd_preview d) rng (pd_numeric d) of
                  Inl e \<Rightarrow> Inl (Crash e)
                | Inr ranges \<Rightarrow>
                    Inr \<lparr>pv_data = d, pv_ranges = ranges,
                         pv_rows = filtered_preview env (pd_preview d) sels ranges\<rparr>)))"

section \<open>The charts\<close>

text \<open>Lines 98 and 102 group the filtered rows by the X column:
  \<open>groupby(x)\<close> drops the rows whose key is NaN and, with \<open>sort=True\<close>, orders
  the distinct keys; a column of numbers and strings is ordered by pandas'
  \<open>safe_sort\<close>, numbers first.  A key is a JSON scalar: a number (a bool is
  the number 0 or 1, as Python hashes it) or a string (a timestamp arrives as
  its ISO string, \<open>str\<close> of the decoded value).\<close>

datatype json_key = KNum real | KStr string

fun key_le :: "json_key \<Rightarrow> json_key \<Rightarrow> bool" where
  "key_le (KNum a) (KNum b) = (a \<le> b)"
| "key_le (KNum a) (KStr t) = True"
| "key_le (KStr s) (KNum b) = False"
| "key_le (KStr s) (KStr t) = (s \<le> t)"

instantiation json_key :: linorder
begin

definition less_eq_json_key :: "json_key \<Rightarrow> json_key \<Rightarrow> bool" where
  "less_eq_json_key = key_le"

definition less_json_key :: "json_key \<Rightarrow> json_key \<Rightarrow> bool" where
  "less_json_key a b \<longleftrightarrow> key_le a b \<and> \<not> key_le b a"

instance
proof
  fix a b c :: json_key
  show "a < b \<longleftrightarrow> a \<le> b \<and> \<not> b \<le> a" by (simp add: less_json_key_def less_eq_json_key_def)
  show "a \<le> a" by (cases a) (simp_all add: less_eq_json_key_def)
  show "a \<le> b \<Longrightarrow> b \<le> c \<Longrightarrow> a \<le> c"
    by (cases a; cases b; cases c) (auto simp: less_eq_json_key_def)
  show "a \<le> b \<Longrightarrow> b \<le> a \<Longrightarrow> a = b" by (cases a; cases b) (auto simp: less_eq_json_key_def)
  show "a \<le> b \<or> b \<le> a" by (cases a; cases b) (auto simp: less_eq_json_key_def)
qed

end

definition key_of :: "dash_env \<Rightarrow> cell \<Rightarrow> json_key option" where
  "key_of env c =
     (case c of
        Num r \<Rightarrow> Some (KNum r)
      | Flag b \<Rightarrow> Some (KNum (if b then 1 else 0))
      | Str s \<Rightarrow> Some (KStr s)
      | Stamp t \<Rightarrow> Some (KStr (cell_str env (Stamp t)))
      | NA \<Rightarrow> None)"

text \<open>Line 58: in \<open>df_preview\<close> (and its copy \<open>plot_df\<close>, line 89) every
  numeric column holds \<open>pd.to_numeric(..., errors="coerce")\<close> of the preview.\<close>

definition plot_cell :: "dash_env \<Rightarrow> string list \<Rightarrow> record_row \<Rightarrow> string \<Rightarrow> cell" where
  "plot_cell env nums row c =
     (if c \<in> set nums then (case to_numeric env (row_get row c) of Some r \<Rightarrow> Num r | None \<Rightarrow> NA)
      else row_get row c)"

text \<open>\<open>groupby(key)[value].sum()\<close>: one row per distinct key in key order,
  the sum of the values of the group with NaN skipped (0 for none).\<close>

definition group_sum :: "('r \<Rightarrow> 'k::linorder option) \<Rightarrow> ('r \<Rightarrow> real option) \<Rightarrow> 'r list \<Rightarrow> ('k \<times> real) list" where
  "group_sum kf g rows =
     map (\<lambda>k. (k, sum_list (List.map_filter (\<lambda>r. if kf r = Some k then g r else None) rows)))
         (sort (remdups (List.map_filter kf rows)))"

text \<open>Line 98, the bar chart: the groups by decreasing total,
  \<open>sort_values(y, ascending=False)\<close>, which keeps tied groups in key order.
  The Y column is one of the numeric columns (the page's options for it
  when there is one, line 85), so its values are the coerced numbers.\<close>

definition bar_agg :: "dash_env \<Rightarrow> string list \<Rightarrow> record_row list \<Rightarrow> string \<Rightarrow> string \<Rightarrow> (json_key \<times> real) list" where
  "bar_agg env nums rows x y =
     sort_key (\<lambda>p. - snd p)
       (group_sum (\<lambda>row. key_of env (plot_cell env nums row x)) (\<lambda>row. to_numeric env (row_get row y)) rows)"

text \<open>Line 102, the pie chart: the first ten rows of the same table.\<close>

definition pie_agg :: "dash_env \<Rightarrow> string list \<Rightarrow> record_row list \<Rightarrow> string \<Rightarrow> string \<Rightarrow> (json_key \<times> real) list" where
  "pie_agg env nums rows x y = take 10 (bar_agg env nums rows x y)"

section \<open>The buttons\<close>

text \<open>Lines 110, 125 and 162: the page posts the file it holds as
  \<open>(uploaded_file.name, uploaded_file.getvalue())\<close>, which the backend
  receives as an \<open>UploadFile\<close> with that \<open>filename\<close>.\<close>

definition posted_file :: "string \<Rightarrow> string \<Rightarrow> upload" where
  "posted_file name content = \<lparr>up_filename = Some name, up_name = name, up_content = content\<rparr>"

text \<open>FastAPI reads an empty form field as absent: \<open>Form(None)\<close> gives
  \<open>None\<close> for \<open>text=""\<close>.\<close>

definition form_text :: "string option \<Rightarrow> string option" where
  "form_text v = (case v of Some s \<Rightarrow> if s = [] then None else Some s | None \<Rightarrow> None)"

text \<open>Lines 109--121, "Generate Insights": a reply other than 200 shows
  "Insights request failed."; otherwise the page lists \<open>out.get("rule_based", [])\<close>
  and, when the box is ticked, \<open>out.get("llm") or "No LLM summary returned."\<close>.
  A reply with an \<open>error\<close> key has neither, so it shows an empty list.\<close>

datatype insights_view = InsightsShown "insight list" "string option" | InsightsFailed

definition llm_or_default :: "string option \<Rightarrow> string" where
  "llm_or_default v = (case v of Some s \<Rightarrow> if s = [] then ''No LLM summary returned.'' else s
                                | None \<Rightarrow> ''No LLM summary returned.'')"

definition insights_action :: "api_env \<Rightarrow> string \<Rightarrow> string \<Rightarrow> bool \<Rightarrow> insights_view" where
  "insights_action env name content use_llm =
     (case insights_endpoint env (posted_file name content) use_llm of
        Inl _ \<Rightarrow> InsightsFailed
      | Inr (InsightsResp ins llm) \<Rightarrow> InsightsShown ins (if use_llm then Some (llm_or_default llm) else None)
      | Inr _ \<Rightarrow> InsightsShown [] (if use_llm then Some (llm_or_default None) else None))"

text \<open>Lines 124--143, "Run Forecast": the slider's period count and no
  column, so the endpoint picks its defaults; an \<open>error\<close> key is shown, the
  tables otherwise, and a reply other than 200 shows "Forecast request failed.".\<close>

datatype forecast_view = ForecastShown forecast_result | ForecastError string | ForecastFailed
  | ForecastCrash py_error

definition forecast_action :: "api_env \<Rightarrow> string \<Rightarrow> string \<Rightarrow> nat \<Rightarrow> forecast_view" where
  "forecast_action env name content periods =
     (case forecast_endpoint env (posted_file name content) (int periods) None None of
        Inl _ \<Rightarrow> ForecastFailed
      | Inr (ErrorResp m) \<Rightarrow> ForecastError m
      | Inr (ForecastResp r) \<Rightarrow> ForecastShown r
      | Inr _ \<Rightarrow> ForecastCrash (KeyError ''historical''))"

text \<open>Lines 152--163, "Run AI Agent": the page warns when the question is
  empty and the file is not to be sent; otherwise it posts the stripped
  question (when the question is non-empty) and the file (when the box is
  ticked).  The guard tests the question before stripping it.\<close>

definition agent_request :: "string \<Rightarrow> bool \<Rightarrow> (string option \<times> bool) option" where
  "agent_request query send_file =
     (if query = [] \<and> \<not> send_file then None
      else Some (if query \<noteq> [] then Some (py_strip query) else None, send_file))"

datatype agent_view = AgentWarning | AgentShows string | AgentFailed string

text \<open>Lines 164--169: \<open>resp.json().get("result", "")\<close>, or the status code
  of a failed request (an exception in the endpoint is a 500).\<close>

definition agent_action :: "api_env \<Rightarrow> string \<Rightarrow> bool \<Rightarrow> string \<Rightarrow> string \<Rightarrow> agent_view" where
  "agent_action env query send_file name content =
     (case agent_request query send_file of
        None \<Rightarrow> AgentWarning
      | Some (text, with_file) \<Rightarrow>
          (case agent_endpoint env (form_text text) (if with_file then Some (posted_file name content) else None) of
             Inl _ \<Rightarrow> AgentFailed ''Request failed: 500''
           | Inr (AgentResp r) \<Rightarrow> AgentShows r
           | Inr _ \<Rightarrow> AgentShows []))"

section \<open>Lemmas on the page and its charts\<close>

lemma frame_columns_Nil [simp]: "frame_columns [] = []"
  by (simp add: frame_columns_def)

lemma preview_no_rows: "nrows df = 0 \<Longrightarrow> preview df = []"
  using length_preview [of df] by simp

lemma sum_map_filter_if:
  "sum_list (List.map_filter (\<lambda>r. if P r then g r else None) rows)
   = sum_list (map (\<lambda>r. if P r then (case g r of Some v \<Rightarrow> v | None \<Rightarrow> 0) else 0) rows)"
  by (induction rows) (simp_all add: List.map_filter_simps split: option.split)

lemma set_map_filter_keys: "set (List.map_filter f xs) = {y. \<exists>x \<in> set xs. f x = Some y}"
  by (induction xs) (auto simp: List.map_filter_simps split: option.splits)

lemma sum_over_groups:
  assumes "finite K"
  shows "(\<Sum>k\<in>K. sum_list (map (\<lambda>r. if kf r = Some k then h r else 0) rows))
    = sum_list (map (\<lambda>r. if \<exists>k \<in> K. kf r = Some k then h r else 0) rows)"
proof (induction rows)
  case Nil
  then show ?case by simp
next
  case (Cons r rs)
  have one: "(\<Sum>k\<in>K. if kf r = Some k then h r else 0) = (if \<exists>k \<in> K. kf r = Some k then h r else 0)"
  proof (cases "kf r")
    case None
    then show ?thesis by simp
  next
    case (Some a)
    have "(\<Sum>k\<in>K. if a = k then h r else 0) = (if a \<in> K then h r else 0)"
      using assms by simp
    then show ?thesis using Some by simp
  qed
  show ?case using Cons one by (simp add: sum.distrib)
qed

lemma group_sum_keys: "map fst (group_sum kf g rows) = sort (remdups (List.map_filter kf rows))"
  by (simp add: group_sum_def comp_def)

lemma group_sum_total:
  "sum_list (map snd (group_sum kf g rows))
   = sum_list (List.map_filter (\<lambda>r. if kf r \<noteq> None then g r else None) rows)"
proof -
  let ?K = "set (List.map_filter kf rows)"
  have "sum_list (map snd (group_sum kf g rows))
      = (\<Sum>k\<in>?K. sum_list (map (\<lambda>r. if kf r = Some k then (case g r of Some v \<Rightarrow> v | None \<Rightarrow> 0) else 0) rows))"
    by (simp add: group_sum_def comp_def sum_map_filter_if sum_list_distinct_conv_sum_set)
  also have "\<dots> = sum_list (map (\<lambda>r. if \<exists>k \<in> ?K. kf r = Some k then (case g r of Some v \<Rightarrow> v | None \<Rightarrow> 0) else 0) rows)"
    by (rule sum_over_groups) simp
  also have "\<dots> = sum_list (map (\<lambda>r. if kf r \<noteq> None then (case g r of Some v \<Rightarrow> v | None \<Rightarrow> 0) else 0) rows)"
    by (rule arg_cong [where f = sum_list], rule map_cong) (auto simp: set_map_filter_keys)
  finally show ?thesis by (simp add: sum_map_filter_if)
qed

lemma sort_desc_perm:
  "mset (sort_key (\<lambda>p. - snd p) xs) = mset xs
   \<and> sorted_wrt (\<lambda>p q. snd q \<le> snd p) (sort_key (\<lambda>p. - snd (p :: 'k \<times> real)) xs)"
  using sorted_sort_key [of "\<lambda>p. - snd p" xs] by (simp add: sorted_map)

lemma perm_sum_list_map:
  "mset xs = mset ys \<Longrightarrow> sum_list (map (f :: 'a \<Rightarrow> 'b::comm_monoid_add) xs) = sum_list (map f ys)"
proof -
  assume "mset xs = mset ys"
  then have "sum_mset (mset (map f xs)) = sum_mset (mset (map f ys))" by simp
  then show ?thesis by (simp only: sum_mset_sum_list)
qed

lemma perm_distinct_map:
  "mset xs = mset ys \<Longrightarrow> distinct (map f xs) = distinct (map f ys)"
  by (rule mset_eq_imp_distinct_iff) (simp add: mset_map)

lemma py_strip_blank: "\<forall>c \<in> set q. py_space c \<Longrightarrow> py_strip q = []"
  by (auto simp: py_strip_def dropWhile_eq_Nil_conv dest: set_dropWhileD)

section \<open>Properties of the page set-up\<close>

text \<open>C30: a file that loads to a frame with columns but no row (a CSV
  with only its header) breaks the dashboard: \<open>/upload\<close> answers with an
  empty preview, the frame the page rebuilds from it has no column, and the
  first categorical (else numeric) filter raises \<open>KeyError\<close>.\<close>

theorem empty_upload_crashes_page:
  assumes "load_file (api_readers env) u = Inr df" "distinct (columns df)" "nrows df = 0"
    "detect_column_types (api_parser env) df = (num, cat, dts, clean)" "cat @ num \<noteq> []"
  shows "page_setup denv (upload_endpoint env u) pick rng = Inl (Crash (KeyError (hd (cat @ num))))"
proof -
  have rows: "nrows clean = 0" using detect_column_types_names [OF assms(2,4)] assms(3) by simp
  have up: "upload_view (upload_endpoint env u)
      = Inr \<lparr>pd_preview = [], pd_numeric = num, pd_categorical = cat, pd_datetime = dts\<rparr>"
    using assms(1,4) preview_no_rows [OF rows] by (simp add: upload_endpoint_def upload_view_def)
  show ?thesis
  proof (cases cat)
    case Nil
    then obtain n ns where "num = n # ns" using assms(5) by (cases num) auto
    then show ?thesis using up Nil by (simp add: page_setup_def frame_column_def)
  next
    case (Cons c cs)
    then show ?thesis using up by (simp add: page_setup_def category_options_def frame_column_def)
  qed
qed

text \<open>A CSV with the header \<open>region\<close> and no row.\<close>

theorem empty_upload_crashes_page_witness:
  "page_setup example_dash_env
     (upload_endpoint (example_api_env\<lparr>api_readers := \<lparr>read_csv = \<lambda>_. Inr [(''region'', \<lparr>col_dtype = Object, col_cells = []\<rparr>)],
        read_excel = \<lambda>_. Inr [], read_pdf = \<lambda>_. Inr []\<rparr>\<rparr>) example_upload) (\<lambda>_ opts. opts) (\<lambda>_. (0, 1))
   = Inl (Crash (KeyError ''region''))"
proof -
  let ?env = "example_api_env\<lparr>api_readers := \<lparr>read_csv = \<lambda>_. Inr [(''region'', \<lparr>col_dtype = Object, col_cells = []\<rparr>)],
        read_excel = \<lambda>_. Inr [], read_pdf = \<lambda>_. Inr []\<rparr>\<rparr>"
  have l: "load_file (api_readers ?env) example_upload = Inr [(''region'', \<lparr>col_dtype = Object, col_cells = []\<rparr>)]"
    by code_simp
  have d: "distinct (columns [(''region'', \<lparr>col_dtype = Object, col_cells = []\<rparr>)])"
    by (simp add: columns_def)
  have n: "nrows [(''region'', \<lparr>col_dtype = Object, col_cells = []\<rparr>)] = 0"
    by (simp add: nrows_def)
  have c: "detect_column_types (api_parser ?env) [(''region'', \<lparr>col_dtype = Object, col_cells = []\<rparr>)]
      = ([], [''region''], [], [(''region'', \<lparr>col_dtype = Object, col_cells = []\<rparr>)])"
    by code_simp
  show ?thesis
    using empty_upload_crashes_page [OF l d n c, of example_dash_env "\<lambda>_ opts. opts" "\<lambda>_. (0, 1)"] by simp
qed

section \<open>Properties of the charts\<close>

text \<open>C31: the bar chart's table has one row per distinct non-NaN value of
  the X column, the total of the Y values of that group (NaN skipped) in each
  row, rows by non-increasing total, and the grand total of the Y values of
  the rows whose key is not NaN.\<close>

theorem bar_chart_groups:
  "distinct (map fst (bar_agg env nums rows x y))
   \<and> set (map fst (bar_agg env nums rows x y))
       = {k. \<exists>row \<in> set rows. key_of env (plot_cell env nums row x) = Some k}
   \<and> (\<forall>(k, v) \<in> set (bar_agg env nums rows x y).
        v = sum_list (List.map_filter (\<lambda>row. if key_of env (plot_cell env nums row x) = Some k
                                              then to_numeric env (row_get row y) else None) rows))
   \<and> sorted_wrt (\<lambda>p q. snd q \<le> snd p) (bar_agg env nums rows x y)
   \<and> sum_list (map snd (bar_agg env nums rows x y))
       = sum_list (List.map_filter (\<lambda>row. if key_of env (plot_cell env nums row x) \<noteq> None
                                           then to_numeric env (row_get row y) else None) rows)"
proof -
  let ?kf = "\<lambda>row. key_of env (plot_cell env nums row x)"
  let ?g = "\<lambda>row. to_numeric env (row_get row y)"
  let ?G = "group_sum ?kf ?g rows"
  have bar: "bar_agg env nums rows x y = sort_key (\<lambda>p. - snd p) ?G"
    unfolding bar_agg_def ..
  note perm = conjunct1 [OF sort_desc_perm [of ?G]]
  have set_eq: "set (bar_agg env nums rows x y) = set ?G"
    using arg_cong [OF perm, of set_mset] unfolding bar by (simp only: set_mset_mset)
  have dist: "distinct (map fst (bar_agg env nums rows x y))"
    using perm_distinct_map [OF perm, of fst] unfolding bar group_sum_keys by simp
  have "set (map fst (bar_agg env nums rows x y)) = set (map fst ?G)"
    using set_eq by simp
  also have "\<dots> = set (List.map_filter ?kf rows)"
    by (simp only: group_sum_keys set_sort set_remdups)
  finally have keys: "set (map fst (bar_agg env nums rows x y))
      = {k. \<exists>row \<in> set rows. ?kf row = Some k}"
    by (simp only: set_map_filter_keys)
  have "\<forall>(k, v) \<in> set ?G.
      v = sum_list (List.map_filter (\<lambda>row. if ?kf row = Some k then ?g row else None) rows)"
    by (simp add: group_sum_def)
  then have vals: "\<forall>(k, v) \<in> set (bar_agg env nums rows x y).
      v = sum_list (List.map_filter (\<lambda>row. if ?kf row = Some k then ?g row else None) rows)"
    by (simp only: set_eq)
  have total: "sum_list (map snd (bar_agg env nums rows x y))
      = sum_list (List.map_filter (\<lambda>row. if ?kf row \<noteq> None then ?g row else None) rows)"
    using perm_sum_list_map [OF perm, of snd] group_sum_total [of ?kf ?g rows] unfolding bar by simp
  have sorted: "sorted_wrt (\<lambda>p q. snd q \<le> snd p) (bar_agg env nums rows x y)"
    using conjunct2 [OF sort_desc_perm [of ?G]] unfolding bar .
  show ?thesis
    using dist keys vals total sorted by blast
qed

text \<open>C32: the pie chart shows at most ten groups of the bar chart, and
  every group it leaves out has a total no larger than each group it shows.\<close>

theorem pie_chart_top_ten:
  "length (pie_agg env nums rows x y) = min 10 (length (bar_agg env nums rows x y))
   \<and> set (pie_agg env nums rows x y) \<subseteq> set (bar_agg env nums rows x y)
   \<and> (\<forall>p \<in> set (pie_agg env nums rows x y).
        \<forall>q \<in> set (bar_agg env nums rows x y) - set (pie_agg env nums rows x y). snd q \<le> snd p)"
proof -
  let ?b = "bar_agg env nums rows x y"
  let ?p = "pie_agg env nums rows x y"
  have sorted: "sorted_wrt (\<lambda>p q. snd q \<le> snd p) (take 10 ?b @ drop 10 ?b)"
    using conjunct2 [OF sort_desc_perm] unfolding bar_agg_def append_take_drop_id .
  then have split: "\<forall>p \<in> set (take 10 ?b). \<forall>q \<in> set (drop 10 ?b). snd q \<le> snd p"
    unfolding sorted_wrt_append by blast
  have parts: "set ?b = set ?p \<union> set (drop 10 ?b)"
    using set_append [of "take 10 ?b" "drop 10 ?b"] unfolding pie_agg_def append_take_drop_id .
  have len: "length ?p = min 10 (length ?b)"
    unfolding pie_agg_def by (simp add: min.commute)
  have sub: "set ?p \<subseteq> set ?b"
    unfolding pie_agg_def by (rule set_take_subset)
  have top: "\<forall>p \<in> set ?p. \<forall>q \<in> set ?b - set ?p. snd q \<le> snd p"
  proof (intro ballI)
    fix p q
    assume p: "p \<in> set ?p" and q: "q \<in> set ?b - set ?p"
    have "q \<in> set (drop 10 ?b)" using q parts by blast
    then show "snd q \<le> snd p" using split p unfolding pie_agg_def by blast
  qed
  show ?thesis using len sub top by blast
qed


text \<open>The example rows grouped by region: north totals 4, south's only
  sales value is the empty string, NaN after coercion, so its total is 0.\<close>


text \<open>The example rows grouped by region: north totals 4, south's only
  sales value is the empty string, NaN after coercion, so its total is 0.\<close>

theorem bar_chart_groups_witness:
  "bar_agg example_dash_env [''sales''] example_rows ''region'' ''sales''
     = [(KStr ''north'', 4), (KStr ''south'', 0)]
   \<and> sum_list (map snd (bar_agg example_dash_env [''sales''] example_rows ''region'' ''sales'')) = 4"
proof -
  have b: "bar_agg example_dash_env [''sales''] example_rows ''region'' ''sales''
     = [(KStr ''north'', 4), (KStr ''south'', 0)]" by code_simp
  have t: "sum_list (List.map_filter (\<lambda>row. if key_of example_dash_env (plot_cell example_dash_env [''sales''] row ''region'') \<noteq> None
             then to_numeric example_dash_env (row_get row ''sales'') else None) example_rows) = 4"
    by code_simp
  show ?thesis
    using bar_chart_groups [of example_dash_env "[''sales'']" example_rows "''region''" "''sales''"] b t by simp
qed

theorem pie_chart_top_ten_witness:
  "pie_agg example_dash_env [''sales''] example_rows ''region'' ''sales''
     = [(KStr ''north'', 4), (KStr ''south'', 0)]
   \<and> length (pie_agg example_dash_env [''sales''] example_rows ''region'' ''sales'') = 2"
proof -
  have b: "bar_agg example_dash_env [''sales''] example_rows ''region'' ''sales''
     = [(KStr ''north'', 4), (KStr ''south'', 0)]" by code_simp
  have p: "pie_agg example_dash_env [''sales''] example_rows ''region'' ''sales''
     = [(KStr ''north'', 4), (KStr ''south'', 0)]" by code_simp
  show ?thesis
    using pie_chart_top_ten [of example_dash_env "[''sales'']" example_rows "''region''" "''sales''"] b p by simp
qed

section \<open>Properties of the buttons\<close>

text \<open>C33: a question made only of whitespace passes the page's guard,
  since the guard tests the question before stripping it; without the file
  the page posts an empty text, which the endpoint reads as no text, and the
  model is asked the system instructions with an empty user message.  The
  page then shows the model's answer (or "No response"), or the 500 of a
  failed model call.\<close>

theorem blank_question_reaches_model:
  assumes "q \<noteq> []" "\<forall>c \<in> set q. py_space c"
  shows "agent_action env q False name content =
    (case generate (api_agent env) (agent_prompt (normalize None)) of
       Inl _ \<Rightarrow> AgentFailed ''Request failed: 500''
     | Inr r \<Rightarrow> AgentShows (if r = [] then ''No response'' else py_strip r))"
proof -
  have req: "agent_request q False = Some (Some [], False)"
    using assms by (simp add: agent_request_def py_strip_blank)
  have "form_text (Some []) = None" by (simp add: form_text_def)
  then show ?thesis
    using req
    by (simp add: agent_action_def agent_endpoint_def analyze_text_or_table_def is_greeting_def
                  agent_input_of_def normalize_None split: sum.split)
qed

text \<open>C35: "Run Forecast" never shows "Forecast request failed." and
  never breaks the page: the endpoint turns every failure into an \<open>error\<close>
  key, which the page shows, and otherwise the page draws the tables.\<close>

theorem forecast_button_never_fails:
  "(\<exists>m. forecast_action env name content p = ForecastError m)
   \<or> (\<exists>r. forecast_action env name content p = ForecastShown r)"
  using forecast_endpoint_reply [of env "posted_file name content" "int p" None None]
  by (auto simp: forecast_action_def)

text \<open>Two spaces, without the file: the example model answers nothing,
  so the page shows "No response".\<close>

theorem blank_question_reaches_model_witness:
  "agent_action example_api_env ''  '' False ''sales.csv'' ''csv'' = AgentShows ''No response''"
proof -
  have q: "''  '' \<noteq> []" by simp
  have s: "\<forall>c \<in> set ''  ''. py_space c" by code_simp
  have g: "generate (api_agent example_api_env) (agent_prompt (normalize None)) = Inr []" by simp
  show ?thesis using blank_question_reaches_model [OF q s, of example_api_env "''sales.csv''" "''csv''"] g by simp
qed

end
