(* ===== verification/Controls.thy ===== *)
theory Controls
  imports Page
begin

text \<open>
  The controls of \<open>src/frontend/pages/1_Dashboard.py\<close>: the sidebar
  widgets (lines 12--17), the two preview tables (lines 31--33 and 61--62),
  the selectboxes of the chart section (lines 66--86) and the chart the
  "Generate Chart" button draws (lines 88--107).  A widget returns a value
  within its options: a slider clamps to its bounds, a selectbox returns the
  option the user picked (given as its position), the first one by default,
  and \<open>None\<close> when it has no option.
\<close>

text \<open>\<open>st.slider(label, lo, hi, default)\<close> on integers: the value the user
  set, kept within the bounds.\<close>

definition int_slider :: "nat \<Rightarrow> nat \<Rightarrow> nat \<Rightarrow> nat" where
  "int_slider lo hi v = max lo (min hi v)"

record sidebar =
  sb_use_llm :: bool
  sb_forecast_periods :: nat
  sb_preview_rows :: nat

text \<open>Lines 15--17: the LLM checkbox, the forecast periods (1 to 24) and
  the number of preview rows (5 to 100).\<close>

definition sidebar_of :: "bool \<Rightarrow> nat \<Rightarrow> nat \<Rightarrow> sidebar" where
  "sidebar_of use_llm periods rows =
     \<lparr>sb_use_llm = use_llm, sb_forecast_periods = int_slider 1 24 periods,
      sb_preview_rows = int_slider 5 100 rows\<rparr>"

text \<open>The widgets' defaults: unticked, 6 periods, 10 rows.\<close>

definition default_sidebar :: sidebar where
  "default_sidebar = sidebar_of False 6 10"

text \<open>Lines 33 and 62: \<open>df.head(preview_rows)\<close>.\<close>

definition shown_rows :: "sidebar \<Rightarrow> record_row list \<Rightarrow> record_row list" where
  "shown_rows sb rows = take (sb_preview_rows sb) rows"

text \<open>\<open>st.selectbox(label, options, index=0)\<close>: the picked option, the
  first one when the pick is out of range, \<open>None\<close> without options.\<close>

definition selectbox :: "'a list \<Rightarrow> nat \<Rightarrow> 'a option" where
  "selectbox opts i =
     (if opts = [] then None else if i < length opts then Some (opts ! i) else Some (hd opts))"

datatype chart_type = LineChart | BarChart | PieChart | ScatterChart

record chart_picks =
  pick_metric :: nat
  pick_date :: nat
  pick_chart :: nat
  pick_x :: nat
  pick_y :: nat
  pick_color :: nat

record chart_choice =
  primary_metric :: "string option"
  date_col :: "string option"
  chart_kind :: "chart_type option"
  x_col :: "string option"
  y_col :: "string option"
  color_col :: "string option"

text \<open>Lines 68--86: the metric among the numeric columns, the date column
  among the datetime columns (\<open>None\<close> without one), the chart type, the X
  axis among the columns of the preview frame, the Y axis among the numeric
  columns (all columns when there is none), the colour among \<open>None\<close> and the
  columns.\<close>

definition chart_choices :: "page_data \<Rightarrow> chart_picks \<Rightarrow> chart_choice" where
  "chart_choices d p =
     (let cols = frame_columns (pd_preview d);
          nums = pd_numeric d
      in \<lparr>primary_metric = (if nums \<noteq> [] then selectbox nums (pick_metric p) else None),
          date_col = (if pd_datetime d \<noteq> [] then selectbox (pd_datetime d) (pick_date p) else None),
          chart_kind = selectbox [LineChart, BarChart, PieChart, ScatterChart] (pick_chart p),
          x_col = selectbox cols (pick_x p),
          y_col = selectbox (if nums \<noteq> [] then nums else cols) (pick_y p),
          color_col = (case selectbox (None # map Some cols) (pick_color p) of Some c \<Rightarrow> c | None \<Rightarrow> None)\<rparr>)"

text \<open>Lines 88--107.  The line chart needs a date column and otherwise
  shows "No date column detected for time series."; the line and scatter
  charts hand the columns to plotly; the bar and pie charts draw the
  group-by tables of \<open>Page\<close>.  \<open>groupby(None)\<close> raises "No group keys
  passed!" and \<open>df.groupby(x)[None]\<close> a \<open>KeyError\<close>.  The group-by of a Y
  column that is not numeric (possible only when the frame has no numeric
  column) concatenates strings; the model records that chart, not its
  table (\<open>ObjectTable\<close>).\<close>

datatype chart_view =
    LinePlot string "string option" "string option"
  | ScatterPlot "string option" "string option" "string option"
  | BarPlot "(json_key \<times> real) list" "string option"
  | PiePlot "(json_key \<times> real) list"
  | ObjectTable chart_type string string
  | ChartMessage string
  | ChartCrash py_error

definition grouped_chart ::
  "dash_env \<Rightarrow> string list \<Rightarrow> record_row list \<Rightarrow> chart_type \<Rightarrow> string option \<Rightarrow> string option
     \<Rightarrow> string option \<Rightarrow> chart_view" where
  "grouped_chart env nums rows ct x y color =
     (case (x, y) of
        (None, _) \<Rightarrow> ChartCrash (ValueError ''No group keys passed!'')
      | (Some _, None) \<Rightarrow> ChartCrash (KeyError ''None'')
      | (Some xc, Some yc) \<Rightarrow>
          if yc \<notin> set nums then ObjectTable ct xc yc
          else if ct = BarChart then BarPlot (bar_agg env nums rows xc yc) color
          else PiePlot (pie_agg env nums rows xc yc))"

definition chart_action :: "dash_env \<Rightarrow> string list \<Rightarrow> record_row list \<Rightarrow> chart_choice \<Rightarrow> chart_view" where
  "chart_action env nums rows c =
     (case chart_kind c of
        Some LineChart \<Rightarrow>
          (case date_col c of
             Some dc \<Rightarrow> LinePlot dc (y_col c) (color_col c)
           | None \<Rightarrow> ChartMessage ''No date column detected for time series.'')
      | Some BarChart \<Rightarrow> grouped_chart env nums rows BarChart (x_col c) (y_col c) (color_col c)
      | Some PieChart \<Rightarrow> grouped_chart env nums rows PieChart (x_col c) (y_col c) (color_col c)
      | _ \<Rightarrow> ScatterPlot (x_col c) (y_col c) (color_col c))"

section \<open>Lemmas on the controls\<close>

lemma int_slider_bounds: "lo \<le> hi \<Longrightarrow> lo \<le> int_slider lo hi v \<and> int_slider lo hi v \<le> hi"
  by (simp add: int_slider_def)

lemma sidebar_bounds:
  "1 \<le> sb_forecast_periods (sidebar_of l p r) \<and> sb_forecast_periods (sidebar_of l p r) \<le> 24
   \<and> 5 \<le> sb_preview_rows (sidebar_of l p r) \<and> sb_preview_rows (sidebar_of l p r) \<le> 100"
  using int_slider_bounds [of 1 24 p] int_slider_bounds [of 5 100 r] by (simp add: sidebar_of_def)

lemma selectbox_in: "selectbox opts i = Some v \<Longrightarrow> v \<in> set opts"
  by (auto simp: selectbox_def split: if_splits)

lemma selectbox_None: "selectbox opts i = None \<longleftrightarrow> opts = []"
  by (simp add: selectbox_def)

text \<open>The chosen Y axis is a numeric column whenever the frame has one,
  so the bar and pie charts then draw their group-by tables.\<close>

lemma y_col_numeric:
  "pd_numeric d \<noteq> [] \<Longrightarrow> \<exists>y. y_col (chart_choices d p) = Some y \<and> y \<in> set (pd_numeric d)"
  by (cases "selectbox (pd_numeric d) (pick_y p)")
     (auto simp: chart_choices_def Let_def selectbox_None dest: selectbox_in)

text \<open>With a numeric column and a non-empty frame, picking the bar chart
  draws the group-by table of the chosen X column and a numeric Y column.\<close>

lemma bar_chart_drawn:
  assumes "pd_numeric d \<noteq> []" "frame_columns (pd_preview d) \<noteq> []"
    "chart_kind (chart_choices d p) = Some BarChart"
  shows "\<exists>xc yc. yc \<in> set (pd_numeric d)
    \<and> chart_action env (pd_numeric d) rows (chart_choices d p)
        = BarPlot (bar_agg env (pd_numeric d) rows xc yc) (color_col (chart_choices d p))"
proof -
  obtain yc where y: "y_col (chart_choices d p) = Some yc" "yc \<in> set (pd_numeric d)"
    using y_col_numeric [OF assms(1)] by blast
  obtain xc where x: "x_col (chart_choices d p) = Some xc"
    using assms(2) by (cases "selectbox (frame_columns (pd_preview d)) (pick_x p)")
      (simp_all add: chart_choices_def Let_def selectbox_None)
  show ?thesis
    using assms(3) x y by (auto simp: chart_action_def grouped_chart_def)
qed

end
