(* ===== verification/Home.thy ===== *)
theory Home
  imports Prelude
begin

text \<open>
  The home page \<open>src/frontend/app.py\<close> (lines 20--46) embeds a script that
  rotates four slogans in the element \<open>slogan\<close>: it runs \<open>rotate()\<close> once
  and then every two seconds.  \<open>rotate\<close> writes \<open>slogans[i]\<close> into the
  element and advances \<open>i\<close> modulo the number of slogans; it does nothing
  when the element is missing.  The script's state is the counter and the
  element's content; a run is a sequence of calls, each with or without the
  element present.  JavaScript reads an array out of range as
  \<open>undefined\<close>, which \<open>innerHTML\<close> shows as that word.
\<close>

definition arrow :: string where
  "arrow = [CHR 0xE2, CHR 0x86, CHR 0x92]"

definition slogans :: "string list" where
  "slogans =
     [''Transform Data '' @ arrow @ '' Discover Patterns '' @ arrow @ '' Predict Future'',
      ''Your AI Partner for Business Intelligence'',
      ''Ask. Analyse. Understand. Decide.'',
      ''Turn Raw Data into Smart Decisions'']"

record rotor =
  slogan_i :: nat
  slogan_html :: "string option"

definition js_index :: "string list \<Rightarrow> nat \<Rightarrow> string" where
  "js_index xs i = (if i < length xs then xs ! i else ''undefined'')"

definition home_init :: rotor where
  "home_init = \<lparr>slogan_i = 0, slogan_html = None\<rparr>"

text \<open>Lines 31--36: \<open>rotate()\<close>; \<open>el\<close> says whether the element exists.\<close>

definition rotate :: "bool \<Rightarrow> rotor \<Rightarrow> rotor" where
  "rotate el s =
     (if \<not> el then s
      else \<lparr>slogan_i = (slogan_i s + 1) mod length slogans,
            slogan_html = Some (js_index slogans (slogan_i s))\<rparr>)"

text \<open>Lines 37--38: the call at load time and the calls of the timer.\<close>

inductive home_run :: "rotor \<Rightarrow> bool" where
  load: "home_run (rotate el home_init)"
| tick: "home_run s \<Longrightarrow> home_run (rotate el s)"

section \<open>Lemmas on the rotation\<close>

lemma length_slogans [simp]: "length slogans = 4"
  by (simp add: slogans_def)

lemma rotate_keeps_index: "slogan_i s < 4 \<Longrightarrow> slogan_i (rotate el s) < 4"
  by (simp add: rotate_def)

lemma home_run_index: "home_run s \<Longrightarrow> slogan_i s < 4"
  by (induction rule: home_run.induct) (simp_all add: rotate_keeps_index home_init_def rotate_def)

lemma rotate_iter:
  assumes "slogan_i s < 4"
  shows "slogan_i ((rotate True ^^ Suc m) s) = (slogan_i s + Suc m) mod 4
    \<and> slogan_html ((rotate True ^^ Suc m) s) = Some (slogans ! ((slogan_i s + m) mod 4))"
proof (induction m)
  case 0
  then show ?case using assms by (simp add: rotate_def js_index_def)
next
  case (Suc m)
  then show ?case by (simp add: rotate_def js_index_def mod_Suc_eq)
qed

section \<open>Properties of the rotation\<close>

text \<open>C34: liveness of the rotation.  In every state the script can reach,
  as long as the element stays on the page, every slogan is shown again
  within four calls of \<open>rotate\<close>, eight seconds.\<close>

theorem every_slogan_shown:
  assumes "home_run s" "k < length slogans"
  shows "\<exists>m < length slogans. slogan_html ((rotate True ^^ Suc m) s) = Some (slogans ! k)"
proof -
  have i: "slogan_i s < 4" using assms(1) by (rule home_run_index)
  let ?m = "(k + 4 - slogan_i s) mod 4"
  have "(slogan_i s + ?m) mod 4 = k"
    using i assms(2) by (simp add: mod_add_right_eq)
  then have "slogan_html ((rotate True ^^ Suc ?m) s) = Some (slogans ! k)"
    using rotate_iter [OF i, of ?m] by simp
  then show ?thesis by (intro exI [of _ ?m]) simp
qed

text \<open>After the load-time call the counter is 1, and the third slogan
  comes after one more call.\<close>

theorem every_slogan_shown_witness:
  "\<exists>m < 4. slogan_html ((rotate True ^^ Suc m) (rotate True home_init))
      = Some ''Ask. Analyse. Understand. Decide.''"
proof -
  have r: "home_run (rotate True home_init)" by (rule home_run.load)
  have k: "2 < length slogans" by simp
  have s: "slogans ! 2 = ''Ask. Analyse. Understand. Decide.''" by (simp add: slogans_def)
  show ?thesis using every_slogan_shown [OF r k] s by simp
qed

end
