(* ===== verification/Spec2Isabelle.thy ===== *)
theory Spec2Isabelle
  imports Insights Forecasting Loader Agent Api Dashboard Page Controls Home
begin

text \<open>
  \<^bold>\<open>A verification model of the Custom Dashboard Generation Agent.\<close>

  The repository is a FastAPI backend (\<open>src/backend\<close>) and a Streamlit
  front end (\<open>src/frontend\<close>).  A request to \<open>src/backend/api.py\<close> loads
  the uploaded file (\<open>load_file\<close>, \<open>data_processing.py\<close>), classifies its
  columns (\<open>detect_column_types\<close>), and passes the result to the rule-based
  insight generator (\<open>insights.py\<close>), the forecaster (\<open>forecasting.py\<close>)
  or the chat agent (\<open>agent/gemini_agent.py\<close>); the dashboard page
  (\<open>frontend/pages/1_Dashboard.py\<close>) is a client of the endpoints: it
  posts the file, filters the preview rows \<open>/upload\<close> returns, draws
  group-by charts and calls \<open>/insights\<close>, \<open>/forecast\<close> and
  \<open>/agent/analyze\<close> from its buttons; the home page (\<open>frontend/app.py\<close>)
  rotates slogans with an embedded script.  Each part is a theory; a theory imports the parts it calls, so
  the composition of the code is the import graph.

  \<^bold>\<open>Theories and the code they model.\<close>
  \<^item> \<open>Prelude\<close>: the named collections, Python slices \<open>xs[:k]\<close>
    (\<open>py_take\<close>), timestamps as pandas stores them (nanoseconds since the
    epoch), and shared lemmas on sums, counts and floor division.
  \<^item> \<open>Table\<close>: a DataFrame as an ordered list of named columns (record
    \<open>column\<close>: dtype and cells; \<open>NA\<close> for every missing marker), \<open>df[name]\<close>
    (\<open>df_get\<close>, which fails on a repeated label), \<open>df[name] = c\<close>
    (\<open>set_col\<close>), and the invariant \<open>wf_table\<close> pandas guarantees.
  \<^item> \<open>Classifier\<close>: \<open>detect_column_types\<close> (data_processing.py 35--55) with
    its loop \<open>detect_loop\<close>; \<open>pd.to_datetime\<close> is the parameter \<open>parser\<close>.
  \<^item> \<open>Stats\<close>: mean, median, min, max and the one-feature least-squares fit
    of \<open>LinearRegression\<close>, with its specification \<open>sse\<close>.
  \<^item> \<open>Insights\<close>: \<open>generate_rule_based_insights\<close> (insights.py 6--41);
    insights are kept as structured values rather than formatted strings.
  \<^item> \<open>Calendar\<close>: the proleptic Gregorian calendar and the bucket labels
    of \<open>resample\<close> and \<open>date_range\<close> for the frequencies D, W (weeks ending
    on Sunday) and M (month ends).
  \<^item> \<open>Forecasting\<close>: \<open>auto_detect_freq\<close> and \<open>forecast_time_series\<close>
    (forecasting.py 7--64); \<open>forecast_from_rows\<close> is the part after the
    rows are cleaned.
  \<^item> \<open>Loader\<close>: \<open>load_file\<close> (data_processing.py 5--33) with
    \<open>pd.concat\<close> of the PDF tables; the parsers are the record
    \<open>readers\<close>.
  \<^item> \<open>Agent\<close>: \<open>_normalize\<close>, \<open>read_any_file_to_text\<close> and
    \<open>analyze_text_or_table\<close> (gemini_agent.py 31--116); the model call,
    \<open>to_csv\<close> and the number format are the record \<open>agent_env\<close>.
    \<open>split_ws\<close> and \<open>join_words\<close> are the reference \<open>' '.join(s.split())\<close>,
    not code of the repository.
  \<^item> \<open>Api\<close>: the endpoints \<open>/upload\<close>, \<open>/insights\<close>, \<open>/forecast\<close> and
    \<open>/agent/analyze\<close> (api.py 27--104) and \<open>generate_llm_summary\<close>
    (insights.py 43--82); a response is \<open>Inr\<close> of the JSON body or \<open>Inl\<close> of
    an exception the handler lets through.
  \<^item> \<open>Dashboard\<close>: the filters and the KPI of 1_Dashboard.py (39--62,
    78--81) over the preview rows.
  \<^item> \<open>Page\<close>: the rest of 1_Dashboard.py composed with \<open>Api\<close>: the
    reply of \<open>/upload\<close> (\<open>upload_view\<close>), the frame rebuilt from the
    records (\<open>frame_columns\<close>), the filter loops with their \<open>KeyError\<close>s
    (\<open>page_setup\<close>), the bar and pie tables (\<open>group_sum\<close>, \<open>bar_agg\<close>,
    \<open>pie_agg\<close>, with pandas' key order as a \<open>linorder\<close> instance of
    \<open>json_key\<close>), and the three buttons (\<open>insights_action\<close>,
    \<open>forecast_action\<close>, \<open>agent_action\<close>) applied to the endpoints.
  \<^item> \<open>Controls\<close>: the sidebar widgets, the preview tables, the
    selectboxes and the chart the "Generate Chart" button draws (1_Dashboard.py
    12--17, 31--33, 66--107); a widget returns one of its options
    (\<open>int_slider\<close>, \<open>selectbox\<close>).
  \<^item> \<open>Home\<close>: the slogan script of app.py (20--46) as the state machine
    \<open>home_run\<close> over the counter and the element's content.

  \<^bold>\<open>What is proved.\<close>
  Classifier (C1--C3): the loop computes the per-column classification
  (refinement of \<open>classify_spec\<close>), the three lists partition the columns,
  and the datetime threshold \<open>max(2, rows/2)\<close> is inclusive.
  Insights (C4--C7): the per-section caps, the top-three value counts, the
  bounds of the numeric summaries, and the trend statement: upward, downward
  or none as the covariance of time and value is positive, negative or zero.
  Forecaster (C8--C14): the frequency rule in terms of the span of the days,
  the bucket invariant of the resampling (strictly increasing on-offset
  labels, every row covered, total preserved), the dates of the forecast
  (strictly increasing, after the history, as many as asked), the values on a
  least-squares line, two dates two days apart forecast with a zero-filled
  middle day, no forecast from \<open>/forecast\<close> for a horizon of zero or fewer
  periods, and the failure of rows spanning two days.
  Loader (C15, C16): which names are rejected, and the totality of the PDF
  branch.
  Agent (C17--C19): \<open>_normalize\<close> equals \<open>' '.join(text.split())\<close> (the
  words of the reference \<open>split_ws\<close> lose only whitespace, a lemma), an
  uncaught model failure, and the case-sensitive extension test of the
  direct numeric answer.
  Endpoints (C20--C24): \<open>/forecast\<close> never raises, \<open>/insights\<close> raises
  nothing on frames with distinct labels and is unaffected by the LLM
  summary, \<open>/upload\<close> reports a partition of the columns, and the default
  forecast columns.
  Dashboard (C25--C27): the filter loops equal one declarative filter, the
  initial slider ranges drop rows with a missing number, and the KPI mean
  lies in the chosen range.
  Types and calendar (C28, C29): \<open>detect_column_types\<close> leaves a
  well-formed frame whose datetime columns have dtype datetime64; a bucket
  label is the least on-offset day at or after the day (Sundays for weeks,
  month ends for months).
  Front end (C30--C35): a header-only CSV crashes the dashboard's filters,
  the bar chart's table is the group totals by decreasing total, the pie
  shows the ten largest groups, a blank question reaches the model, every
  slogan comes back within four calls of the home page's timer (liveness,
  from the counter invariant proved by rule induction on \<open>home_run\<close>), and
  the forecast button never shows its failure message.

  \<^bold>\<open>Bounds and loops.\<close>  The loops of the source run over the columns,
  the rows or the buckets of a frame and are structural recursion here.  The
  model's own recursions are \<open>function\<close>s with a measure: \<open>month_search\<close>
  (at most twelve months), \<open>split_ws\<close> (the remaining text shrinks).  No
  fuel is needed, and no loop of the source can fail to end, so there is no
  termination property.  The calendar's year estimate
  \<open>1970 + 400 d div 146097\<close> is corrected by one year at most
  (\<open>jan1_bounds\<close>), which \<open>year_of_day_correct\<close> proves.

  \<^bold>\<open>Findings.\<close>  Zero-filled buckets make two dates two days apart
  forecastable, against the specification's example (C12); a horizon of zero
  periods fails in \<open>predict\<close> (C13); a corrupt PDF loads as an empty table
  (C16); a failing model call crashes \<open>/agent/analyze\<close> (C18); an
  upper-case \<open>.CSV\<close> never gets the direct numeric answer (C19); the
  dashboard's initial slider ranges drop rows with missing values (C26); a
  header-only CSV crashes the dashboard (C30); a whitespace question passes
  the agent button's guard (C33); the insights button hides an error reply;
  the Gemini API key is written in gemini_agent.py (line 14); the PDF
  branch's fixed temporary path would be shared by several worker
  processes.

  \<^bold>\<open>Not modelled.\<close>  The parsers behind \<open>load_file\<close> (pandas, tabula),
  \<open>pd.to_datetime\<close>, the language models and their clients, the CSV and
  number formatting: library code, present as parameters.  Python floats are
  reals (no rounding, no NaN arithmetic: NaN is \<open>None\<close> where the code
  produces it).  String operations are modelled on ASCII (\<open>lower\<close>,
  whitespace).  The Streamlit widgets are inputs of the model (a slider's
  value, a multiselect's choice, which Streamlit keeps within its options);
  plotly's drawing, \<open>st.dataframe\<close>, the CSV downloads, the line and
  scatter charts (which pass columns to plotly unchanged) and the markup and
  animation of the home page are presentation.  Whether Streamlit runs the
  home page's script at all is Streamlit's business: \<open>Home\<close> models what
  the script does when it runs.  The order of groups with equal totals in
  the bar chart is numpy's sort's (the model keeps key order); the group-by
  table of a Y column that is not numeric, which pandas builds by
  concatenating strings, is recorded as \<open>ObjectTable\<close> and not computed.
  A forecast value column holding a non-number fails with
  \<open>TypeError value_col\<close> before the bucket count is checked; pandas fails
  at the sum when a bucket mixes numbers and strings, and at the fit, after
  the bucket check, when it holds strings only (the endpoint's default value
  column is always numeric).  Concurrency between worker processes (the PDF
  branch's fixed temporary path) is not modelled.  The root \<open>GET\<close>, the CORS set-up,
  \<open>uvicorn.run\<close>, \<open>load_dotenv\<close>, \<open>genai.configure\<close> and the unused
  \<open>_safe_lang\<close> are configuration without behaviour to verify.
\<close>

end
